(* ===== verification/Prelude.thy ===== *)
theory Prelude imports Main "HOL-Library.AList" "HOL-Library.Sublist"
begin

text \<open>
  Shared vocabulary of the development: JavaScript objects used as dictionaries, the array
  helpers the web client calls (\<open>find\<close>, \<open>findIndex\<close>, \<open>some\<close>, index assignment), JavaScript
  truthiness of identifiers, decimal printing of numbers, and the fact collections the
  component theories feed. A string is the list of its UTF-8 bytes; it is used for opaque text
  that is only compared, concatenated or searched for ASCII.
\<close>

named_theorems obj_simps "reading an object after an update"
named_theorems store_defs "the unfolding equations of the store operations"
named_theorems frame_simps "the fields an operation leaves alone"

section \<open>JavaScript objects as insertion-ordered dictionaries\<close>

text \<open>
  \<open>{ ...o, [k]: v }\<close> keeps the position of an existing key and appends a new one, which is
  \<open>AList.update\<close>; \<open>delete o[k]\<close> is \<open>AList.delete\<close>; \<open>Object.values\<close> reads in insertion order.
  Every key of the client is a UUID or a generated identifier, never an integer-like string, so
  the numeric-key ordering of JavaScript does not arise.
\<close>

type_synonym 'v obj = "(string \<times> 'v) list"

definition oget :: "'v obj \<Rightarrow> string \<Rightarrow> 'v option" where
  "oget o' k = map_of o' k"

definition oput :: "string \<Rightarrow> 'v \<Rightarrow> 'v obj \<Rightarrow> 'v obj" where
  "oput k v o' = AList.update k v o'"

definition odel :: "string \<Rightarrow> 'v obj \<Rightarrow> 'v obj" where
  "odel k o' = AList.delete k o'"

definition ovalues :: "'v obj \<Rightarrow> 'v list" where
  "ovalues o' = map snd o'"

locale js_object =
  fixes emp :: "'o"
    and get :: "'o \<Rightarrow> 'k \<Rightarrow> 'v option"
    and put :: "'k \<Rightarrow> 'v \<Rightarrow> 'o \<Rightarrow> 'o"
    and del :: "'k \<Rightarrow> 'o \<Rightarrow> 'o"
  assumes get_emp: "get emp k = None"
    and get_put: "get (put k v ob) k' = (if k = k' then Some v else get ob k')"
    and get_del: "get (del k ob) k' = (if k = k' then None else get ob k')"
begin

lemma get_put_same: "get (put k v ob) k = Some v"
  by (simp add: get_put)

lemma get_put_other: "k \<noteq> k' \<Longrightarrow> get (put k v ob) k' = get ob k'"
  by (simp add: get_put)

lemma get_del_same: "get (del k ob) k = None"
  by (simp add: get_del)

lemma all_put:
  assumes "\<And>k' v'. get ob k' = Some v' \<Longrightarrow> P k' v'" and "P k v"
  shows "get (put k v ob) k' = Some v' \<Longrightarrow> P k' v'"
  using assms by (auto simp: get_put split: if_splits)

lemma all_del:
  assumes "\<And>k' v'. get ob k' = Some v' \<Longrightarrow> P k' v'"
  shows "get (del k ob) k' = Some v' \<Longrightarrow> P k' v'"
  using assms by (auto simp: get_del split: if_splits)

end

interpretation obj: js_object "[]" oget oput odel
  by unfold_locales (auto simp: oget_def oput_def odel_def AList.update_conv' AList.delete_conv')

declare obj.get_emp [simp, obj_simps]
declare obj.get_put [simp, obj_simps]
declare obj.get_del [simp, obj_simps]

lemma keys_oput [simp]: "fst ` set (oput k v ob) = insert k (fst ` set ob)"
  by (simp add: oput_def AList.dom_update)

lemma distinct_oput [simp]: "distinct (map fst ob) \<Longrightarrow> distinct (map fst (oput k v ob))"
  by (simp add: oput_def AList.distinct_update)

lemma keys_odel [simp]: "fst ` set (odel k ob) = fst ` set ob - {k}"
  unfolding odel_def by (induction ob) auto

lemma distinct_odel [simp]: "distinct (map fst ob) \<Longrightarrow> distinct (map fst (odel k ob))"
  by (simp add: odel_def AList.distinct_delete)

lemma oget_in_keys: "oget ob k = Some v \<Longrightarrow> k \<in> fst ` set ob"
  by (auto simp: oget_def dest: map_of_SomeD intro: rev_image_eqI)

lemma oput_oput [simp]: "oput k v (oput k v' ob) = oput k v ob"
  unfolding oput_def by (induction ob) auto

lemma oput_same: "oget ob k = Some v \<Longrightarrow> oput k v ob = ob"
  unfolding oput_def oget_def by (induction ob) auto

lemma oget_filter:
  "distinct (map fst ob) \<Longrightarrow>
   oget (filter (\<lambda>(k, v). P v) ob) k =
     (case oget ob k of None \<Rightarrow> None | Some v \<Rightarrow> if P v then Some v else None)"
  unfolding oget_def
proof (induction ob)
  case Nil
  then show ?case by simp
next
  case (Cons p ob)
  then have none: "fst p = k \<Longrightarrow> map_of ob k = None"
    by (auto simp: map_of_eq_None_iff)
  then show ?case using Cons by (cases p) (auto split: option.splits)
qed

section \<open>Redelivered events\<close>

text \<open>
  The gateway may deliver an event that the client has already applied (the echo of its own
  request, a retransmission after a reconnect). A reducer tolerates that when applying an event
  twice is applying it once; then any number of deliveries in a row counts as one.
\<close>

locale redeliverable =
  fixes app :: "'e \<Rightarrow> 's \<Rightarrow> 's"
  assumes app_idem: "app e (app e s) = app e s"
begin

lemma replay: "(app e ^^ Suc n) s = app e s"
  by (induction n) (simp_all add: app_idem)

lemma replay_list: "es \<noteq> [] \<Longrightarrow> set es \<subseteq> {e} \<Longrightarrow> fold app es s = app e s"
proof (induction es arbitrary: s)
  case Nil
  then show ?case by simp
next
  case (Cons e' es)
  then show ?case by (cases "es = []") (simp_all add: app_idem)
qed

end

section \<open>Arrays\<close>

text \<open>
  \<open>arr.findIndex(p)\<close>: the first index where \<open>p\<close> holds; the source's \<open>-1\<close> is \<open>None\<close>.
  \<open>arr.find(p)\<close> is \<open>List.find\<close> and \<open>arr.some(p)\<close> is \<open>list_ex\<close>.
\<close>

fun findIndex :: "('a \<Rightarrow> bool) \<Rightarrow> 'a list \<Rightarrow> nat option" where
  "findIndex p [] = None"
| "findIndex p (x # xs) = (if p x then Some 0 else map_option Suc (findIndex p xs))"

lemma findIndex_None: "findIndex p xs = None \<longleftrightarrow> (\<forall>x \<in> set xs. \<not> p x)"
  by (induction xs) auto

lemma findIndex_Some:
  "findIndex p xs = Some i \<Longrightarrow> i < length xs \<and> p (xs ! i) \<and> (\<forall>j < i. \<not> p (xs ! j))"
proof (induction xs arbitrary: i)
  case Nil
  then show ?case by simp
next
  case (Cons x xs)
  then show ?case
    by (cases i) (auto simp: less_Suc_eq_0_disj split: if_splits)
qed

lemma findIndex_split:
  assumes "findIndex p xs = Some i"
  obtains ys x zs where "xs = ys @ x # zs" "length ys = i" "p x" "\<forall>y \<in> set ys. \<not> p y"
proof -
  from findIndex_Some [OF assms] have i: "i < length xs" "p (xs ! i)" "\<forall>j < i. \<not> p (xs ! j)"
    by auto
  then have "xs = take i xs @ xs ! i # drop (Suc i) xs" "length (take i xs) = i"
    by (auto simp: id_take_nth_drop)
  moreover have "\<forall>y \<in> set (take i xs). \<not> p y"
    using i by (auto simp: in_set_conv_nth)
  ultimately show ?thesis using i(2) that by blast
qed

lemma find_Some_set: "List.find p xs = Some x \<Longrightarrow> x \<in> set xs \<and> p x"
  by (induction xs) (auto split: if_splits)

lemma find_Some_split:
  "List.find p xs = Some x \<Longrightarrow> \<exists>ys zs. xs = ys @ x # zs \<and> p x \<and> (\<forall>y \<in> set ys. \<not> p y)"
proof (induction xs)
  case Nil
  then show ?case by simp
next
  case (Cons z xs)
  show ?case
  proof (cases "p z")
    case True
    then show ?thesis using Cons.prems by (intro exI [of _ "[]"] exI [of _ xs]) simp
  next
    case False
    then obtain ys zs where "xs = ys @ x # zs" "p x" "\<forall>y \<in> set ys. \<not> p y"
      using Cons by auto
    then show ?thesis using False by (intro exI [of _ "z # ys"] exI [of _ zs]) simp
  qed
qed

lemma find_None_set: "List.find p xs = None \<longleftrightarrow> (\<forall>x \<in> set xs. \<not> p x)"
  by (induction xs) auto

text \<open>Replacing every element with a given key keeps the keys when the new element has it.\<close>

lemma map_replace_keys:
  "key y = k \<Longrightarrow> map key (map (\<lambda>x. if key x = k then y else x) xs) = map key xs"
  by (induction xs) auto

lemma distinct_map_update:
  "distinct (map f xs) \<Longrightarrow> i < length xs \<Longrightarrow> f y \<notin> set (map f xs) \<Longrightarrow> distinct (map f (xs[i := y]))"
  by (simp add: map_update distinct_list_update)

lemma distinct_map_append1:
  "distinct (map f (xs @ [y])) \<longleftrightarrow> distinct (map f xs) \<and> f y \<notin> f ` set xs"
  by auto

lemma distinct_map_filter: "distinct (map f xs) \<Longrightarrow> distinct (map f (filter p xs))"
  by (induction xs) auto

text \<open>Removing the element at an index from a list without duplicates.\<close>

lemma set_drop_nth:
  assumes "distinct xs" "i < length xs"
  shows "set (take i xs @ drop (Suc i) xs) = set xs - {xs ! i}" "distinct (take i xs @ drop (Suc i) xs)"
proof -
  have e: "xs = take i xs @ xs ! i # drop (Suc i) xs"
    using assms(2) by (rule id_take_nth_drop)
  then have d: "distinct (take i xs @ xs ! i # drop (Suc i) xs)" using assms(1) by simp
  have "set xs = insert (xs ! i) (set (take i xs @ drop (Suc i) xs))"
    by (subst e) auto
  with d show "set (take i xs @ drop (Suc i) xs) = set xs - {xs ! i}" by auto
  show "distinct (take i xs @ drop (Suc i) xs)" using d by auto
qed

section \<open>Runs\<close>

text \<open>
  The contract between a component and its environment: every event the environment may send
  (\<open>ok\<close>) keeps the component's invariant. A run is a fold of the step function.
\<close>

locale invariant_steps =
  fixes step :: "'e \<Rightarrow> 's \<Rightarrow> 's"
    and inv :: "'s \<Rightarrow> bool"
    and ok :: "'e \<Rightarrow> bool"
  assumes keep: "inv s \<Longrightarrow> ok e \<Longrightarrow> inv (step e s)"
begin

lemma run: "inv s \<Longrightarrow> list_all ok es \<Longrightarrow> inv (fold step es s)"
  by (induction es arbitrary: s) (simp_all add: keep)

lemma run_append: "inv s \<Longrightarrow> list_all ok (es @ es') \<Longrightarrow> inv (fold step es s) \<and> inv (fold step (es @ es') s)"
  using run by simp

end

lemma list_all_True [simp]: "list_all (\<lambda>_. True) xs"
  by (induction xs) simp_all

section \<open>Joining\<close>

text \<open>\<open>Array.prototype.join\<close>.\<close>

fun join_by :: "string \<Rightarrow> string list \<Rightarrow> string" where
  "join_by sep [] = []"
| "join_by sep [x] = x"
| "join_by sep (x # y # xs) = x @ sep @ join_by sep (y # xs)"

section \<open>Truthiness\<close>

text \<open>An identifier read in a condition is falsy when it is \<open>null\<close>, \<open>undefined\<close> or empty.\<close>

definition truthy :: "string option \<Rightarrow> bool" where
  "truthy x = (case x of None \<Rightarrow> False | Some s \<Rightarrow> s \<noteq> [])"

lemma truthy_simps [simp]: "\<not> truthy None" "truthy (Some s) \<longleftrightarrow> s \<noteq> []"
  by (simp_all add: truthy_def)

lemma truthy_Some: "truthy x \<Longrightarrow> \<exists>s. x = Some s \<and> s \<noteq> []"
  by (cases x) simp_all

section \<open>Decimal printing\<close>

definition digitChar :: "nat \<Rightarrow> char" where
  "digitChar d = char_of (48 + d)"

fun showNat :: "nat \<Rightarrow> string" where
  "showNat n = (if n < 10 then [digitChar n] else showNat (n div 10) @ [digitChar (n mod 10)])"

declare showNat.simps [simp del]

definition readNat :: "string \<Rightarrow> nat" where
  "readNat s = foldl (\<lambda>a c. 10 * a + (of_char c - 48)) 0 s"

lemma of_digitChar: "d < 10 \<Longrightarrow> of_char (digitChar d) = 48 + d"
  by (simp add: digitChar_def)

lemma readNat_showNat: "readNat (showNat n) = n"
proof (induction n rule: showNat.induct)
  case (1 n)
  show ?case
  proof (cases "n < 10")
    case True
    then show ?thesis by (simp add: showNat.simps [of n] readNat_def of_digitChar)
  next
    case False
    with 1 have "readNat (showNat (n div 10)) = n div 10" by simp
    with False show ?thesis
      by (simp add: showNat.simps [of n] readNat_def of_digitChar)
  qed
qed

lemma digit_not_dash: "d < 10 \<Longrightarrow> digitChar d \<noteq> CHR ''-''"
proof
  assume "d < 10" "digitChar d = CHR ''-''"
  then have "(48 + d :: nat) = of_char (CHR ''-'')" using of_digitChar by metis
  then show False by simp
qed

lemma showNat_no_dash: "CHR ''-'' \<notin> set (showNat n)"
proof (induction n rule: showNat.induct)
  case (1 n)
  then show ?case
    using digit_not_dash [of n] digit_not_dash [of "n mod 10"]
    by (subst showNat.simps) auto
qed

lemma showNat_inj: "showNat m = showNat n \<Longrightarrow> m = n"
  using readNat_showNat by metis

end
