(* ===== verification/Wire_Types.thy ===== *)
theory Wire_Types imports Prelude
begin

text \<open>
  The JSON objects the client receives and keeps, one record per shape (users, guilds, channels,
  members, messages with their authors, attachments and reactions), the frames of the gateway,
  and the conversation and store records of \<open>chatStore.js\<close> built from them. A property the code
  reads with a default (\<open>m.reactions || []\<close>) or that some objects lack is an \<open>option\<close>; a flag
  that is absent until set (\<open>optimistic\<close>, \<open>failed\<close>) is a \<open>bool\<close>. Instants are milliseconds since
  the epoch, \<open>None\<close> for text \<open>Date\<close> cannot parse.
\<close>

record user =
  u_id :: string
  u_username :: string
  u_email :: "string option"
  u_avatar_url :: "string option"
  u_bio :: "string option"
  u_pronouns :: "string option"
  u_accent_color :: "string option"
  u_created_at :: "int option"

record guild =
  g_id :: string
  g_name :: string
  g_owner_id :: string
  g_icon_url :: string

record channel =
  ch_id :: string
  ch_guild_id :: string
  ch_name :: string
  ch_type :: string
  ch_topic :: string

record gmember =
  mb_user_id :: string
  mb_username :: string
  mb_avatar_url :: string
  mb_status :: string
  mb_is_owner :: bool
  mb_guild_id :: "string option"

record author =
  a_id :: string
  a_username :: string
  a_avatar_url :: string

record attachment =
  at_url :: string
  at_filename :: string
  at_size :: int
  at_content_type :: string

record reaction =
  r_emoji :: string
  r_count :: int
  r_me :: bool
  r_users :: "string list option"

record msg =
  m_id :: string
  m_channel_id :: string
  m_guild_id :: string
  m_author :: author
  m_content :: string
  m_attachments :: "attachment list"
  m_reactions :: "reaction list option"
  m_created_at :: "int option"
  m_edited_at :: "int option"
  m_optimistic :: bool
  m_failed :: bool

text \<open>A file picked in the composer, and a GIF picked from the GIF panel.\<close>

record upload_file =
  f_name :: string
  f_size :: int
  f_type :: string

record gif =
  gif_id :: string
  gif_url :: string
  gif_preview :: string
  gif_width :: nat
  gif_height :: nat

text \<open>The payload of the two reaction events.\<close>

record reaction_event =
  re_channel_id :: string
  re_message_id :: string
  re_emoji :: string
  re_user_id :: string

text \<open>
  The conversation kept per channel. \<open>pending\<close> is present only while the first page is loading
  (\<open>freshConv\<close> builds an object without it).
\<close>

record conv =
  items :: "msg list"
  hasMore :: bool
  loaded :: bool
  loadingInitial :: bool
  loadingOlder :: bool
  pending :: "msg list option"

record typing_entry =
  ty_username :: string
  ty_until :: int

text \<open>The state of \<open>useChatStore\<close>.\<close>

record chat =
  wsConnected :: bool
  guilds :: "guild list"
  guildsLoaded :: bool
  selectedGuildId :: "string option"
  selectedChannelId :: "string option"
  lastChannelByGuild :: "string obj"
  channelsByGuild :: "channel list obj"
  membersByGuild :: "gmember list obj"
  messagesByChannel :: "conv obj"
  typingByChannel :: "typing_entry obj obj"

text \<open>The state \<open>useChatStore\<close> starts with, which \<open>reset\<close> restores field by field.\<close>

definition initial_chat :: chat where
  "initial_chat = \<lparr>wsConnected = False, guilds = [], guildsLoaded = False,
     selectedGuildId = None, selectedChannelId = None, lastChannelByGuild = [],
     channelsByGuild = [], membersByGuild = [], messagesByChannel = [], typingByChannel = []\<rparr>"

text \<open>\<open>o || d\<close> for an optional array.\<close>

definition or_empty :: "'a list option \<Rightarrow> 'a list" where
  "or_empty x = (case x of None \<Rightarrow> [] | Some xs \<Rightarrow> xs)"

lemma or_empty_simps [simp]: "or_empty None = []" "or_empty (Some xs) = xs"
  by (simp_all add: or_empty_def)

text \<open>\<open>m.optimistic\<close>/\<open>m.failed\<close> as the composer and the list components test them.\<close>

abbreviation is_me :: "user option \<Rightarrow> string \<Rightarrow> bool" where
  "is_me me uid \<equiv> (case me of None \<Rightarrow> False | Some u \<Rightarrow> uid = u_id u)"

abbreviation ids_of :: "msg list \<Rightarrow> string list" where
  "ids_of ms \<equiv> map m_id ms"

end
