(* ===== verification/Conversation.thy ===== *)
theory Conversation imports Wire_Types
begin

text \<open>
  The message half of \<open>chatStore.js\<close>: the conversation helpers \<open>freshConv\<close> and \<open>withConv\<close>, the
  synchronous part of sending (\<open>resolveOptimistic\<close>, \<open>dismissLocal\<close> and the two item updates of
  \<open>sendMessage\<close>) and the gateway reducers \<open>applyMessageCreate\<close>, \<open>applyMessageUpdate\<close> and
  \<open>applyMessageDelete\<close>. The lemmas give the conversation invariant \<open>wf_conv\<close>, through a locale
  for the operations that only edit items already present, and the functional behaviour of
  every branch.
\<close>

section \<open>Definitions\<close>

definition PAGE_SIZE :: nat where
  "PAGE_SIZE = 50"

definition freshConv :: "msg list \<Rightarrow> conv" where
  "freshConv msgsNewestFirst = \<lparr>
     items = rev msgsNewestFirst,
     hasMore = (length msgsNewestFirst \<ge> PAGE_SIZE),
     loaded = True,
     loadingInitial = False,
     loadingOlder = False,
     pending = None\<rparr>"

definition withConv :: "chat \<Rightarrow> string \<Rightarrow> (conv \<Rightarrow> conv) \<Rightarrow> chat" where
  "withConv s channelId update =
     (case oget (messagesByChannel s) channelId of
        None \<Rightarrow> s
      | Some conv' \<Rightarrow>
          s\<lparr>messagesByChannel := oput channelId (update conv') (messagesByChannel s)\<rparr>)"

text \<open>Most callers update the items only.\<close>

definition withItems :: "chat \<Rightarrow> string \<Rightarrow> (msg list \<Rightarrow> msg list) \<Rightarrow> chat" where
  "withItems s channelId f = withConv s channelId (\<lambda>cur. cur\<lparr>items := f (items cur)\<rparr>)"

definition replace_msg :: "string \<Rightarrow> msg \<Rightarrow> msg list \<Rightarrow> msg list" where
  "replace_msg i m ms = map (\<lambda>x. if m_id x = i then m else x) ms"

definition addOptimistic :: "string \<Rightarrow> msg \<Rightarrow> chat \<Rightarrow> chat" where
  "addOptimistic channelId optimistic s = withItems s channelId (\<lambda>ms. ms @ [optimistic])"

definition markFailed :: "string \<Rightarrow> string \<Rightarrow> chat \<Rightarrow> chat" where
  "markFailed channelId tempId s =
     withItems s channelId (map (\<lambda>m. if m_id m = tempId then m\<lparr>m_failed := True\<rparr> else m))"

definition resolve_items :: "string \<Rightarrow> msg \<Rightarrow> msg list \<Rightarrow> msg list" where
  "resolve_items tempId m ms =
     (if list_ex (\<lambda>x. m_id x = m_id m) ms
      then filter (\<lambda>x. m_id x \<noteq> tempId) ms
      else replace_msg tempId m ms)"

definition resolveOptimistic :: "string \<Rightarrow> string \<Rightarrow> msg \<Rightarrow> chat \<Rightarrow> chat" where
  "resolveOptimistic channelId tempId m s = withItems s channelId (resolve_items tempId m)"

definition dismissLocal :: "string \<Rightarrow> string \<Rightarrow> chat \<Rightarrow> chat" where
  "dismissLocal channelId i s = withItems s channelId (filter (\<lambda>m. m_id m \<noteq> i))"

definition applyMessageUpdate :: "msg \<Rightarrow> chat \<Rightarrow> chat" where
  "applyMessageUpdate m s = withItems s (m_channel_id m) (replace_msg (m_id m) m)"

definition applyMessageDelete :: "string \<Rightarrow> string \<Rightarrow> chat \<Rightarrow> chat" where
  "applyMessageDelete i channel_id s = withItems s channel_id (filter (\<lambda>m. m_id m \<noteq> i))"

text \<open>
  \<open>applyMessageCreate\<close> on a loaded conversation: a known id is replaced in place, the echo of an
  own optimistic send takes its place, anything else is appended.
\<close>

definition pendingIdx :: "user option \<Rightarrow> msg \<Rightarrow> msg list \<Rightarrow> nat option" where
  "pendingIdx me m ms =
     (if is_me me (a_id (m_author m))
      then findIndex (\<lambda>x. m_optimistic x \<and> \<not> m_failed x \<and> m_content x = m_content m) ms
      else None)"

definition create_items :: "user option \<Rightarrow> msg \<Rightarrow> msg list \<Rightarrow> msg list" where
  "create_items me m ms =
     (if list_ex (\<lambda>x. m_id x = m_id m) ms then replace_msg (m_id m) m ms
      else (case pendingIdx me m ms of
              Some i \<Rightarrow> ms[i := m]
            | None \<Rightarrow> ms @ [m]))"

definition buffer_msg :: "msg \<Rightarrow> conv \<Rightarrow> conv" where
  "buffer_msg m c =
     (if list_ex (\<lambda>x. m_id x = m_id m) (or_empty (pending c)) then c
      else c\<lparr>pending := Some (or_empty (pending c) @ [m])\<rparr>)"

definition clear_typing :: "string \<Rightarrow> string \<Rightarrow> typing_entry obj obj \<Rightarrow> typing_entry obj obj" where
  "clear_typing channelId uid t =
     (case oget t channelId of
        None \<Rightarrow> t
      | Some typing \<Rightarrow>
          (case oget typing uid of
             None \<Rightarrow> t
           | Some _ \<Rightarrow> oput channelId (odel uid typing) t))"

definition applyMessageCreate :: "user option \<Rightarrow> msg \<Rightarrow> chat \<Rightarrow> chat" where
  "applyMessageCreate me m s =
     (case oget (messagesByChannel s) (m_channel_id m) of
        None \<Rightarrow> s
      | Some c \<Rightarrow>
          if \<not> loaded c
          then (if list_ex (\<lambda>x. m_id x = m_id m) (or_empty (pending c)) then s
                else s\<lparr>messagesByChannel :=
                         oput (m_channel_id m) (buffer_msg m c) (messagesByChannel s)\<rparr>)
          else s\<lparr>messagesByChannel :=
                   oput (m_channel_id m) (c\<lparr>items := create_items me m (items c)\<rparr>)
                     (messagesByChannel s),
                 typingByChannel :=
                   clear_typing (m_channel_id m) (a_id (m_author m)) (typingByChannel s)\<rparr>)"

text \<open>
  The merge in the success branch of \<open>loadMessages\<close>: the fetched page, then every buffered
  message the page does not hold.
\<close>

definition mergeInitial :: "msg list \<Rightarrow> conv option \<Rightarrow> conv" where
  "mergeInitial msgs prev =
     (let c = freshConv msgs;
          buffered = (case prev of None \<Rightarrow> [] | Some p \<Rightarrow> or_empty (pending p));
          seen = set (ids_of (items c))
      in c\<lparr>items := items c @ filter (\<lambda>m. m_id m \<notin> seen) buffered\<rparr>)"

definition loadingConv :: conv where
  "loadingConv = \<lparr>items = [], hasMore = False, loaded = False, loadingInitial = True,
     loadingOlder = False, pending = Some []\<rparr>"

text \<open>The success branch of \<open>loadOlder\<close> on the conversation.\<close>

definition prependOlder :: "msg list \<Rightarrow> conv \<Rightarrow> conv" where
  "prependOlder older cur = cur\<lparr>items := rev older @ items cur,
     hasMore := (length older \<ge> PAGE_SIZE), loadingOlder := False\<rparr>"

lemmas conv_op_defs = addOptimistic_def markFailed_def resolveOptimistic_def dismissLocal_def
  applyMessageUpdate_def applyMessageDelete_def

section \<open>Frame\<close>

text \<open>\<open>items.some((m) => m.id === i)\<close> is membership among the ids.\<close>

lemma has_id [simp]: "list_ex (\<lambda>x. m_id x = i) ms \<longleftrightarrow> i \<in> m_id ` set ms"
  by (auto simp: list_ex_iff)

lemma withConv_frame [simp, frame_simps]:
  "wsConnected (withConv s ch f) = wsConnected s"
  "guilds (withConv s ch f) = guilds s"
  "guildsLoaded (withConv s ch f) = guildsLoaded s"
  "selectedGuildId (withConv s ch f) = selectedGuildId s"
  "selectedChannelId (withConv s ch f) = selectedChannelId s"
  "lastChannelByGuild (withConv s ch f) = lastChannelByGuild s"
  "channelsByGuild (withConv s ch f) = channelsByGuild s"
  "membersByGuild (withConv s ch f) = membersByGuild s"
  "typingByChannel (withConv s ch f) = typingByChannel s"
  by (simp_all add: withConv_def split: option.split)

lemma withConv_get [simp, obj_simps]:
  "oget (messagesByChannel (withConv s ch f)) k =
     (if k = ch then map_option f (oget (messagesByChannel s) ch)
      else oget (messagesByChannel s) k)"
  by (simp add: withConv_def split: option.split)

lemma withItems_get [simp, obj_simps]:
  "oget (messagesByChannel (withItems s ch f)) k =
     (if k = ch then map_option (\<lambda>c. c\<lparr>items := f (items c)\<rparr>) (oget (messagesByChannel s) ch)
      else oget (messagesByChannel s) k)"
  by (simp add: withItems_def)

lemma withItems_frame [simp, frame_simps]:
  "wsConnected (withItems s ch g) = wsConnected s"
  "guilds (withItems s ch g) = guilds s"
  "guildsLoaded (withItems s ch g) = guildsLoaded s"
  "selectedGuildId (withItems s ch g) = selectedGuildId s"
  "selectedChannelId (withItems s ch g) = selectedChannelId s"
  "lastChannelByGuild (withItems s ch g) = lastChannelByGuild s"
  "channelsByGuild (withItems s ch g) = channelsByGuild s"
  "membersByGuild (withItems s ch g) = membersByGuild s"
  "typingByChannel (withItems s ch g) = typingByChannel s"
  by (simp_all add: withItems_def)

text \<open>The conversation a channel has after \<open>applyMessageCreate\<close>.\<close>

definition create_conv :: "user option \<Rightarrow> msg \<Rightarrow> conv \<Rightarrow> conv" where
  "create_conv me m c =
     (if loaded c then c\<lparr>items := create_items me m (items c)\<rparr> else buffer_msg m c)"

lemma applyMessageCreate_get [simp, obj_simps]:
  "oget (messagesByChannel (applyMessageCreate me m s)) k =
     (if k = m_channel_id m then map_option (create_conv me m) (oget (messagesByChannel s) k)
      else oget (messagesByChannel s) k)"
  by (auto simp: applyMessageCreate_def create_conv_def buffer_msg_def split: option.split)

lemma applyMessageCreate_frame [simp, frame_simps]:
  "wsConnected (applyMessageCreate me m s) = wsConnected s"
  "guilds (applyMessageCreate me m s) = guilds s"
  "guildsLoaded (applyMessageCreate me m s) = guildsLoaded s"
  "selectedGuildId (applyMessageCreate me m s) = selectedGuildId s"
  "selectedChannelId (applyMessageCreate me m s) = selectedChannelId s"
  "lastChannelByGuild (applyMessageCreate me m s) = lastChannelByGuild s"
  "channelsByGuild (applyMessageCreate me m s) = channelsByGuild s"
  "membersByGuild (applyMessageCreate me m s) = membersByGuild s"
  by (simp_all add: applyMessageCreate_def split: option.split)

section \<open>Item edits and the conversation invariant\<close>

text \<open>
  The ids still waiting for the server: optimistic entries that have not failed. A conversation
  is well formed when its item ids and its buffered ids are distinct, and when the loading flags
  exclude each other.
\<close>

definition waiting :: "msg \<Rightarrow> bool" where
  "waiting m \<longleftrightarrow> m_optimistic m \<and> \<not> m_failed m"

definition waiting_ids :: "msg list \<Rightarrow> string set" where
  "waiting_ids ms = m_id ` set (filter waiting ms)"

definition wf_conv :: "conv \<Rightarrow> bool" where
  "wf_conv c \<longleftrightarrow> distinct (ids_of (items c)) \<and> distinct (ids_of (or_empty (pending c)))
     \<and> (loaded c \<longrightarrow> \<not> loadingInitial c) \<and> (\<not> loaded c \<longrightarrow> \<not> loadingOlder c)"

definition conv_ids :: "conv \<Rightarrow> string set" where
  "conv_ids c = set (ids_of (items c)) \<union> set (ids_of (or_empty (pending c)))"

lemma waiting_ids_simps [simp]:
  "waiting_ids [] = {}"
  "waiting_ids (m # ms) = (if waiting m then insert (m_id m) (waiting_ids ms) else waiting_ids ms)"
  "waiting_ids (ms @ ns) = waiting_ids ms \<union> waiting_ids ns"
  "waiting_ids (rev ms) = waiting_ids ms"
  by (auto simp: waiting_ids_def)

lemma waiting_ids_sub: "waiting_ids ms \<subseteq> set (ids_of ms)"
  by (auto simp: waiting_ids_def)

lemma waiting_ids_filter: "waiting_ids (filter p ms) \<subseteq> waiting_ids ms"
  by (auto simp: waiting_ids_def)

text \<open>
  The contract of an operation on the items: it keeps ids distinct, brings in no id outside
  \<open>new\<close> and leaves no entry waiting that was not waiting before, those of \<open>w\<close> excepted.
\<close>

locale items_edit =
  fixes f :: "msg list \<Rightarrow> msg list"
    and new :: "string set"
    and w :: "string set"
  assumes edit_distinct: "distinct (ids_of ms) \<Longrightarrow> distinct (ids_of (f ms))"
    and edit_ids: "set (ids_of (f ms)) \<subseteq> new \<union> set (ids_of ms)"
    and edit_waiting: "waiting_ids (f ms) \<subseteq> w \<union> waiting_ids ms"
begin

lemma edit_wf: "wf_conv c \<Longrightarrow> wf_conv (c\<lparr>items := f (items c)\<rparr>)"
  by (simp add: wf_conv_def edit_distinct)

lemma edit_conv_ids: "conv_ids (c\<lparr>items := f (items c)\<rparr>) \<subseteq> new \<union> conv_ids c"
  using edit_ids [of "items c"] by (auto simp: conv_ids_def)

end

lemma replace_msg_ids: "m_id m = i \<Longrightarrow> ids_of (replace_msg i m ms) = ids_of ms"
  by (simp add: replace_msg_def)

lemma replace_msg_absent: "i \<notin> set (ids_of ms) \<Longrightarrow> replace_msg i m ms = ms"
  by (induction ms) (auto simp: replace_msg_def)

lemma set_replace_msg: "set (replace_msg i m ms) \<subseteq> insert m (set ms)"
  by (auto simp: replace_msg_def)

lemma waiting_replace_msg: "waiting_ids (replace_msg i m ms) \<subseteq> waiting_ids [m] \<union> waiting_ids ms"
  by (auto simp: waiting_ids_def replace_msg_def)

text \<open>A list with distinct ids holds an id at one index only, so replacing is index assignment.\<close>

lemma replace_msg_at:
  "distinct (ids_of ms) \<Longrightarrow> k < length ms \<Longrightarrow> replace_msg (m_id (ms ! k)) m ms = ms[k := m]"
proof (rule nth_equalityI)
  fix j assume d: "distinct (ids_of ms)" and k: "k < length ms"
    and "j < length (replace_msg (m_id (ms ! k)) m ms)"
  then have j: "j < length ms" by (simp add: replace_msg_def)
  have "m_id (ms ! j) = m_id (ms ! k) \<longleftrightarrow> j = k"
    using nth_eq_iff_index_eq [OF d, of j k] j k by simp
  then show "replace_msg (m_id (ms ! k)) m ms ! j = ms[k := m] ! j"
    using j by (simp add: replace_msg_def nth_list_update)
qed (simp add: replace_msg_def)

lemma replace_msg_distinct:
  assumes "distinct (ids_of ms)" and "m_id m = i \<or> m_id m \<notin> set (ids_of ms)"
  shows "distinct (ids_of (replace_msg i m ms))"
proof (cases "i \<in> set (ids_of ms)")
  case False
  then show ?thesis using assms by (simp add: replace_msg_absent)
next
  case True
  then obtain k where k: "k < length ms" "m_id (ms ! k) = i"
    by (auto simp: in_set_conv_nth)
  show ?thesis
  proof (cases "m_id m = i")
    case True
    then show ?thesis using assms by (simp add: replace_msg_ids)
  next
    case False
    then have "m_id m \<notin> set (ids_of ms)" using assms(2) by simp
    then have "distinct (ids_of (ms[k := m]))"
      using assms(1) k(1) by (intro distinct_map_update) auto
    then show ?thesis using replace_msg_at [OF assms(1) k(1), of m] k(2) by simp
  qed
qed

interpretation replace_edit: items_edit "replace_msg (m_id m) m" "{}" "waiting_ids [m]" for m
proof unfold_locales
  fix ms
  show "set (ids_of (replace_msg (m_id m) m ms)) \<subseteq> {} \<union> set (ids_of ms)"
    by (simp add: replace_msg_ids [OF refl] del: set_map)
  show "distinct (ids_of ms) \<Longrightarrow> distinct (ids_of (replace_msg (m_id m) m ms))"
    by (simp add: replace_msg_ids)
  show "waiting_ids (replace_msg (m_id m) m ms) \<subseteq> waiting_ids [m] \<union> waiting_ids ms"
    by (rule waiting_replace_msg)
qed

interpretation filter_edit: items_edit "filter (\<lambda>m. m_id m \<noteq> i)" "{}" "{}" for i
  by unfold_locales (auto simp: distinct_map_filter waiting_ids_def)

interpretation failed_edit:
  items_edit "map (\<lambda>m. if m_id m = tempId then m\<lparr>m_failed := True\<rparr> else m)" "{}" "{}" for tempId
proof unfold_locales
  fix ms
  have same: "ids_of (map (\<lambda>m. if m_id m = tempId then m\<lparr>m_failed := True\<rparr> else m) ms) = ids_of ms"
    by simp
  show "set (ids_of (map (\<lambda>m. if m_id m = tempId then m\<lparr>m_failed := True\<rparr> else m) ms))
      \<subseteq> {} \<union> set (ids_of ms)"
    by auto
  show "distinct (ids_of ms) \<Longrightarrow>
      distinct (ids_of (map (\<lambda>m. if m_id m = tempId then m\<lparr>m_failed := True\<rparr> else m) ms))"
    using same by metis
  show "waiting_ids (map (\<lambda>m. if m_id m = tempId then m\<lparr>m_failed := True\<rparr> else m) ms)
      \<subseteq> {} \<union> waiting_ids ms"
    by (auto simp: waiting_ids_def waiting_def split: if_splits)
qed

interpretation resolve_edit: items_edit "resolve_items tempId m" "{m_id m}" "waiting_ids [m]" for tempId m
proof unfold_locales
  fix ms
  show "set (ids_of (resolve_items tempId m ms)) \<subseteq> {m_id m} \<union> set (ids_of ms)"
    using set_replace_msg [of tempId m ms] by (auto simp: resolve_items_def)
  show "distinct (ids_of ms) \<Longrightarrow> distinct (ids_of (resolve_items tempId m ms))"
    unfolding resolve_items_def has_id
    by (cases "m_id m \<in> m_id ` set ms")
      (simp_all add: distinct_map_filter replace_msg_distinct)
  show "waiting_ids (resolve_items tempId m ms) \<subseteq> waiting_ids [m] \<union> waiting_ids ms"
    using waiting_ids_filter [of "\<lambda>x. m_id x \<noteq> tempId" ms] waiting_replace_msg [of tempId m ms]
    by (simp add: resolve_items_def subset_eq del: waiting_ids_simps)
qed

lemma pendingIdx_SomeD:
  "pendingIdx me m ms = Some k \<Longrightarrow>
   k < length ms \<and> waiting (ms ! k) \<and> m_content (ms ! k) = m_content m \<and> is_me me (a_id (m_author m))"
  by (auto simp: pendingIdx_def waiting_def dest: findIndex_Some split: if_splits)

interpretation create_edit: items_edit "create_items me m" "{m_id m}" "waiting_ids [m]" for me m
proof unfold_locales
  fix ms
  have upd: "x \<in> set (ms[k := m]) \<Longrightarrow> x = m \<or> x \<in> set ms" for k x
    using set_update_subset_insert [of ms k m] by blast
  have sub: "set (create_items me m ms) \<subseteq> insert m (set ms)"
    using set_replace_msg [of "m_id m" m ms]
    by (auto simp: create_items_def dest: upd split: option.splits)
  then show "set (ids_of (create_items me m ms)) \<subseteq> {m_id m} \<union> set (ids_of ms)"
    by auto
  show "distinct (ids_of ms) \<Longrightarrow> distinct (ids_of (create_items me m ms))"
  proof (cases "list_ex (\<lambda>x. m_id x = m_id m) ms")
    case True
    assume "distinct (ids_of ms)"
    then show ?thesis using True by (simp add: create_items_def replace_msg_ids)
  next
    case False
    assume d: "distinct (ids_of ms)"
    from False have fresh: "m_id m \<notin> set (ids_of ms)" by simp
    show ?thesis
    proof (cases "pendingIdx me m ms")
      case None
      then show ?thesis using False fresh d by (simp add: create_items_def)
    next
      case (Some k)
      then have "k < length ms" using pendingIdx_SomeD by blast
      then have "distinct (ids_of (ms[k := m]))" using fresh d by (intro distinct_map_update)
      then show ?thesis using False Some by (simp add: create_items_def)
    qed
  qed
  show "waiting_ids (create_items me m ms) \<subseteq> waiting_ids [m] \<union> waiting_ids ms"
    using sub by (auto simp: waiting_ids_def)
qed

section \<open>Redelivery\<close>

lemma create_items_present:
  "m_id m \<in> set (ids_of ms) \<Longrightarrow> create_items me m ms = replace_msg (m_id m) m ms"
  by (simp add: create_items_def)

lemma create_items_in: "m \<in> set (create_items me m ms)"
proof (cases "m_id m \<in> set (ids_of ms)")
  case True
  then show ?thesis by (auto simp: create_items_present replace_msg_def)
next
  case False
  then show ?thesis
    by (auto simp: create_items_def split: option.splits
        dest!: pendingIdx_SomeD intro: set_update_memI)
qed

lemma create_items_delivers: "m_id m \<in> set (ids_of (create_items me m ms))"
  using create_items_in [of m me ms] by auto

lemma replace_msg_idem: "replace_msg (m_id m) m (replace_msg (m_id m) m ms) = replace_msg (m_id m) m ms"
  by (simp add: replace_msg_def)

lemma replace_msg_own: "(\<And>x. x \<in> set ms \<Longrightarrow> m_id x = m_id m \<Longrightarrow> x = m) \<Longrightarrow> replace_msg (m_id m) m ms = ms"
  unfolding replace_msg_def by (rule map_idI) auto

lemma create_items_only:
  assumes "x \<in> set (create_items me m ms)" and "m_id x = m_id m"
  shows "x = m"
proof (cases "m_id m \<in> set (ids_of ms)")
  case True
  then show ?thesis using assms by (auto simp: create_items_present replace_msg_def split: if_splits)
next
  case False
  then have "\<forall>y \<in> set ms. m_id y \<noteq> m_id m" by (metis list.set_map rev_image_eqI)
  moreover have "x = m \<or> x \<in> set ms"
    using assms False by (auto simp: create_items_def dest!: set_update_subset_insert [THEN subsetD]
        split: option.splits)
  ultimately show ?thesis using assms(2) by auto
qed

lemma create_items_idem: "create_items me m (create_items me m ms) = create_items me m ms"
  using create_items_present [OF create_items_delivers, of me m me ms]
    replace_msg_own [of "create_items me m ms" m] create_items_only [of _ me m ms]
  by metis

lemma buffer_msg_idem: "buffer_msg m (buffer_msg m c) = buffer_msg m c"
  by (auto simp: buffer_msg_def list_ex_iff)

lemma loaded_buffer [simp]: "loaded (buffer_msg m c) = loaded c"
  by (simp add: buffer_msg_def)

lemma create_conv_idem: "create_conv me m (create_conv me m c) = create_conv me m c"
  by (simp add: create_conv_def create_items_idem buffer_msg_idem)

lemma clear_typing_idem: "clear_typing ch u (clear_typing ch u t) = clear_typing ch u t"
  by (auto simp: clear_typing_def split: option.splits)

text \<open>\<open>applyMessageCreate\<close> as one update of the conversation and one of the typing entries.\<close>

lemma applyMessageCreate_Some:
  assumes "oget (messagesByChannel s) (m_channel_id m) = Some c"
  shows "applyMessageCreate me m s =
    s\<lparr>messagesByChannel := oput (m_channel_id m) (create_conv me m c) (messagesByChannel s),
      typingByChannel := (if loaded c
        then clear_typing (m_channel_id m) (a_id (m_author m)) (typingByChannel s)
        else typingByChannel s)\<rparr>"
proof (cases "\<not> loaded c \<and> list_ex (\<lambda>x. m_id x = m_id m) (or_empty (pending c))")
  case True
  then show ?thesis using assms
    by (simp add: applyMessageCreate_def create_conv_def buffer_msg_def oput_same)
next
  case False
  then show ?thesis using assms
    by (auto simp: applyMessageCreate_def create_conv_def)
qed

lemma applyMessageCreate_idem:
  "applyMessageCreate me m (applyMessageCreate me m s) = applyMessageCreate me m s"
proof (cases "oget (messagesByChannel s) (m_channel_id m)")
  case None
  then show ?thesis by (simp add: applyMessageCreate_def)
next
  case (Some c)
  have l: "loaded (create_conv me m c) = loaded c" by (simp add: create_conv_def)
  show ?thesis
    by (subst applyMessageCreate_Some [where c = "create_conv me m c"])
      (simp_all add: Some applyMessageCreate_Some [OF Some] l create_conv_idem clear_typing_idem)
qed

interpretation create_event: redeliverable "applyMessageCreate me" for me
  by unfold_locales (rule applyMessageCreate_idem)

lemma withItems_twice:
  "withItems (withItems s ch f) ch g = withItems s ch (\<lambda>ms. g (f ms))"
  by (simp add: withItems_def withConv_def split: option.split)

lemma withItems_cong:
  assumes "\<And>c. oget (messagesByChannel s) ch = Some c \<Longrightarrow> f (items c) = g (items c)"
  shows "withItems s ch f = withItems s ch g"
  using assms by (simp add: withItems_def withConv_def split: option.split)

interpretation update_event: redeliverable applyMessageUpdate
  by unfold_locales (simp add: applyMessageUpdate_def withItems_twice replace_msg_idem)

interpretation delete_event: redeliverable "\<lambda>i. applyMessageDelete i ch" for ch
  by unfold_locales (simp add: applyMessageDelete_def withItems_twice)

section \<open>The echo of an own message\<close>

text \<open>
  The POST response and the gateway echo of a sent message may arrive in either order. While
  the optimistic entry is the first waiting one with that content, both orders end in the same
  list: the entry replaced, in place, by the server's message.
\<close>

lemma resolve_after_create:
  assumes d: "distinct (ids_of ms)" and k: "pendingIdx me m ms = Some k"
    and t: "m_id (ms ! k) = tempId" and new: "m_id m \<notin> set (ids_of ms)"
  shows "resolve_items tempId m (create_items me m ms) = ms[k := m]"
proof -
  have kl: "k < length ms" using k pendingIdx_SomeD by blast
  have c: "create_items me m ms = ms[k := m]"
    using new k by (simp add: create_items_def)
  have "m_id x \<noteq> tempId" if x: "x \<in> set (ms[k := m])" for x
  proof -
    obtain j where j: "j < length ms" "x = ms[k := m] ! j"
      using x by (auto simp: in_set_conv_nth)
    have tin: "tempId \<in> set (ids_of ms)" using t kl nth_mem by fastforce
    show ?thesis
    proof (cases "j = k")
      case True
      then show ?thesis using j kl new tin by auto
    next
      case False
      then show ?thesis
        using j kl t nth_eq_iff_index_eq [OF d, of j k] by simp
    qed
  qed
  then have "filter (\<lambda>x. m_id x \<noteq> tempId) (ms[k := m]) = ms[k := m]"
    by (simp add: filter_id_conv)
  moreover have "m_id m \<in> m_id ` set (ms[k := m])"
    using kl set_update_memI [of k ms m] by blast
  ultimately show ?thesis by (simp add: resolve_items_def c)
qed

lemma create_after_resolve:
  assumes d: "distinct (ids_of ms)" and kl: "k < length ms"
    and t: "m_id (ms ! k) = tempId" and new: "m_id m \<notin> set (ids_of ms)"
  shows "create_items me m (resolve_items tempId m ms) = ms[k := m]"
proof -
  have r: "resolve_items tempId m ms = ms[k := m]"
    using new replace_msg_at [OF d kl, of m] t by (simp add: resolve_items_def)
  have "m \<in> set (ms[k := m])" using kl by (rule set_update_memI)
  moreover have "x = m" if "x \<in> set (ms[k := m])" "m_id x = m_id m" for x
  proof -
    have "x = m \<or> x \<in> set ms" using that(1) set_update_subset_insert [of ms k m] by blast
    then show ?thesis using new that(2) by (metis list.set_map rev_image_eqI)
  qed
  ultimately show ?thesis
    using r by (simp add: create_items_present replace_msg_own)
qed

end
