(* ===== verification/Reactions.thy ===== *)
theory Reactions imports Conversation
begin

text \<open>
  The reaction reducers \<open>applyReactionAdd\<close> and \<open>applyReactionRemove\<close> of \<open>chatStore.js\<close>. Their
  specification is a map from emoji to the set of users who reacted: on a message whose reactor
  lists are complete, which holds from the start for every message delivered live, the reducers
  refine insertion into and deletion from these sets, and the displayed count is the size of the
  set. Addition is idempotent on every message, removal where the reactors are known.
\<close>

section \<open>Definitions\<close>

definition users_of :: "reaction \<Rightarrow> string list" where
  "users_of r = or_empty (r_users r)"

definition addTo :: "bool \<Rightarrow> string \<Rightarrow> reaction \<Rightarrow> reaction option" where
  "addTo isMe user_id r =
     (if isMe
      then (if r_me r then None
            else Some (r\<lparr>r_count := r_count r + 1, r_me := True, r_users := Some (users_of r @ [user_id])\<rparr>))
      else (if user_id \<in> set (users_of r) then None
            else Some (r\<lparr>r_count := r_count r + 1, r_users := Some (users_of r @ [user_id])\<rparr>)))"

definition react_add :: "bool \<Rightarrow> string \<Rightarrow> string \<Rightarrow> msg \<Rightarrow> msg" where
  "react_add isMe emoji user_id m =
     (let reactions = or_empty (m_reactions m)
      in case findIndex (\<lambda>r. r_emoji r = emoji) reactions of
           None \<Rightarrow> m\<lparr>m_reactions := Some (reactions @
             [\<lparr>r_emoji = emoji, r_count = 1, r_me = isMe, r_users = Some [user_id]\<rparr>])\<rparr>
         | Some idx \<Rightarrow>
             (case addTo isMe user_id (reactions ! idx) of
                None \<Rightarrow> m
              | Some r \<Rightarrow> m\<lparr>m_reactions := Some (reactions[idx := r])\<rparr>))"

definition applyReactionAdd :: "user option \<Rightarrow> reaction_event \<Rightarrow> chat \<Rightarrow> chat" where
  "applyReactionAdd me ev s =
     withItems s (re_channel_id ev)
       (map (\<lambda>m. if m_id m \<noteq> re_message_id ev then m
                 else react_add (is_me me (re_user_id ev)) (re_emoji ev) (re_user_id ev) m))"

definition react_remove :: "bool \<Rightarrow> string \<Rightarrow> string \<Rightarrow> msg \<Rightarrow> msg" where
  "react_remove isMe emoji user_id m =
     (let reactions = or_empty (m_reactions m)
      in case findIndex (\<lambda>r. r_emoji r = emoji) reactions of
           None \<Rightarrow> m
         | Some idx \<Rightarrow>
             (let r = reactions ! idx; users = users_of r
              in if (if isMe then \<not> r_me r else users \<noteq> [] \<and> user_id \<notin> set users) then m
                 else (let nextCount = r_count r - 1
                       in m\<lparr>m_reactions := Some
                            (if nextCount \<le> 0 then take idx reactions @ drop (Suc idx) reactions
                             else reactions[idx := r\<lparr>r_count := nextCount,
                                                     r_me := (if isMe then False else r_me r),
                                                     r_users := Some (filter (\<lambda>u. u \<noteq> user_id) users)\<rparr>])\<rparr>)))"

definition applyReactionRemove :: "user option \<Rightarrow> reaction_event \<Rightarrow> chat \<Rightarrow> chat" where
  "applyReactionRemove me ev s =
     withItems s (re_channel_id ev)
       (map (\<lambda>m. if m_id m \<noteq> re_message_id ev then m
                 else react_remove (is_me me (re_user_id ev)) (re_emoji ev) (re_user_id ev) m))"

section \<open>Reactions leave the rest of a message alone\<close>

lemma react_add_frame [simp]:
  "m_id (react_add b e u m) = m_id m" "waiting (react_add b e u m) = waiting m"
  by (simp_all add: react_add_def waiting_def Let_def split: option.split)

lemma react_remove_frame [simp]:
  "m_id (react_remove b e u m) = m_id m" "waiting (react_remove b e u m) = waiting m"
  by (simp_all add: react_remove_def waiting_def Let_def split: option.split)

text \<open>Any rewriting of single messages that keeps id and sending state is an item edit.\<close>

lemma pointwise_edit:
  assumes "\<And>m. m_id (g m) = m_id m" and "\<And>m. waiting (g m) = waiting m"
  shows "items_edit (map g) {} {}"
proof
  fix ms :: "msg list"
  have ids: "ids_of (map g ms) = ids_of ms" using assms(1) by simp
  then show "distinct (ids_of ms) \<Longrightarrow> distinct (ids_of (map g ms))" by metis
  show "set (ids_of (map g ms)) \<subseteq> {} \<union> set (ids_of ms)" using ids by (metis Un_upper2)
  show "waiting_ids (map g ms) \<subseteq> {} \<union> waiting_ids ms"
    using assms by (auto simp: waiting_ids_def)
qed

interpretation add_edit: items_edit
  "map (\<lambda>m. if m_id m \<noteq> i then m else react_add b e u m)" "{}" "{}" for i b e u
  by (rule pointwise_edit) simp_all

interpretation remove_edit: items_edit
  "map (\<lambda>m. if m_id m \<noteq> i then m else react_remove b e u m)" "{}" "{}" for i b e u
  by (rule pointwise_edit) simp_all

section \<open>The list of reactions around one emoji\<close>

abbreviation reactions_of :: "msg \<Rightarrow> reaction list" where
  "reactions_of m \<equiv> or_empty (m_reactions m)"

lemma findIndex_app:
  "\<forall>y \<in> set ys. \<not> p y \<Longrightarrow> p x \<Longrightarrow> findIndex p (ys @ x # zs) = Some (length ys)"
  by (induction ys) auto

lemma react_add_absent:
  "\<forall>r \<in> set (reactions_of m). r_emoji r \<noteq> e \<Longrightarrow>
   reactions_of (react_add b e u m) = reactions_of m @
     [\<lparr>r_emoji = e, r_count = 1, r_me = b, r_users = Some [u]\<rparr>]"
  by (simp add: react_add_def Let_def findIndex_None [THEN iffD2])

lemma react_add_present:
  assumes "reactions_of m = ys @ r # zs" "r_emoji r = e" "\<forall>y \<in> set ys. r_emoji y \<noteq> e"
  shows "react_add b e u m =
    (case addTo b u r of None \<Rightarrow> m | Some r' \<Rightarrow> m\<lparr>m_reactions := Some (ys @ r' # zs)\<rparr>)"
  using assms findIndex_app [of ys "\<lambda>r. r_emoji r = e" r zs]
  by (simp add: react_add_def Let_def split: option.split)

lemma react_remove_absent:
  "\<forall>r \<in> set (reactions_of m). r_emoji r \<noteq> e \<Longrightarrow> react_remove b e u m = m"
  by (simp add: react_remove_def Let_def findIndex_None [THEN iffD2])

definition removeFrom :: "bool \<Rightarrow> string \<Rightarrow> reaction \<Rightarrow> reaction list option" where
  "removeFrom isMe u r =
     (if (if isMe then \<not> r_me r else users_of r \<noteq> [] \<and> u \<notin> set (users_of r)) then None
      else if r_count r - 1 \<le> 0 then Some []
      else Some [r\<lparr>r_count := r_count r - 1, r_me := (if isMe then False else r_me r),
                   r_users := Some (filter (\<lambda>v. v \<noteq> u) (users_of r))\<rparr>])"

lemma react_remove_present:
  assumes "reactions_of m = ys @ r # zs" "r_emoji r = e" "\<forall>y \<in> set ys. r_emoji y \<noteq> e"
  shows "react_remove b e u m =
    (case removeFrom b u r of None \<Rightarrow> m | Some rs \<Rightarrow> m\<lparr>m_reactions := Some (ys @ rs @ zs)\<rparr>)"
  using assms findIndex_app [of ys "\<lambda>r. r_emoji r = e" r zs]
  by (simp add: react_remove_def removeFrom_def Let_def)

lemma emoji_cases:
  obtains (absent) "\<forall>r \<in> set rs. r_emoji r \<noteq> e"
    | (present) ys r zs where "rs = ys @ r # zs" "r_emoji r = e" "\<forall>y \<in> set ys. r_emoji y \<noteq> e"
proof (cases "findIndex (\<lambda>r. r_emoji r = e) rs")
  case None
  then show ?thesis using absent by (simp add: findIndex_None)
next
  case (Some i)
  then obtain ys r zs where "rs = ys @ r # zs" "r_emoji r = e" "\<forall>y \<in> set ys. r_emoji y \<noteq> e"
    by (rule findIndex_split)
  then show ?thesis by (rule present)
qed

lemma addTo_emoji: "addTo b u r = Some r' \<Longrightarrow> r_emoji r' = r_emoji r"
  by (auto simp: addTo_def split: if_splits)

section \<open>Idempotence of addition\<close>

lemma addTo_idem: "addTo b u r = Some r' \<Longrightarrow> addTo b u r' = None"
  by (auto simp: addTo_def users_of_def split: if_splits)

lemma react_add_idem: "react_add b e u (react_add b e u m) = react_add b e u m"
proof (cases "reactions_of m" e rule: emoji_cases)
  case absent
  let ?new = "\<lparr>r_emoji = e, r_count = 1, r_me = b, r_users = Some [u]\<rparr>"
  have "reactions_of (react_add b e u m) = reactions_of m @ ?new # []"
    using absent by (rule react_add_absent)
  then have "react_add b e u (react_add b e u m) =
    (case addTo b u ?new of None \<Rightarrow> react_add b e u m
     | Some r' \<Rightarrow> (react_add b e u m)\<lparr>m_reactions := Some (reactions_of m @ r' # [])\<rparr>)"
    by (rule react_add_present) (use absent in auto)
  then show ?thesis by (simp add: addTo_def users_of_def)
next
  case (present ys r zs)
  show ?thesis
  proof (cases "addTo b u r")
    case None
    then show ?thesis using present by (simp add: react_add_present)
  next
    case (Some r')
    then have m': "react_add b e u m = m\<lparr>m_reactions := Some (ys @ r' # zs)\<rparr>"
      using present by (simp add: react_add_present)
    have "react_add b e u (m\<lparr>m_reactions := Some (ys @ r' # zs)\<rparr>) =
      m\<lparr>m_reactions := Some (ys @ r' # zs)\<rparr>"
      using present addTo_emoji [OF Some] addTo_idem [OF Some]
      by (subst react_add_present [of _ ys r' zs]) auto
    then show ?thesis using m' by simp
  qed
qed

interpretation add_event: redeliverable "applyReactionAdd me" for me
  by unfold_locales
    (auto simp: applyReactionAdd_def withItems_twice react_add_idem intro!: withItems_cong)

section \<open>Refinement of sets of reactors\<close>

text \<open>
  A reaction list is complete for the user \<open>my\<close> when every entry names all its reactors: no
  emoji and no reactor twice, the count is their number, no entry is empty, and the \<open>me\<close> flag
  says whether \<open>my\<close> is among them. \<open>reactors\<close> is the abstraction function.
\<close>

definition full_entry :: "string \<Rightarrow> reaction \<Rightarrow> bool" where
  "full_entry my r \<longleftrightarrow> distinct (users_of r) \<and> r_count r = int (length (users_of r))
     \<and> users_of r \<noteq> [] \<and> (r_me r \<longleftrightarrow> my \<in> set (users_of r))"

definition complete :: "string \<Rightarrow> reaction list \<Rightarrow> bool" where
  "complete my rs \<longleftrightarrow> distinct (map r_emoji rs) \<and> list_all (full_entry my) rs"

definition reactors :: "reaction list \<Rightarrow> string \<Rightarrow> string set" where
  "reactors rs e = \<Union> (set (map (\<lambda>r. set (users_of r)) (filter (\<lambda>r. r_emoji r = e) rs)))"

lemma reactors_Nil [simp]: "reactors [] e = {}"
  by (simp add: reactors_def)

lemma reactors_append [simp]: "reactors (xs @ ys) e = reactors xs e \<union> reactors ys e"
  by (simp add: reactors_def)

lemma reactors_Cons [simp]:
  "reactors (r # rs) e = (if r_emoji r = e then set (users_of r) else {}) \<union> reactors rs e"
  by (simp add: reactors_def)

lemma reactors_none: "e \<notin> r_emoji ` set rs \<Longrightarrow> reactors rs e = {}"
  by (auto simp: reactors_def)

lemma complete_Nil [simp]: "complete my []"
  by (simp add: complete_def)

lemma complete_split:
  assumes "complete my (ys @ r # zs)"
  shows "full_entry my r" "r_emoji r \<notin> r_emoji ` set ys" "r_emoji r \<notin> r_emoji ` set zs"
    "reactors (ys @ r # zs) (r_emoji r) = set (users_of r)"
  using assms by (auto simp: complete_def reactors_none)

lemma complete_swap:
  "complete my (ys @ r # zs) \<Longrightarrow> r_emoji r' = r_emoji r \<Longrightarrow> full_entry my r' \<Longrightarrow> complete my (ys @ r' # zs)"
  by (auto simp: complete_def)

lemma complete_drop: "complete my (ys @ r # zs) \<Longrightarrow> complete my (ys @ zs)"
  by (auto simp: complete_def)

lemma addTo_None_full: "full_entry my r \<Longrightarrow> addTo (u = my) u r = None \<longleftrightarrow> u \<in> set (users_of r)"
  by (auto simp: addTo_def full_entry_def)

lemma addTo_full:
  "full_entry my r \<Longrightarrow> addTo (u = my) u r = Some r' \<Longrightarrow>
   full_entry my r' \<and> users_of r' = users_of r @ [u] \<and> u \<notin> set (users_of r)"
  by (auto simp: addTo_def full_entry_def users_of_def split: if_splits)

lemma react_add_refines:
  assumes c: "complete my (reactions_of m)"
  shows "complete my (reactions_of (react_add (u = my) e u m)) \<and>
    reactors (reactions_of (react_add (u = my) e u m)) =
      (reactors (reactions_of m))(e := insert u (reactors (reactions_of m) e))"
proof (cases "reactions_of m" e rule: emoji_cases)
  case absent
  then have "reactors (reactions_of m) e = {}" by (intro reactors_none) auto
  then show ?thesis using c absent
    by (auto simp: react_add_absent complete_def full_entry_def users_of_def fun_eq_iff)
next
  case (present ys r zs)
  note split = complete_split [OF c [unfolded present(1)]]
  show ?thesis
  proof (cases "addTo (u = my) u r")
    case None
    then have "u \<in> set (users_of r)" using split(1) by (simp add: addTo_None_full)
    then have "insert u (reactors (reactions_of m) e) = reactors (reactions_of m) e"
      using split(4) present(1,2) by auto
    moreover have "react_add (u = my) e u m = m" using present None by (simp add: react_add_present)
    ultimately show ?thesis using c by simp
  next
    case (Some r')
    note f = addTo_full [OF split(1) Some] and e = addTo_emoji [OF Some]
    have "reactions_of (react_add (u = my) e u m) = ys @ r' # zs"
      using present Some by (simp add: react_add_present)
    moreover have "complete my (ys @ r' # zs)"
      using c present(1) e f by (auto intro: complete_swap)
    ultimately show ?thesis using f e present(1,2) by (auto simp: fun_eq_iff)
  qed
qed

lemma removeFrom_None_full:
  "full_entry my r \<Longrightarrow> removeFrom (u = my) u r = None \<longleftrightarrow> u \<notin> set (users_of r)"
  by (auto simp: removeFrom_def full_entry_def)

lemma length_remove1_all: "distinct xs \<Longrightarrow> u \<in> set xs \<Longrightarrow> length (filter (\<lambda>v. v \<noteq> u) xs) = length xs - 1"
proof (induction xs)
  case Nil
  then show ?case by simp
next
  case (Cons x xs)
  show ?case
  proof (cases "x = u")
    case True
    then have "filter (\<lambda>v. v \<noteq> u) xs = xs" using Cons.prems by (auto simp: filter_id_conv)
    then show ?thesis using True by simp
  next
    case False
    then show ?thesis using Cons by (cases xs) auto
  qed
qed

lemma removeFrom_full:
  assumes f: "full_entry my r" and "removeFrom (u = my) u r = Some rs"
  shows "(rs = [] \<and> set (users_of r) = {u}) \<or>
    (\<exists>r'. rs = [r'] \<and> r_emoji r' = r_emoji r \<and> full_entry my r' \<and> set (users_of r') = set (users_of r) - {u})"
proof -
  have u: "u \<in> set (users_of r)" using removeFrom_None_full [OF f, of u] assms(2) by auto
  then have len: "length (filter (\<lambda>v. v \<noteq> u) (users_of r)) = length (users_of r) - 1"
    using f length_remove1_all by (auto simp: full_entry_def)
  show ?thesis
  proof (cases "r_count r - 1 \<le> 0")
    case True
    then have "length (users_of r) \<le> 1" using f by (simp add: full_entry_def)
    then have "set (users_of r) = {u}" using u
      by (cases "users_of r" rule: remdups_adj.cases) auto
    then show ?thesis using True assms(2) by (auto simp: removeFrom_def split: if_splits)
  next
    case False
    then have "filter (\<lambda>v. v \<noteq> u) (users_of r) \<noteq> []" using len f
      by (auto simp: full_entry_def simp flip: length_greater_0_conv)
    then show ?thesis using False assms(2) f u len
      by (auto simp: removeFrom_def full_entry_def users_of_def split: if_splits)
  qed
qed

lemma react_remove_refines:
  assumes c: "complete my (reactions_of m)"
  shows "complete my (reactions_of (react_remove (u = my) e u m)) \<and>
    reactors (reactions_of (react_remove (u = my) e u m)) =
      (reactors (reactions_of m))(e := reactors (reactions_of m) e - {u})"
proof (cases "reactions_of m" e rule: emoji_cases)
  case absent
  then have "reactors (reactions_of m) e = {}" by (intro reactors_none) auto
  then show ?thesis using c absent by (auto simp: react_remove_absent fun_eq_iff)
next
  case (present ys r zs)
  note split = complete_split [OF c [unfolded present(1)]]
  show ?thesis
  proof (cases "removeFrom (u = my) u r")
    case None
    then have "u \<notin> set (users_of r)" using split(1) by (simp add: removeFrom_None_full)
    then have "reactors (reactions_of m) e - {u} = reactors (reactions_of m) e"
      using split(4) present(1,2) by auto
    moreover have "react_remove (u = my) e u m = m" using present None by (simp add: react_remove_present)
    ultimately show ?thesis using c by simp
  next
    case (Some rs)
    have m': "reactions_of (react_remove (u = my) e u m) = ys @ rs @ zs"
      using present Some by (simp add: react_remove_present)
    consider "rs = []" "set (users_of r) = {u}"
      | r' where "rs = [r']" "r_emoji r' = r_emoji r" "full_entry my r'"
          "set (users_of r') = set (users_of r) - {u}"
      using removeFrom_full [OF split(1) Some] by blast
    then show ?thesis
    proof cases
      case 1
      then show ?thesis using m' c present(1,2) split(2,3)
        by (auto simp: fun_eq_iff reactors_none dest: complete_drop)
    next
      case 2
      moreover have "complete my (ys @ r' # zs)" using c present(1) 2 by (auto intro: complete_swap)
      ultimately show ?thesis using m' present(1,2) split(2,3)
        by (auto simp: fun_eq_iff reactors_none)
    qed
  qed
qed

lemma complete_entry:
  assumes "complete my rs" and "r \<in> set rs"
  shows "full_entry my r" and "reactors rs (r_emoji r) = set (users_of r)"
proof -
  obtain ys zs where rs: "rs = ys @ r # zs" using assms(2) by (meson split_list)
  show "full_entry my r" "reactors rs (r_emoji r) = set (users_of r)"
    using complete_split [OF assms(1) [unfolded rs]] rs by simp_all
qed

lemma full_count:
  assumes "complete my rs" and "r \<in> set rs"
  shows "r_count r = int (card (reactors rs (r_emoji r)))"
  using complete_entry [OF assms] by (simp add: full_entry_def distinct_card)

end
