(* ===== verification/Chat_Store.thy ===== *)
theory Chat_Store imports Reactions
begin

text \<open>
  The remaining synchronous operations of \<open>chatStore.js\<close>: connection flag and reset, typing
  indicators, presence, and the reducers that add channels, guilds and members. The lemmas show
  that each of them tolerates redelivery, what it changes and what it leaves alone, and that a
  typing entry disappears when it expires and not before.
\<close>

section \<open>Definitions\<close>

definition TYPING_TTL_MS :: int where
  "TYPING_TTL_MS = 10000"

definition setWsConnected :: "bool \<Rightarrow> chat \<Rightarrow> chat" where
  "setWsConnected v s = s\<lparr>wsConnected := v\<rparr>"

definition reset :: "chat \<Rightarrow> chat" where
  "reset s = s\<lparr>wsConnected := False, guilds := [], guildsLoaded := False,
     selectedGuildId := None, selectedChannelId := None, lastChannelByGuild := [],
     channelsByGuild := [], membersByGuild := [], messagesByChannel := [], typingByChannel := []\<rparr>"

definition applyTypingStart :: "user option \<Rightarrow> int \<Rightarrow> string \<Rightarrow> string \<Rightarrow> string \<Rightarrow> chat \<Rightarrow> chat" where
  "applyTypingStart me now channel_id user_id username s =
     (if is_me me user_id then s
      else s\<lparr>typingByChannel :=
        oput channel_id
          (oput user_id \<lparr>ty_username = username, ty_until = now + TYPING_TTL_MS\<rparr>
            (or_empty (oget (typingByChannel s) channel_id)))
          (typingByChannel s)\<rparr>)"

definition pruneTyping :: "int \<Rightarrow> string \<Rightarrow> chat \<Rightarrow> chat" where
  "pruneTyping now channelId s =
     (case oget (typingByChannel s) channelId of
        None \<Rightarrow> s
      | Some t \<Rightarrow>
          if list_all (\<lambda>(uid, v). ty_until v > now) t then s
          else s\<lparr>typingByChannel :=
                  oput channelId (filter (\<lambda>(uid, v). ty_until v > now) t) (typingByChannel s)\<rparr>)"

definition applyPresenceUpdate :: "string \<Rightarrow> string \<Rightarrow> string \<Rightarrow> chat \<Rightarrow> chat" where
  "applyPresenceUpdate user_id guild_id status s =
     (case oget (membersByGuild s) guild_id of
        None \<Rightarrow> s
      | Some members \<Rightarrow>
          if \<not> list_ex (\<lambda>m. mb_user_id m = user_id) members then s
          else s\<lparr>membersByGuild :=
                  oput guild_id
                    (map (\<lambda>m. if mb_user_id m = user_id then m\<lparr>mb_status := status\<rparr> else m) members)
                    (membersByGuild s)\<rparr>)"

definition applyChannelCreate :: "channel \<Rightarrow> chat \<Rightarrow> chat" where
  "applyChannelCreate ch s =
     (case oget (channelsByGuild s) (ch_guild_id ch) of
        None \<Rightarrow> s
      | Some chans \<Rightarrow>
          if list_ex (\<lambda>c. ch_id c = ch_id ch) chans then s
          else s\<lparr>channelsByGuild := oput (ch_guild_id ch) (chans @ [ch]) (channelsByGuild s)\<rparr>)"

definition applyGuildCreate :: "guild \<Rightarrow> chat \<Rightarrow> chat" where
  "applyGuildCreate g s =
     (if list_ex (\<lambda>x. g_id x = g_id g) (guilds s) then s
      else s\<lparr>guilds := guilds s @ [g], guildsLoaded := True\<rparr>)"

text \<open>\<open>applyMemberAdd\<close> when the payload names its guild; the other branch refetches.\<close>

definition addMember :: "string \<Rightarrow> gmember \<Rightarrow> chat \<Rightarrow> chat" where
  "addMember guildId m s =
     (case oget (membersByGuild s) guildId of
        None \<Rightarrow> s
      | Some members \<Rightarrow>
          if list_ex (\<lambda>x. mb_user_id x = mb_user_id m) members then s
          else s\<lparr>membersByGuild := oput guildId (members @ [m]) (membersByGuild s)\<rparr>)"

section \<open>Reset\<close>

lemma reset_initial: "reset s = initial_chat"
  by (cases s) (simp add: reset_def initial_chat_def)

section \<open>Messages are out of reach of these operations\<close>

lemma store_messages [simp, frame_simps]:
  "messagesByChannel (setWsConnected v s) = messagesByChannel s"
  "messagesByChannel (applyTypingStart me now ch u n s) = messagesByChannel s"
  "messagesByChannel (pruneTyping now ch s) = messagesByChannel s"
  "messagesByChannel (applyPresenceUpdate u g st s) = messagesByChannel s"
  "messagesByChannel (applyChannelCreate c s) = messagesByChannel s"
  "messagesByChannel (applyGuildCreate gd s) = messagesByChannel s"
  "messagesByChannel (addMember g mb s) = messagesByChannel s"
  by (simp_all add: setWsConnected_def applyTypingStart_def pruneTyping_def
      applyPresenceUpdate_def applyChannelCreate_def applyGuildCreate_def addMember_def
      split: option.split)

lemma messages_typing [simp, frame_simps]:
  "typingByChannel (applyReactionAdd me ev s) = typingByChannel s"
  "typingByChannel (applyReactionRemove me ev s) = typingByChannel s"
  "typingByChannel (applyMessageUpdate m s) = typingByChannel s"
  "typingByChannel (applyMessageDelete i ch s) = typingByChannel s"
  by (simp_all add: applyReactionAdd_def applyReactionRemove_def conv_op_defs)

section \<open>Redelivery\<close>

definition set_status :: "string \<Rightarrow> string \<Rightarrow> gmember list \<Rightarrow> gmember list" where
  "set_status u st ms = map (\<lambda>m. if mb_user_id m = u then m\<lparr>mb_status := st\<rparr> else m) ms"

lemma set_status_idem: "set_status u st (set_status u st ms) = set_status u st ms"
  by (simp add: set_status_def)

lemma set_status_users: "map mb_user_id (set_status u st ms) = map mb_user_id ms"
  by (simp add: set_status_def)

lemma has_member [simp]: "list_ex (\<lambda>m. mb_user_id m = u) ms \<longleftrightarrow> u \<in> mb_user_id ` set ms"
  by (auto simp: list_ex_iff)

lemma applyPresenceUpdate_alt:
  "applyPresenceUpdate u g st s =
     (case oget (membersByGuild s) g of
        None \<Rightarrow> s
      | Some members \<Rightarrow> if u \<notin> mb_user_id ` set members then s
          else s\<lparr>membersByGuild := oput g (set_status u st members) (membersByGuild s)\<rparr>)"
  by (simp add: applyPresenceUpdate_def set_status_def split: option.split)

interpretation presence_event: redeliverable "applyPresenceUpdate u g" for u g
proof unfold_locales
  fix st s
  have users: "mb_user_id ` set (set_status u st ms) = mb_user_id ` set ms" for ms
    using set_status_users [of u st ms] by (metis list.set_map)
  show "applyPresenceUpdate u g st (applyPresenceUpdate u g st s) = applyPresenceUpdate u g st s"
    by (cases "oget (membersByGuild s) g")
      (simp_all add: applyPresenceUpdate_alt set_status_idem users)
qed

interpretation channel_event: redeliverable applyChannelCreate
  by unfold_locales (auto simp: applyChannelCreate_def split: option.split)

interpretation guild_event: redeliverable applyGuildCreate
  by unfold_locales (simp add: applyGuildCreate_def)

interpretation member_event: redeliverable "addMember g" for g
  by unfold_locales (auto simp: addMember_def split: option.split)

interpretation prune_event: redeliverable "pruneTyping now" for now
  by unfold_locales (auto simp: pruneTyping_def list_all_iff split: option.split)

section \<open>Typing indicators\<close>

text \<open>Who is shown as typing in a channel at an instant (\<open>TypingIndicator.jsx\<close>).\<close>

definition activeTyping :: "int \<Rightarrow> string \<Rightarrow> chat \<Rightarrow> typing_entry list" where
  "activeTyping now channelId s =
     (case oget (typingByChannel s) channelId of
        None \<Rightarrow> []
      | Some typing \<Rightarrow> filter (\<lambda>v. ty_until v > now) (ovalues typing))"

lemma prune_active: "activeTyping now ch (pruneTyping now ch s) = activeTyping now ch s"
proof (cases "oget (typingByChannel s) ch")
  case None
  then show ?thesis by (simp add: pruneTyping_def)
next
  case (Some t)
  have "filter (\<lambda>v. ty_until v > now) (map snd (filter (\<lambda>(uid, v). ty_until v > now) t)) =
    filter (\<lambda>v. ty_until v > now) (map snd t)"
    by (induction t) auto
  then show ?thesis using Some by (simp add: pruneTyping_def activeTyping_def ovalues_def)
qed

lemma prune_only_active:
  assumes "oget (typingByChannel (pruneTyping now ch s)) ch = Some t" and "(uid, v) \<in> set t"
  shows "now < ty_until v"
  using assms by (auto simp: pruneTyping_def list_all_iff split: option.splits if_splits)

text \<open>Well-formed typing state: no entry for the user themself, one entry per typist.\<close>

definition wf_entries :: "user option \<Rightarrow> typing_entry obj \<Rightarrow> bool" where
  "wf_entries me t \<longleftrightarrow> distinct (map fst t) \<and> (\<forall>u \<in> fst ` set t. \<not> is_me me u)"

definition wf_typing :: "user option \<Rightarrow> chat \<Rightarrow> bool" where
  "wf_typing me s \<longleftrightarrow> (\<forall>ch t. oget (typingByChannel s) ch = Some t \<longrightarrow> wf_entries me t)"

lemma wf_entries_ops:
  "wf_entries me []"
  "wf_entries me t \<Longrightarrow> \<not> is_me me u \<Longrightarrow> wf_entries me (oput u v t)"
  "wf_entries me t \<Longrightarrow> wf_entries me (odel u t)"
  "wf_entries me t \<Longrightarrow> wf_entries me (filter p t)"
  unfolding wf_entries_def keys_oput keys_odel
  by (auto simp: distinct_map_filter simp del: split_paired_All split_paired_Ex)

lemma wf_typing_start: "wf_typing me s \<Longrightarrow> wf_typing me (applyTypingStart me now ch u n s)"
  by (cases "oget (typingByChannel s) ch")
    (auto simp: wf_typing_def applyTypingStart_def intro: wf_entries_ops)

lemma wf_typing_prune: "wf_typing me s \<Longrightarrow> wf_typing me (pruneTyping now ch s)"
  unfolding wf_typing_def pruneTyping_def
  by (auto intro: wf_entries_ops split: option.splits)

lemma wf_typing_clear:
  "wf_typing me s \<Longrightarrow> wf_typing me (s\<lparr>typingByChannel := clear_typing ch u (typingByChannel s)\<rparr>)"
  unfolding wf_typing_def clear_typing_def
  by (auto intro: wf_entries_ops split: option.splits)

lemma wf_typing_create: "wf_typing me s \<Longrightarrow> wf_typing me (applyMessageCreate me' m s)"
proof (cases "oget (messagesByChannel s) (m_channel_id m)")
  case None
  assume "wf_typing me s"
  then show ?thesis using None by (simp add: applyMessageCreate_def)
next
  case (Some c)
  assume "wf_typing me s"
  then show ?thesis
    using wf_typing_clear [of me s "m_channel_id m" "a_id (m_author m)"]
    by (simp add: applyMessageCreate_Some [OF Some] wf_typing_def)
qed

end
