(* ===== verification/Toast_Store.thy ===== *)
theory Toast_Store imports Prelude
begin

text \<open>
  \<open>toastStore.js\<close>: the notifications on screen, the module-level \<open>nextId\<close>, and the timers
  \<open>setTimeout\<close> has scheduled (one id per pending timer). The lemmas show that ids are unique and
  that every toast on screen has a timer, so that none outlives its timers.
\<close>

record toast_entry =
  t_id :: nat
  t_message :: string
  t_type :: string

record toast_store =
  nextId :: nat
  toasts :: "toast_entry list"
  timers :: "nat list"

definition initial_toasts :: toast_store where
  "initial_toasts = \<lparr>nextId = 0, toasts = [], timers = []\<rparr>"

definition push :: "string \<Rightarrow> string \<Rightarrow> toast_store \<Rightarrow> toast_store" where
  "push message kind ts =
     (let i = nextId ts + 1
      in ts\<lparr>nextId := i,
            toasts := toasts ts @ [\<lparr>t_id = i, t_message = message, t_type = kind\<rparr>],
            timers := timers ts @ [i]\<rparr>)"

text \<open>The callback of the timer of toast \<open>i\<close>, and the click that dismisses it.\<close>

definition expire :: "nat \<Rightarrow> toast_store \<Rightarrow> toast_store" where
  "expire i ts = ts\<lparr>toasts := filter (\<lambda>t. t_id t \<noteq> i) (toasts ts), timers := remove1 i (timers ts)\<rparr>"

definition dismiss :: "nat \<Rightarrow> toast_store \<Rightarrow> toast_store" where
  "dismiss i ts = ts\<lparr>toasts := filter (\<lambda>t. t_id t \<noteq> i) (toasts ts)\<rparr>"

text \<open>\<open>toast(message)\<close> with the default type.\<close>

definition toast :: "string \<Rightarrow> toast_store \<Rightarrow> toast_store" where
  "toast message ts = push message ''error'' ts"

datatype toast_event = Push string string | Expire nat | Dismiss nat

fun toast_step :: "toast_event \<Rightarrow> toast_store \<Rightarrow> toast_store" where
  "toast_step (Push m k) ts = push m k ts"
| "toast_step (Expire i) ts = (if i \<in> set (timers ts) then expire i ts else ts)"
| "toast_step (Dismiss i) ts = dismiss i ts"

definition wf_toasts :: "toast_store \<Rightarrow> bool" where
  "wf_toasts ts \<longleftrightarrow> distinct (map t_id (toasts ts)) \<and> distinct (timers ts)
     \<and> set (map t_id (toasts ts)) \<subseteq> set (timers ts) \<and> (\<forall>i \<in> set (timers ts). i \<le> nextId ts)"

lemma wf_initial_toasts: "wf_toasts initial_toasts"
  by (simp add: wf_toasts_def initial_toasts_def)

lemma wf_push: "wf_toasts ts \<Longrightarrow> wf_toasts (push m k ts)"
  by (fastforce simp: wf_toasts_def push_def Let_def)

lemma wf_expire: "wf_toasts ts \<Longrightarrow> wf_toasts (expire i ts)"
  by (auto simp: wf_toasts_def expire_def distinct_map_filter set_remove1_eq)

lemma wf_dismiss: "wf_toasts ts \<Longrightarrow> wf_toasts (dismiss i ts)"
  by (auto simp: wf_toasts_def dismiss_def distinct_map_filter)

lemma wf_toast_step: "wf_toasts ts \<Longrightarrow> wf_toasts (toast_step e ts)"
  by (cases e) (auto intro: wf_push wf_expire wf_dismiss)

interpretation toast_runs: invariant_steps toast_step wf_toasts "\<lambda>_. True"
  by unfold_locales (rule wf_toast_step)

text \<open>Every toast goes away: firing the pending timers, in any order, empties the list.\<close>

lemma expire_all:
  "wf_toasts ts \<Longrightarrow> toasts (fold expire (timers ts) ts) = []"
proof -
  have f: "toasts (fold expire is ts) = filter (\<lambda>t. t_id t \<notin> set is) (toasts ts)" for "is" ts
    by (induction "is" arbitrary: ts) (auto simp: expire_def intro: filter_cong)
  assume "wf_toasts ts"
  then show ?thesis by (auto simp: f wf_toasts_def filter_empty_conv)
qed

end
