(* ===== verification/Effects_Store.thy ===== *)
theory Effects_Store imports Prelude
begin

text \<open>
  \<open>effectsStore.js\<close>: the one-shot effect token watched by the overlay and the persisted storm
  switch, with \<open>localStorage\<close> as a store that may be unavailable (both accesses are wrapped in
  \<open>try\<close>). \<open>trigger\<close> reads the chat store and posts to the API: it is in theory
  \<open>Chat_Async\<close>, over \<open>playLocal\<close>.
\<close>

definition EFFECT_TYPES :: "string list" where
  "EFFECT_TYPES = [''lightning'', ''confetti'', ''hearts'', ''snow'', ''rain'']"

definition STORM_KEY :: string where
  "STORM_KEY = ''discurd_storm_mode''"

text \<open>\<open>localStorage\<close>: \<open>None\<close> when every access throws.\<close>

type_synonym storage = "string obj option"

definition loadStorm :: "storage \<Rightarrow> bool" where
  "loadStorm st = (case st of None \<Rightarrow> False | Some kv \<Rightarrow> oget kv STORM_KEY = Some ''1'')"

record effects =
  lastEffect :: "(string \<times> nat) option"
  stormMode :: bool
  nonce :: nat

definition initial_effects :: "storage \<Rightarrow> effects" where
  "initial_effects st = \<lparr>lastEffect = None, stormMode = loadStorm st, nonce = 0\<rparr>"

definition playLocal :: "string \<Rightarrow> effects \<Rightarrow> effects" where
  "playLocal kind fx =
     (if kind \<notin> set EFFECT_TYPES then fx
      else fx\<lparr>nonce := nonce fx + 1, lastEffect := Some (kind, nonce fx + 1)\<rparr>)"

definition toggleStorm :: "effects \<times> storage \<Rightarrow> effects \<times> storage" where
  "toggleStorm p =
     (case p of (fx, st) \<Rightarrow>
        (let next = \<not> stormMode fx
         in (fx\<lparr>stormMode := next\<rparr>,
             map_option (oput STORM_KEY (if next then ''1'' else ''0'')) st)))"

text \<open>Each valid effect carries a token of its own, so the overlay sees every play.\<close>

lemma playLocal_fresh:
  "kind \<in> set EFFECT_TYPES \<Longrightarrow>
   lastEffect (playLocal kind fx) = Some (kind, nonce fx + 1) \<and> nonce (playLocal kind fx) = nonce fx + 1"
  by (simp add: playLocal_def)

lemma playLocal_invalid: "kind \<notin> set EFFECT_TYPES \<Longrightarrow> playLocal kind fx = fx"
  by (simp add: playLocal_def)

definition fx_inv :: "effects \<Rightarrow> bool" where
  "fx_inv fx \<longleftrightarrow> (case lastEffect fx of None \<Rightarrow> nonce fx = 0
     | Some (kind, n) \<Rightarrow> kind \<in> set EFFECT_TYPES \<and> n = nonce fx \<and> 0 < n)"

lemma fx_inv_initial: "fx_inv (initial_effects st)"
  by (simp add: fx_inv_def initial_effects_def)

lemma fx_inv_playLocal: "fx_inv fx \<Longrightarrow> fx_inv (playLocal kind fx)"
  by (simp add: fx_inv_def playLocal_def)

text \<open>The switch survives a reload when storage works; without storage it starts off again.\<close>

lemma toggleStorm_persists:
  "toggleStorm (fx, Some kv) = (fx', st') \<Longrightarrow> loadStorm st' = stormMode fx' \<and> stormMode fx' = (\<not> stormMode fx)"
  by (auto simp: toggleStorm_def loadStorm_def Let_def)

end
