(* ===== verification/Chat_Async.thy ===== *)
theory Chat_Async imports Chat_Store Toast_Store Effects_Store
begin

text \<open>
  The asynchronous operations of \<open>chatStore.js\<close> (and \<open>trigger\<close> of \<open>effectsStore.js\<close>) as state
  transformers of the whole client. An \<open>async\<close> function runs to its first \<open>await\<close> at once; what
  it still has to do is left in \<open>tasks\<close> as a value of the type \<open>task\<close>, whose arguments are the
  variables the rest of the function reads, and the request is appended to \<open>sent\<close>. \<open>resume\<close>
  runs the rest of a task with the API's reply, up to its next \<open>await\<close>. The API itself (theory
  \<open>Api_Client\<close>) and the server are the environment: a reply is any value of the type \<open>reply\<close>.
  Errors that an operation hands back to the component that called it are kept in \<open>rejected\<close>.
\<close>

section \<open>Requests, replies and suspended operations\<close>

datatype body =
    NoBody
  | MessageBody string "attachment list option"
  | FileBody upload_file
  | NameBody string
  | ChannelBody string "string option" "string option"
  | EffectBody string

record request =
  rq_method :: string
  rq_path :: string
  rq_body :: body

datatype reply =
    Err string
  | GuildsReply "guild list"
  | ChannelsReply "channel list"
  | MembersReply "gmember list"
  | ChannelsMembersReply "channel list" "gmember list"
  | MessagesReply "msg list"
  | MessageReply msg
  | AttachmentReply attachment
  | GuildReply guild
  | ChannelReply channel
  | Done

record resync_patch =
  p_guilds :: "guild list"
  p_channels :: "channel list obj"
  p_members :: "gmember list obj"
  p_messages :: "conv obj"
  p_selectedGuildId :: "string option option"
  p_selectedChannelId :: "string option option"

datatype task =
    LoadGuilds
  | SelectGuild string
  | LoadMembers string bool
  | LoadMessages string
  | LoadOlder string string
  | Upload string string string "upload_file list" "attachment list"
  | PostMessage string string
  | PostGif string string
  | ToggleReaction bool reaction_event
  | EditMessage
  | DeleteMessage string string
  | CreateGuild
  | JoinGuild
  | CreateChannel string
  | CreateInvite
  | BroadcastEffect
  | Resync
  | ResyncGuild string "string option" "guild list"
  | ResyncMessages resync_patch string

record client =
  authUser :: "user option"
  chat :: chat
  toastState :: toast_store
  fx :: effects
  tempCounter :: nat
  tasks :: "task list"
  sent :: "request list"
  rejected :: "string list"

text \<open>\<open>set\<close> of the chat store, \<open>toast(e.message)\<close>, a rejection seen by the caller, and a request.\<close>

definition setc :: "(chat \<Rightarrow> chat) \<Rightarrow> client \<Rightarrow> client" where
  "setc f a = a\<lparr>chat := f (chat a)\<rparr>"

definition toastc :: "string \<Rightarrow> client \<Rightarrow> client" where
  "toastc e a = a\<lparr>toastState := toast e (toastState a)\<rparr>"

definition rejectc :: "string \<Rightarrow> client \<Rightarrow> client" where
  "rejectc e a = a\<lparr>rejected := rejected a @ [e]\<rparr>"

definition call :: "string \<Rightarrow> string \<Rightarrow> body \<Rightarrow> task \<Rightarrow> client \<Rightarrow> client" where
  "call verb path b t a =
     a\<lparr>tasks := tasks a @ [t],
       sent := sent a @ [\<lparr>rq_method = verb, rq_path = path, rq_body = b\<rparr>]\<rparr>"

definition str_or :: "string \<Rightarrow> string option \<Rightarrow> string" where
  "str_or d x = (case x of None \<Rightarrow> d | Some s \<Rightarrow> if s = [] then d else s)"

text \<open>\<open>encodeURIComponent\<close> on UTF-8 bytes.\<close>

definition unreserved :: "char \<Rightarrow> bool" where
  "unreserved c \<longleftrightarrow> c \<in> set ''ABCDEFGHIJKLMNOPQRSTUVWXYZabcdefghijklmnopqrstuvwxyz0123456789-_.!~*()''
     \<or> c = CHR 0x27"

definition hexDigit :: "nat \<Rightarrow> char" where
  "hexDigit n = ''0123456789ABCDEF'' ! n"

definition encodeURIComponent :: "string \<Rightarrow> string" where
  "encodeURIComponent s = concat (map (\<lambda>c. if unreserved c then [c]
     else [CHR ''%'', hexDigit (of_char c div 16), hexDigit (of_char c mod 16)]) s)"

section \<open>Loading and selection\<close>

definition guildPath :: "string \<Rightarrow> string \<Rightarrow> string" where
  "guildPath g rest = ''/guilds/'' @ g @ rest"

definition channelPath :: "string \<Rightarrow> string \<Rightarrow> string" where
  "channelPath ch rest = ''/channels/'' @ ch @ rest"

definition pagePath :: "string \<Rightarrow> string" where
  "pagePath ch = channelPath ch (''/messages?limit='' @ showNat PAGE_SIZE)"

definition loadMessages :: "string \<Rightarrow> client \<Rightarrow> client" where
  "loadMessages channelId a =
     (if (case oget (messagesByChannel (chat a)) channelId of
            None \<Rightarrow> False | Some existing \<Rightarrow> loaded existing \<or> loadingInitial existing)
      then a
      else call ''GET'' (pagePath channelId) NoBody (LoadMessages channelId)
             (setc (\<lambda>s. s\<lparr>messagesByChannel := oput channelId loadingConv (messagesByChannel s)\<rparr>) a))"

definition loadMessages_ok :: "string \<Rightarrow> msg list \<Rightarrow> client \<Rightarrow> client" where
  "loadMessages_ok channelId msgs a =
     setc (\<lambda>s. s\<lparr>messagesByChannel :=
       oput channelId (mergeInitial msgs (oget (messagesByChannel s) channelId)) (messagesByChannel s)\<rparr>) a"

definition loadMessages_err :: "string \<Rightarrow> string \<Rightarrow> client \<Rightarrow> client" where
  "loadMessages_err channelId e a =
     toastc e (setc (\<lambda>s. s\<lparr>messagesByChannel := odel channelId (messagesByChannel s)\<rparr>) a)"

definition selectChannel :: "string option \<Rightarrow> client \<Rightarrow> client" where
  "selectChannel channelId a =
     (let a' = setc (\<lambda>s. s\<lparr>selectedChannelId := channelId,
           lastChannelByGuild :=
             (case (channelId, selectedGuildId s) of
                (Some c, Some g) \<Rightarrow> if c \<noteq> [] \<and> g \<noteq> [] then oput g c (lastChannelByGuild s)
                                   else lastChannelByGuild s
              | _ \<Rightarrow> lastChannelByGuild s)\<rparr>) a
      in case channelId of
           None \<Rightarrow> a'
         | Some c \<Rightarrow> if c \<noteq> [] then loadMessages c a' else a')"

definition loadMembers :: "string \<Rightarrow> bool \<Rightarrow> client \<Rightarrow> client" where
  "loadMembers guildId toasts_error a =
     call ''GET'' (guildPath guildId ''/members'') NoBody (LoadMembers guildId toasts_error) a"

definition loadMembers_ok :: "string \<Rightarrow> gmember list \<Rightarrow> client \<Rightarrow> client" where
  "loadMembers_ok guildId members a =
     setc (\<lambda>s. s\<lparr>membersByGuild := oput guildId members (membersByGuild s)\<rparr>) a"

text \<open>The channel \<open>selectGuild\<close> opens: the remembered one if it is a text channel of the guild.\<close>

definition is_text :: "channel \<Rightarrow> bool" where
  "is_text c \<longleftrightarrow> ch_type c \<noteq> ''voice''"

definition selectTarget :: "string option \<Rightarrow> channel list \<Rightarrow> string option" where
  "selectTarget remembered channels =
     (let firstText = List.find is_text channels
      in if list_ex (\<lambda>c. Some (ch_id c) = remembered \<and> is_text c) channels then remembered
         else (case firstText of Some c \<Rightarrow> Some (ch_id c) | None \<Rightarrow> None))"

text \<open>The part of \<open>selectGuild\<close> that runs once the channels are known.\<close>

definition selectGuild_cont :: "string \<Rightarrow> channel list \<Rightarrow> client \<Rightarrow> client" where
  "selectGuild_cont guildId channels a =
     (if selectedGuildId (chat a) \<noteq> Some guildId then a
      else (let remembered = oget (lastChannelByGuild (chat a)) guildId;
                a' = selectChannel (selectTarget remembered channels) a
            in if oget (membersByGuild (chat a')) guildId = None then loadMembers guildId True a' else a'))"

definition selectGuild :: "string \<Rightarrow> client \<Rightarrow> client" where
  "selectGuild guildId a =
     (let a' = setc (\<lambda>s. s\<lparr>selectedGuildId := Some guildId\<rparr>) a
      in case oget (channelsByGuild (chat a')) guildId of
           Some channels \<Rightarrow> selectGuild_cont guildId channels a'
         | None \<Rightarrow> call ''GET'' (guildPath guildId ''/channels'') NoBody (SelectGuild guildId) a')"

definition selectGuild_ok :: "string \<Rightarrow> channel list \<Rightarrow> client \<Rightarrow> client" where
  "selectGuild_ok guildId channels a =
     selectGuild_cont guildId channels
       (setc (\<lambda>s. s\<lparr>channelsByGuild := oput guildId channels (channelsByGuild s)\<rparr>) a)"

definition loadGuilds :: "client \<Rightarrow> client" where
  "loadGuilds a = call ''GET'' ''/users/@me/guilds'' NoBody LoadGuilds a"

definition loadGuilds_ok :: "guild list \<Rightarrow> client \<Rightarrow> client" where
  "loadGuilds_ok gs a =
     (let a' = setc (\<lambda>s. s\<lparr>guilds := gs, guildsLoaded := True\<rparr>) a;
          sel = selectedGuildId (chat a')
      in if \<not> truthy sel \<and> gs \<noteq> [] then selectGuild (g_id (hd gs)) a'
         else if truthy sel \<and> \<not> list_ex (\<lambda>g. Some (g_id g) = sel) gs
         then setc (\<lambda>s. s\<lparr>selectedGuildId := None, selectedChannelId := None\<rparr>) a'
         else a')"

definition loadOlder :: "string \<Rightarrow> client \<Rightarrow> client" where
  "loadOlder channelId a =
     (case oget (messagesByChannel (chat a)) channelId of
        None \<Rightarrow> a
      | Some c \<Rightarrow>
          if \<not> loaded c \<or> \<not> hasMore c \<or> loadingOlder c then a
          else (case List.find (\<lambda>m. \<not> m_optimistic m) (items c) of
                  None \<Rightarrow> a
                | Some oldest \<Rightarrow>
                    call ''GET'' (pagePath channelId @ ''&before='' @ m_id oldest) NoBody
                      (LoadOlder channelId (m_id oldest))
                      (setc (\<lambda>s. withConv s channelId (\<lambda>cur. cur\<lparr>loadingOlder := True\<rparr>)) a)))"

definition loadOlder_ok :: "string \<Rightarrow> msg list \<Rightarrow> client \<Rightarrow> client" where
  "loadOlder_ok channelId older a = setc (\<lambda>s. withConv s channelId (prependOlder older)) a"

definition loadOlder_err :: "string \<Rightarrow> string \<Rightarrow> client \<Rightarrow> client" where
  "loadOlder_err channelId e a =
     toastc e (setc (\<lambda>s. withConv s channelId (\<lambda>cur. cur\<lparr>loadingOlder := False\<rparr>)) a)"

section \<open>Sending\<close>

definition tempId :: "nat \<Rightarrow> nat \<Rightarrow> string" where
  "tempId now k = ''pending-'' @ showNat now @ ''-'' @ showNat k"

definition optimisticMsg :: "string \<Rightarrow> string \<Rightarrow> string \<Rightarrow> user \<Rightarrow> string \<Rightarrow> attachment list \<Rightarrow> nat \<Rightarrow> msg" where
  "optimisticMsg i channelId guildId u content atts now =
     \<lparr>m_id = i, m_channel_id = channelId, m_guild_id = guildId,
      m_author = \<lparr>a_id = u_id u, a_username = u_username u, a_avatar_url = str_or [] (u_avatar_url u)\<rparr>,
      m_content = content, m_attachments = atts, m_reactions = Some [],
      m_created_at = Some (int now), m_edited_at = None, m_optimistic = True, m_failed = False\<rparr>"

definition placeholder :: "upload_file \<Rightarrow> attachment" where
  "placeholder f = \<lparr>at_url = [], at_filename = f_name f, at_size = f_size f,
     at_content_type = str_or ''application/octet-stream'' (Some (f_type f))\<rparr>"

definition postMessage :: "string \<Rightarrow> string \<Rightarrow> string \<Rightarrow> attachment list \<Rightarrow> client \<Rightarrow> client" where
  "postMessage channelId temp content atts a =
     call ''POST'' (channelPath channelId ''/messages'')
       (MessageBody content (if length atts > 0 then Some atts else None)) (PostMessage channelId temp) a"

text \<open>The loop over the files: one upload at a time, then the message itself.\<close>

definition sendNext :: "string \<Rightarrow> string \<Rightarrow> string \<Rightarrow> upload_file list \<Rightarrow> attachment list \<Rightarrow> client \<Rightarrow> client" where
  "sendNext channelId temp content files atts a =
     (case files of
        [] \<Rightarrow> postMessage channelId temp content atts a
      | f # rest \<Rightarrow>
          call ''POST'' (channelPath channelId ''/attachments'') (FileBody f)
            (Upload channelId temp content rest atts) a)"

definition sendMessage :: "string \<Rightarrow> string \<Rightarrow> string \<Rightarrow> upload_file list \<Rightarrow> nat \<Rightarrow> client \<Rightarrow> client" where
  "sendMessage channelId guildId content files now a =
     (let k = tempCounter a + 1; a1 = a\<lparr>tempCounter := k\<rparr>; temp = tempId now k
      in case authUser a of
           None \<Rightarrow> rejectc ''TypeError'' a1
         | Some u \<Rightarrow>
             sendNext channelId temp content files []
               (setc (addOptimistic channelId
                 (optimisticMsg temp channelId guildId u content (map placeholder files) now)) a1))"

definition sendFailed :: "string \<Rightarrow> string \<Rightarrow> string \<Rightarrow> client \<Rightarrow> client" where
  "sendFailed channelId temp e a = toastc e (setc (markFailed channelId temp) a)"

definition gifAttachment :: "gif \<Rightarrow> attachment" where
  "gifAttachment g =
     \<lparr>at_url = gif_url g, at_filename = ''gif'', at_size = 0, at_content_type = ''image/gif''\<rparr>"

definition sendGif :: "string \<Rightarrow> string \<Rightarrow> gif \<Rightarrow> nat \<Rightarrow> client \<Rightarrow> client" where
  "sendGif channelId guildId g now a =
     (let k = tempCounter a + 1; a1 = a\<lparr>tempCounter := k\<rparr>; temp = tempId now k
      in case authUser a of
           None \<Rightarrow> rejectc ''TypeError'' a1
         | Some u \<Rightarrow>
             call ''POST'' (channelPath channelId ''/messages'')
               (MessageBody [] (Some [gifAttachment g])) (PostGif channelId temp)
               (setc (addOptimistic channelId
                 (optimisticMsg temp channelId guildId u [] [gifAttachment g] now)) a1))"

section \<open>Reactions, editing, deleting\<close>

definition reactionPath :: "reaction_event \<Rightarrow> string" where
  "reactionPath ev = channelPath (re_channel_id ev)
     (''/messages/'' @ re_message_id ev @ ''/reactions/'' @ encodeURIComponent (re_emoji ev))"

definition apply_reaction :: "bool \<Rightarrow> user option \<Rightarrow> reaction_event \<Rightarrow> chat \<Rightarrow> chat" where
  "apply_reaction add me = (if add then applyReactionAdd me else applyReactionRemove me)"

definition toggleReaction :: "string \<Rightarrow> string \<Rightarrow> string \<Rightarrow> client \<Rightarrow> client" where
  "toggleReaction channelId messageId emoji a =
     (case authUser a of
        None \<Rightarrow> a
      | Some me \<Rightarrow>
          if emoji = [] then a
          else (case Option.bind (oget (messagesByChannel (chat a)) channelId)
                       (\<lambda>c. List.find (\<lambda>m. m_id m = messageId) (items c)) of
                  None \<Rightarrow> a
                | Some m \<Rightarrow>
                    if m_optimistic m then a
                    else (let hadMe = (case List.find (\<lambda>r. r_emoji r = emoji) (or_empty (m_reactions m)) of
                                         None \<Rightarrow> False | Some r \<Rightarrow> r_me r);
                              ev = \<lparr>re_channel_id = channelId, re_message_id = messageId,
                                    re_emoji = emoji, re_user_id = u_id me\<rparr>
                          in call (if hadMe then ''DELETE'' else ''PUT'') (reactionPath ev) NoBody
                               (ToggleReaction hadMe ev)
                               (setc (apply_reaction (\<not> hadMe) (Some me) ev) a))))"

definition toggleReaction_err :: "bool \<Rightarrow> reaction_event \<Rightarrow> string \<Rightarrow> client \<Rightarrow> client" where
  "toggleReaction_err hadMe ev e a = toastc e (setc (apply_reaction hadMe (authUser a) ev) a)"

definition editMessage :: "string \<Rightarrow> string \<Rightarrow> string \<Rightarrow> client \<Rightarrow> client" where
  "editMessage channelId messageId content a =
     call ''PATCH'' (channelPath channelId (''/messages/'' @ messageId)) (MessageBody content None)
       EditMessage a"

definition deleteMessage :: "string \<Rightarrow> string \<Rightarrow> client \<Rightarrow> client" where
  "deleteMessage channelId messageId a =
     call ''DELETE'' (channelPath channelId (''/messages/'' @ messageId)) NoBody
       (DeleteMessage channelId messageId) a"

section \<open>Guilds, channels, invites\<close>

definition createGuild :: "string \<Rightarrow> client \<Rightarrow> client" where
  "createGuild name a = call ''POST'' ''/guilds'' (NameBody name) CreateGuild a"

definition joinGuild :: "string \<Rightarrow> client \<Rightarrow> client" where
  "joinGuild code a = call ''POST'' (''/invites/'' @ encodeURIComponent code @ ''/join'') NoBody JoinGuild a"

text \<open>Both continue alike: the guild is added to the rail and opened.\<close>

definition enterGuild :: "guild \<Rightarrow> client \<Rightarrow> client" where
  "enterGuild g a = selectGuild (g_id g) (setc (applyGuildCreate g) a)"

definition createChannel :: "string \<Rightarrow> string \<Rightarrow> string \<Rightarrow> string \<Rightarrow> client \<Rightarrow> client" where
  "createChannel guildId name topic kind a =
     call ''POST'' (guildPath guildId ''/channels'')
       (ChannelBody name (if topic = [] then None else Some topic) (if kind = [] then None else Some kind))
       (CreateChannel guildId) a"

definition createChannel_ok :: "string \<Rightarrow> channel \<Rightarrow> client \<Rightarrow> client" where
  "createChannel_ok guildId ch a =
     (let a' = setc (applyChannelCreate ch) a
      in if selectedGuildId (chat a') = Some guildId \<and> is_text ch
         then selectChannel (Some (ch_id ch)) a' else a')"

definition createInvite :: "string \<Rightarrow> client \<Rightarrow> client" where
  "createInvite guildId a = call ''POST'' (guildPath guildId ''/invites'') NoBody CreateInvite a"

definition applyMemberAdd :: "gmember \<Rightarrow> client \<Rightarrow> client" where
  "applyMemberAdd m a =
     (if truthy (mb_guild_id m)
      then setc (addMember (str_or [] (mb_guild_id m)) m) a
      else (case selectedGuildId (chat a) of
              None \<Rightarrow> a
            | Some sel \<Rightarrow> if sel \<noteq> [] then loadMembers sel False a else a))"

text \<open>\<open>trigger\<close> of \<open>effectsStore.js\<close>.\<close>

definition trigger :: "string \<Rightarrow> client \<Rightarrow> client" where
  "trigger kind a =
     (if kind \<notin> set EFFECT_TYPES then a
      else (let a' = a\<lparr>fx := playLocal kind (fx a)\<rparr>
            in case selectedChannelId (chat a') of
                 None \<Rightarrow> a'
               | Some ch \<Rightarrow>
                   if ch \<noteq> [] then call ''POST'' (channelPath ch ''/effects'') (EffectBody kind) BroadcastEffect a'
                   else a'))"

section \<open>Gateway events\<close>

datatype gateway_event =
    MESSAGE_CREATE msg
  | MESSAGE_UPDATE msg
  | MESSAGE_DELETE string string
  | TYPING_START string string string
  | PRESENCE_UPDATE string string string
  | CHANNEL_CREATE channel
  | GUILD_CREATE guild
  | GUILD_MEMBER_ADD gmember
  | MESSAGE_REACTION_ADD reaction_event
  | MESSAGE_REACTION_REMOVE reaction_event
  | EFFECT string "string option" string
  | OTHER_EVENT string

definition playRemote :: "string \<Rightarrow> string option \<Rightarrow> string \<Rightarrow> client \<Rightarrow> client" where
  "playRemote user_id guild_id kind a =
     (if is_me (authUser a) user_id then a
      else if truthy guild_id \<and> guild_id \<noteq> selectedGuildId (chat a) then a
      else a\<lparr>fx := playLocal kind (fx a)\<rparr>)"

fun handleGatewayEvent :: "nat \<Rightarrow> gateway_event \<Rightarrow> client \<Rightarrow> client" where
  "handleGatewayEvent now (MESSAGE_CREATE m) a = setc (applyMessageCreate (authUser a) m) a"
| "handleGatewayEvent now (MESSAGE_UPDATE m) a = setc (applyMessageUpdate m) a"
| "handleGatewayEvent now (MESSAGE_DELETE i ch) a = setc (applyMessageDelete i ch) a"
| "handleGatewayEvent now (TYPING_START ch u n) a =
     setc (applyTypingStart (authUser a) (int now) ch u n) a"
| "handleGatewayEvent now (PRESENCE_UPDATE u g st) a = setc (applyPresenceUpdate u g st) a"
| "handleGatewayEvent now (CHANNEL_CREATE c) a = setc (applyChannelCreate c) a"
| "handleGatewayEvent now (GUILD_CREATE g) a = setc (applyGuildCreate g) a"
| "handleGatewayEvent now (GUILD_MEMBER_ADD m) a = applyMemberAdd m a"
| "handleGatewayEvent now (MESSAGE_REACTION_ADD ev) a = setc (applyReactionAdd (authUser a) ev) a"
| "handleGatewayEvent now (MESSAGE_REACTION_REMOVE ev) a = setc (applyReactionRemove (authUser a) ev) a"
| "handleGatewayEvent now (EFFECT u g k) a = playRemote u g k a"
| "handleGatewayEvent now (OTHER_EVENT t) a = a"

section \<open>Re-synchronisation after a reconnect\<close>

definition resync :: "client \<Rightarrow> client" where
  "resync a = call ''GET'' ''/users/@me/guilds'' NoBody Resync a"

definition applyPatch :: "resync_patch \<Rightarrow> chat \<Rightarrow> chat" where
  "applyPatch p s = s\<lparr>guilds := p_guilds p, guildsLoaded := True,
     channelsByGuild := p_channels p, membersByGuild := p_members p,
     messagesByChannel := p_messages p, typingByChannel := [],
     selectedGuildId := (case p_selectedGuildId p of None \<Rightarrow> selectedGuildId s | Some x \<Rightarrow> x),
     selectedChannelId := (case p_selectedChannelId p of None \<Rightarrow> selectedChannelId s | Some x \<Rightarrow> x)\<rparr>"

definition emptyPatch :: "guild list \<Rightarrow> resync_patch" where
  "emptyPatch gs = \<lparr>p_guilds = gs, p_channels = [], p_members = [], p_messages = [],
     p_selectedGuildId = None, p_selectedChannelId = None\<rparr>"

definition resync_guilds :: "guild list \<Rightarrow> client \<Rightarrow> client" where
  "resync_guilds gs a =
     (let gid = selectedGuildId (chat a); cid = selectedChannelId (chat a)
      in case gid of
           Some g \<Rightarrow>
             if g \<noteq> [] \<and> list_ex (\<lambda>x. g_id x = g) gs
             then (let a' = call ''GET'' (guildPath g ''/channels'') NoBody (ResyncGuild g cid gs) a
                   in a'\<lparr>sent := sent a' @
                        [\<lparr>rq_method = ''GET'', rq_path = guildPath g ''/members'', rq_body = NoBody\<rparr>]\<rparr>)
             else setc (applyPatch ((emptyPatch gs)\<lparr>p_selectedGuildId := Some None,
                    p_selectedChannelId := Some None\<rparr>)) a
         | None \<Rightarrow> setc (applyPatch ((emptyPatch gs)\<lparr>p_selectedGuildId := Some None,
                    p_selectedChannelId := Some None\<rparr>)) a)"

definition resync_channels ::
  "string \<Rightarrow> string option \<Rightarrow> guild list \<Rightarrow> channel list \<Rightarrow> gmember list \<Rightarrow> client \<Rightarrow> client" where
  "resync_channels g cid gs channels members a =
     (let p = (emptyPatch gs)\<lparr>p_channels := [(g, channels)], p_members := [(g, members)]\<rparr>
      in if truthy cid \<and> list_ex (\<lambda>c. Some (ch_id c) = cid) channels
         then (let ch = str_or [] cid
               in call ''GET'' (pagePath ch) NoBody (ResyncMessages p ch) a)
         else (let sel = (case channels of [] \<Rightarrow> None | c # _ \<Rightarrow> Some (ch_id c));
                   p' = p\<lparr>p_selectedChannelId := Some sel\<rparr>
               in if truthy sel
                  then call ''GET'' (pagePath (str_or [] sel)) NoBody (ResyncMessages p' (str_or [] sel)) a
                  else setc (applyPatch p') a))"

definition resync_messages :: "resync_patch \<Rightarrow> string \<Rightarrow> msg list \<Rightarrow> client \<Rightarrow> client" where
  "resync_messages p ch msgs a = setc (applyPatch (p\<lparr>p_messages := [(ch, freshConv msgs)]\<rparr>)) a"

end
