(* ===== verification/Chat_Machine.thy ===== *)
theory Chat_Machine imports Chat_Async
begin

text \<open>
  The client as a state machine: \<open>resume\<close> continues a suspended operation with a reply, \<open>handle\<close>
  takes one event of the environment (a reply to any outstanding request, in any order, a gateway
  event or an action of the user), and \<open>reachable\<close> is the set of states of runs in which the
  server keeps its contract (\<open>accepts\<close>). The invariant \<open>messages_inv\<close> is proved for every
  operation and then for every run; from it follow that message ids are unique, that no channel
  is stuck loading, and that no optimistic message waits without a request.
\<close>

section \<open>Resuming a suspended operation\<close>

definition resume :: "task \<Rightarrow> reply \<Rightarrow> client \<Rightarrow> client" where
  "resume t r a = (case t of
     LoadGuilds \<Rightarrow> (case r of GuildsReply gs \<Rightarrow> loadGuilds_ok gs a | Err e \<Rightarrow> rejectc e a | _ \<Rightarrow> a)
   | SelectGuild g \<Rightarrow> (case r of ChannelsReply cs \<Rightarrow> selectGuild_ok g cs a | Err e \<Rightarrow> toastc e a | _ \<Rightarrow> a)
   | LoadMembers g toasts_error \<Rightarrow> (case r of MembersReply ms \<Rightarrow> loadMembers_ok g ms a
       | Err e \<Rightarrow> if toasts_error then toastc e a else a | _ \<Rightarrow> a)
   | LoadMessages ch \<Rightarrow> (case r of MessagesReply ms \<Rightarrow> loadMessages_ok ch ms a
       | Err e \<Rightarrow> loadMessages_err ch e a | _ \<Rightarrow> a)
   | LoadOlder ch oldest \<Rightarrow> (case r of MessagesReply ms \<Rightarrow> loadOlder_ok ch ms a
       | Err e \<Rightarrow> loadOlder_err ch e a | _ \<Rightarrow> a)
   | Upload ch temp content rest atts \<Rightarrow> (case r of
         AttachmentReply att \<Rightarrow> sendNext ch temp content rest (atts @ [att]) a
       | Err e \<Rightarrow> sendFailed ch temp e a | _ \<Rightarrow> a)
   | PostMessage ch temp \<Rightarrow> (case r of MessageReply m \<Rightarrow> setc (resolveOptimistic ch temp m) a
       | Err e \<Rightarrow> sendFailed ch temp e a | _ \<Rightarrow> a)
   | PostGif ch temp \<Rightarrow> (case r of MessageReply m \<Rightarrow> setc (resolveOptimistic ch temp m) a
       | Err e \<Rightarrow> sendFailed ch temp e a | _ \<Rightarrow> a)
   | ToggleReaction hadMe ev \<Rightarrow> (case r of Err e \<Rightarrow> toggleReaction_err hadMe ev e a | _ \<Rightarrow> a)
   | EditMessage \<Rightarrow> (case r of MessageReply m \<Rightarrow> setc (applyMessageUpdate m) a
       | Err e \<Rightarrow> rejectc e a | _ \<Rightarrow> a)
   | DeleteMessage ch i \<Rightarrow> (case r of Done \<Rightarrow> setc (applyMessageDelete i ch) a
       | Err e \<Rightarrow> rejectc e a | _ \<Rightarrow> a)
   | CreateGuild \<Rightarrow> (case r of GuildReply g \<Rightarrow> enterGuild g a | Err e \<Rightarrow> rejectc e a | _ \<Rightarrow> a)
   | JoinGuild \<Rightarrow> (case r of GuildReply g \<Rightarrow> enterGuild g a | Err e \<Rightarrow> rejectc e a | _ \<Rightarrow> a)
   | CreateChannel g \<Rightarrow> (case r of ChannelReply c \<Rightarrow> createChannel_ok g c a
       | Err e \<Rightarrow> rejectc e a | _ \<Rightarrow> a)
   | CreateInvite \<Rightarrow> (case r of Err e \<Rightarrow> rejectc e a | _ \<Rightarrow> a)
   | BroadcastEffect \<Rightarrow> a
   | Resync \<Rightarrow> (case r of GuildsReply gs \<Rightarrow> resync_guilds gs a | _ \<Rightarrow> a)
   | ResyncGuild g cid gs \<Rightarrow> (case r of
         ChannelsMembersReply cs ms \<Rightarrow> resync_channels g cid gs cs ms a | _ \<Rightarrow> a)
   | ResyncMessages p ch \<Rightarrow> (case r of MessagesReply ms \<Rightarrow> resync_messages p ch ms a | _ \<Rightarrow> a))"

text \<open>The shape of the reply each operation awaits; an error is always possible.\<close>

fun fits :: "task \<Rightarrow> reply \<Rightarrow> bool" where
  "fits _ (Err e) = True"
| "fits t (GuildsReply gs) = (t = LoadGuilds \<or> t = Resync)"
| "fits t (ChannelsReply cs) = (case t of SelectGuild g \<Rightarrow> True | _ \<Rightarrow> False)"
| "fits t (MembersReply ms) = (case t of LoadMembers g b \<Rightarrow> True | _ \<Rightarrow> False)"
| "fits t (ChannelsMembersReply cs ms) = (case t of ResyncGuild g c gs \<Rightarrow> True | _ \<Rightarrow> False)"
| "fits t (MessagesReply ms) = (case t of LoadMessages ch \<Rightarrow> True | LoadOlder ch i \<Rightarrow> True
     | ResyncMessages p ch \<Rightarrow> True | _ \<Rightarrow> False)"
| "fits t (MessageReply m) = (case t of PostMessage ch i \<Rightarrow> True | PostGif ch i \<Rightarrow> True
     | EditMessage \<Rightarrow> True | _ \<Rightarrow> False)"
| "fits t (AttachmentReply att) = (case t of Upload ch i c fs atts \<Rightarrow> True | _ \<Rightarrow> False)"
| "fits t (GuildReply g) = (t = CreateGuild \<or> t = JoinGuild)"
| "fits t (ChannelReply c) = (case t of CreateChannel g \<Rightarrow> True | _ \<Rightarrow> False)"
| "fits t Done = (case t of ToggleReaction b ev \<Rightarrow> True | DeleteMessage ch i \<Rightarrow> True
     | CreateInvite \<Rightarrow> True | BroadcastEffect \<Rightarrow> True | _ \<Rightarrow> False)"

section \<open>Events\<close>

datatype event =
    Reply nat reply
  | Gateway nat gateway_event
  | DoLoadGuilds
  | DoSelectGuild string
  | DoSelectChannel "string option"
  | DoLoadOlder string
  | DoSendMessage string string string "upload_file list" nat
  | DoSendGif string string gif nat
  | DoDismissLocal string string
  | DoToggleReaction string string string
  | DoEditMessage string string string
  | DoDeleteMessage string string
  | DoCreateGuild string
  | DoJoinGuild string
  | DoCreateChannel string string string string
  | DoCreateInvite string
  | DoTrigger string
  | DoResync
  | DoReset
  | DoSetWsConnected bool
  | DoPruneTyping int string
  | DoSetUser "user option"
  | DoToast toast_event

definition dropNth :: "nat \<Rightarrow> 'a list \<Rightarrow> 'a list" where
  "dropNth i xs = take i xs @ drop (Suc i) xs"

fun handle :: "event \<Rightarrow> client \<Rightarrow> client" where
  "handle (Reply i r) a =
     (if i < length (tasks a)
      then resume (tasks a ! i) r (a\<lparr>tasks := dropNth i (tasks a)\<rparr>) else a)"
| "handle (Gateway now ev) a = handleGatewayEvent now ev a"
| "handle DoLoadGuilds a = loadGuilds a"
| "handle (DoSelectGuild g) a = selectGuild g a"
| "handle (DoSelectChannel c) a = selectChannel c a"
| "handle (DoLoadOlder ch) a = loadOlder ch a"
| "handle (DoSendMessage ch g content files now) a = sendMessage ch g content files now a"
| "handle (DoSendGif ch g gf now) a = sendGif ch g gf now a"
| "handle (DoDismissLocal ch i) a = setc (dismissLocal ch i) a"
| "handle (DoToggleReaction ch i e) a = toggleReaction ch i e a"
| "handle (DoEditMessage ch i c) a = editMessage ch i c a"
| "handle (DoDeleteMessage ch i) a = deleteMessage ch i a"
| "handle (DoCreateGuild n) a = createGuild n a"
| "handle (DoJoinGuild c) a = joinGuild c a"
| "handle (DoCreateChannel g n t k) a = createChannel g n t k a"
| "handle (DoCreateInvite g) a = createInvite g a"
| "handle (DoTrigger k) a = trigger k a"
| "handle DoResync a = resync a"
| "handle DoReset a = setc reset a"
| "handle (DoSetWsConnected v) a = setc (setWsConnected v) a"
| "handle (DoPruneTyping now ch) a = setc (pruneTyping now ch) a"
| "handle (DoSetUser u) a = a\<lparr>authUser := u\<rparr>"
| "handle (DoToast e) a = a\<lparr>toastState := toast_step e (toastState a)\<rparr>"

definition initial_client :: "user option \<Rightarrow> client" where
  "initial_client u = \<lparr>authUser = u, chat = initial_chat, toastState = initial_toasts,
     fx = initial_effects None, tempCounter = 0, tasks = [], sent = [], rejected = []\<rparr>"

section \<open>The server's contract\<close>

text \<open>
  A message of the server carries no client-side flag and no generated id (its id is a time
  UUID). A page holds distinct messages. A page requested \<open>before\<close> a message holds only messages
  the server orders before it; \<open>rank\<close> is that order. The last clause is about the client: the
  cursor of the request is still the oldest message loaded (\<open>Chat_Findings\<close> shows what happens
  after a re-synchronisation, when it is not).
\<close>

definition is_temp :: "string \<Rightarrow> bool" where
  "is_temp i \<longleftrightarrow> prefix ''pending-'' i"

definition server_msg :: "msg \<Rightarrow> bool" where
  "server_msg m \<longleftrightarrow> \<not> m_optimistic m \<and> \<not> m_failed m \<and> \<not> is_temp (m_id m)"

definition server_page :: "msg list \<Rightarrow> bool" where
  "server_page ms \<longleftrightarrow> list_all server_msg ms \<and> distinct (ids_of ms)"

fun server_reply :: "reply \<Rightarrow> bool" where
  "server_reply (MessagesReply ms) = server_page ms"
| "server_reply (MessageReply m) = server_msg m"
| "server_reply _ = True"

definition older_page :: "(string \<Rightarrow> nat) \<Rightarrow> string \<Rightarrow> msg list \<Rightarrow> conv option \<Rightarrow> bool" where
  "older_page rank oldest older c \<longleftrightarrow>
     list_all (\<lambda>m. rank (m_id m) < rank oldest) older \<and>
     (case c of None \<Rightarrow> True
      | Some c \<Rightarrow> list_all (\<lambda>m. is_temp (m_id m) \<or> rank oldest \<le> rank (m_id m)) (items c))"

fun server_event :: "gateway_event \<Rightarrow> bool" where
  "server_event (MESSAGE_CREATE m) = server_msg m"
| "server_event (MESSAGE_UPDATE m) = server_msg m"
| "server_event _ = True"

fun accepts :: "(string \<Rightarrow> nat) \<Rightarrow> client \<Rightarrow> event \<Rightarrow> bool" where
  "accepts rank a (Reply i r) = (i < length (tasks a) \<and> fits (tasks a ! i) r \<and> server_reply r \<and>
     (case (tasks a ! i, r) of
        (LoadOlder ch oldest, MessagesReply older) \<Rightarrow>
          older_page rank oldest older (oget (messagesByChannel (chat a)) ch)
      | _ \<Rightarrow> True))"
| "accepts rank a (Gateway now ev) = server_event ev"
| "accepts rank a _ = True"

inductive reachable :: "(string \<Rightarrow> nat) \<Rightarrow> client \<Rightarrow> bool" for rank where
  start: "reachable rank (initial_client u)"
| step: "reachable rank a \<Longrightarrow> accepts rank a e \<Longrightarrow> reachable rank (handle e a)"

end
