(* ===== verification/Chat_Invariant.thy ===== *)
theory Chat_Invariant imports Chat_Machine
begin

text \<open>
  The invariant of the message store over all runs. For each conversation: it is well formed, a
  conversation that is not loaded has its request outstanding, a conversation showing the
  older-page spinner has that request outstanding, every optimistic entry still waiting has its
  upload or POST outstanding, and every generated id comes from a counter value already used.
\<close>

section \<open>Generated ids\<close>

definition tempSeq :: "string \<Rightarrow> nat" where
  "tempSeq i = readNat (rev (takeWhile (\<lambda>c. c \<noteq> CHR ''-'') (rev i)))"

lemma tempSeq_tempId [simp]: "tempSeq (tempId now k) = k"
proof -
  have "takeWhile (\<lambda>c. c \<noteq> CHR ''-'') (rev (showNat k) @ CHR ''-'' # xs) = rev (showNat k)" for xs
    using showNat_no_dash [of k] by (subst takeWhile_append2) auto
  then show ?thesis by (simp add: tempSeq_def tempId_def readNat_showNat)
qed

lemma showNat_not_temp: "\<not> is_temp (showNat n)"
proof
  assume "is_temp (showNat n)"
  then obtain zs where "showNat n = ''pending-'' @ zs" by (auto simp: is_temp_def prefix_def)
  then have "CHR ''-'' \<in> set (showNat n)" by simp
  then show False using showNat_no_dash by simp
qed

lemma is_temp_tempId [simp]: "is_temp (tempId now k)"
  by (simp add: is_temp_def tempId_def)

text \<open>What the store needs of its id generator, and the generator of the code.\<close>

locale fresh_ids =
  fixes gen :: "nat \<Rightarrow> nat \<Rightarrow> string"
    and known :: "nat \<Rightarrow> string \<Rightarrow> bool"
  assumes gen_known: "known k (gen now k)"
    and gen_fresh: "known n i \<Longrightarrow> n < k \<Longrightarrow> i \<noteq> gen now k"
    and known_mono: "known n i \<Longrightarrow> n \<le> n' \<Longrightarrow> known n' i"
begin

lemma fresh_append:
  assumes "distinct (ids_of ms)" and "\<forall>i \<in> set (ids_of ms). known n i" and "m_id m = gen now (n + 1)"
  shows "distinct (ids_of (ms @ [m]))" and "\<forall>i \<in> set (ids_of (ms @ [m])). known (n + 1) i"
proof -
  have "m_id m \<notin> set (ids_of ms)"
    using assms(2,3) gen_fresh [of n _ "n + 1" now] by fastforce
  then show "distinct (ids_of (ms @ [m]))" using assms(1) by simp
  show "\<forall>i \<in> set (ids_of (ms @ [m])). known (n + 1) i"
    using assms(2,3) gen_known known_mono [of n _ "n + 1"] by auto
qed

end

definition known :: "nat \<Rightarrow> string \<Rightarrow> bool" where
  "known n i \<longleftrightarrow> (is_temp i \<longrightarrow> tempSeq i \<le> n)"

interpretation tid: fresh_ids tempId known
  by unfold_locales (auto simp: known_def)

lemma known_server: "server_msg m \<Longrightarrow> known n (m_id m)"
  by (simp add: known_def server_msg_def)

lemma server_not_waiting: "server_msg m \<Longrightarrow> \<not> waiting m"
  by (simp add: server_msg_def waiting_def)

lemma server_page_facts:
  assumes "server_page ms"
  shows "distinct (ids_of ms)" "waiting_ids ms = {}" "\<forall>i \<in> set (ids_of ms). known n i"
  using assms known_server server_not_waiting
  by (auto simp: server_page_def list_all_iff waiting_ids_def)

section \<open>The invariant\<close>

definition sending :: "task set \<Rightarrow> string \<Rightarrow> string \<Rightarrow> bool" where
  "sending T ch i \<longleftrightarrow> (\<exists>content rest atts. Upload ch i content rest atts \<in> T)
     \<or> PostMessage ch i \<in> T \<or> PostGif ch i \<in> T"

definition conv_inv :: "task set \<Rightarrow> nat \<Rightarrow> string \<Rightarrow> conv \<Rightarrow> bool" where
  "conv_inv T n ch c \<longleftrightarrow> wf_conv c
     \<and> (\<not> loaded c \<longrightarrow> LoadMessages ch \<in> T)
     \<and> (loadingOlder c \<longrightarrow> (\<exists>oldest. LoadOlder ch oldest \<in> T))
     \<and> (\<forall>i \<in> waiting_ids (items c). sending T ch i)
     \<and> waiting_ids (or_empty (pending c)) = {}
     \<and> (\<forall>i \<in> conv_ids c. known n i)"

definition messages_inv :: "task set \<Rightarrow> nat \<Rightarrow> conv obj \<Rightarrow> bool" where
  "messages_inv T n M \<longleftrightarrow> (\<forall>ch c. oget M ch = Some c \<longrightarrow> conv_inv T n ch c)"

definition client_inv :: "client \<Rightarrow> bool" where
  "client_inv a \<longleftrightarrow> messages_inv (set (tasks a)) (tempCounter a) (messagesByChannel (chat a))"

lemma messages_invI: "(\<And>ch c. oget M ch = Some c \<Longrightarrow> conv_inv T n ch c) \<Longrightarrow> messages_inv T n M"
  by (simp add: messages_inv_def)

lemma messages_invD: "messages_inv T n M \<Longrightarrow> oget M ch = Some c \<Longrightarrow> conv_inv T n ch c"
  by (simp add: messages_inv_def)

lemma sending_mono: "sending T ch i \<Longrightarrow> T \<subseteq> T' \<Longrightarrow> sending T' ch i"
  by (auto simp: sending_def)

lemma conv_inv_mono: "conv_inv T n ch c \<Longrightarrow> T \<subseteq> T' \<Longrightarrow> n \<le> n' \<Longrightarrow> conv_inv T' n' ch c"
  unfolding conv_inv_def by (meson sending_mono subsetD tid.known_mono)

lemma messages_inv_mono: "messages_inv T n M \<Longrightarrow> T \<subseteq> T' \<Longrightarrow> n \<le> n' \<Longrightarrow> messages_inv T' n' M"
  unfolding messages_inv_def using conv_inv_mono by blast

lemma messages_inv_Nil [simp]: "messages_inv T n []"
  by (simp add: messages_inv_def)

lemma messages_inv_put:
  assumes "messages_inv T n M" and "conv_inv T n ch c"
  shows "messages_inv T n (oput ch c M)"
proof (rule messages_invI)
  fix k d assume "oget (oput ch c M) k = Some d"
  with messages_invD [OF assms(1)] assms(2) show "conv_inv T n k d" by (rule obj.all_put)
qed

lemma messages_inv_del:
  assumes "messages_inv T n M"
  shows "messages_inv T n (odel ch M)"
proof (rule messages_invI)
  fix k d assume "oget (odel ch M) k = Some d"
  with messages_invD [OF assms] show "conv_inv T n k d" by (rule obj.all_del)
qed

text \<open>
  Finishing a task \<open>t\<close> of channel \<open>ch\<close>: the other conversations do not depend on it, so only the
  new conversation of \<open>ch\<close> has to be checked.
\<close>

definition task_channel :: "task \<Rightarrow> string option" where
  "task_channel t = (case t of LoadMessages ch \<Rightarrow> Some ch | LoadOlder ch _ \<Rightarrow> Some ch
     | Upload ch _ _ _ _ \<Rightarrow> Some ch | PostMessage ch _ \<Rightarrow> Some ch | PostGif ch _ \<Rightarrow> Some ch | _ \<Rightarrow> None)"

lemma conv_inv_drop:
  assumes "conv_inv (insert t T) n k c" and "task_channel t \<noteq> Some k"
  shows "conv_inv T n k c"
proof -
  have "sending (insert t T) k i \<Longrightarrow> sending T k i" for i
    using assms(2) by (auto simp: sending_def task_channel_def)
  then show ?thesis using assms by (auto simp: conv_inv_def task_channel_def)
qed

lemma finish_other:
  "messages_inv (insert t T) n M \<Longrightarrow> task_channel t = None \<Longrightarrow> messages_inv T n M"
  unfolding messages_inv_def using conv_inv_drop by fastforce

lemma finish_put:
  assumes "messages_inv (insert t T) n M" and "task_channel t = Some ch" and "conv_inv T n ch c"
  shows "messages_inv T n (oput ch c M)"
proof (rule messages_invI)
  fix k d assume "oget (oput ch c M) k = Some d"
  then show "conv_inv T n k d"
    using assms messages_invD [OF assms(1), of k d] conv_inv_drop [of t T n k d]
    by (cases "k = ch") auto
qed

lemma finish_del:
  assumes "messages_inv (insert t T) n M" and "task_channel t = Some ch"
  shows "messages_inv T n (odel ch M)"
proof (rule messages_invI)
  fix k d assume "oget (odel ch M) k = Some d"
  then show "conv_inv T n k d"
    using assms messages_invD [OF assms(1), of k d] conv_inv_drop [of t T n k d]
    by (cases "k = ch") auto
qed

lemma finish_with:
  assumes inv: "messages_inv (insert t T) n (messagesByChannel s)" and t: "task_channel t = Some ch"
    and step: "\<And>c. conv_inv (insert t T) n ch c \<Longrightarrow> conv_inv T n ch (f c)"
  shows "messages_inv T n (messagesByChannel (withConv s ch f))"
proof (rule messages_invI)
  fix k d assume d: "oget (messagesByChannel (withConv s ch f)) k = Some d"
  show "conv_inv T n k d"
  proof (cases "k = ch")
    case True
    then show ?thesis using d step messages_invD [OF inv] by auto
  next
    case False
    then have "oget (messagesByChannel s) k = Some d" using d by simp
    then show ?thesis using False t messages_invD [OF inv] conv_inv_drop by (metis option.inject)
  qed
qed

text \<open>Updates of one conversation that finish no task.\<close>

lemma with_inv:
  assumes inv: "messages_inv T n (messagesByChannel s)"
    and step: "\<And>c. conv_inv T n ch c \<Longrightarrow> conv_inv T n ch (f c)"
  shows "messages_inv T n (messagesByChannel (withConv s ch f))"
  using messages_invD [OF inv] step
  by (intro messages_invI) (auto split: if_splits)

context items_edit begin

lemma edit_inv:
  assumes "conv_inv T n ch c" and "\<forall>i \<in> new. known n i" and "\<forall>i \<in> w. sending T ch i"
  shows "conv_inv T n ch (c\<lparr>items := f (items c)\<rparr>)"
  using assms edit_wf [of c] edit_conv_ids [of c] edit_waiting [of "items c"]
  unfolding conv_inv_def by auto

lemma edit_store_inv:
  assumes "messages_inv T n (messagesByChannel s)" and "\<forall>i \<in> new. known n i" and "\<forall>i \<in> w. sending T ch i"
  shows "messages_inv T n (messagesByChannel (withItems s ch f))"
  unfolding withItems_def using assms(1) by (rule with_inv) (rule edit_inv [OF _ assms(2,3)])

end

section \<open>Every operation keeps the invariant\<close>

lemma plumbing [simp, frame_simps]:
  "chat (call v p b t a) = chat a" "tasks (call v p b t a) = tasks a @ [t]"
  "tempCounter (call v p b t a) = tempCounter a" "authUser (call v p b t a) = authUser a"
  "chat (setc f a) = f (chat a)" "tasks (setc f a) = tasks a"
  "tempCounter (setc f a) = tempCounter a" "authUser (setc f a) = authUser a"
  "chat (toastc e a) = chat a" "tasks (toastc e a) = tasks a"
  "tempCounter (toastc e a) = tempCounter a" "authUser (toastc e a) = authUser a"
  "chat (rejectc e a) = chat a" "tasks (rejectc e a) = tasks a"
  "tempCounter (rejectc e a) = tempCounter a" "authUser (rejectc e a) = authUser a"
  by (simp_all add: call_def setc_def toastc_def rejectc_def)

named_theorems inv_intros "operations keep the message invariant"

lemma client_inv_more:
  assumes "client_inv a" and "messagesByChannel (chat b) = messagesByChannel (chat a)"
    and "set (tasks a) \<subseteq> set (tasks b)" and "tempCounter a \<le> tempCounter b"
  shows "client_inv b"
  using assms messages_inv_mono unfolding client_inv_def by metis

lemma call_inv [inv_intros]: "client_inv a \<Longrightarrow> client_inv (call v p b t a)"
  by (erule client_inv_more) auto

lemma toastc_inv [inv_intros]: "client_inv a \<Longrightarrow> client_inv (toastc e a)"
  by (erule client_inv_more) auto

lemma rejectc_inv [inv_intros]: "client_inv a \<Longrightarrow> client_inv (rejectc e a)"
  by (erule client_inv_more) auto

lemma setc_keep_inv [inv_intros]:
  "client_inv a \<Longrightarrow> (\<And>s. messagesByChannel (f s) = messagesByChannel s) \<Longrightarrow> client_inv (setc f a)"
  by (erule client_inv_more) auto

lemma counter_inv [inv_intros]: "client_inv a \<Longrightarrow> client_inv (a\<lparr>tempCounter := tempCounter a + 1\<rparr>)"
  by (erule client_inv_more) auto

lemma other_fields_inv [inv_intros]:
  "client_inv a \<Longrightarrow> client_inv (a\<lparr>fx := x\<rparr>)" "client_inv a \<Longrightarrow> client_inv (a\<lparr>sent := q\<rparr>)"
  "client_inv a \<Longrightarrow> client_inv (a\<lparr>authUser := u\<rparr>)" "client_inv a \<Longrightarrow> client_inv (a\<lparr>toastState := ts\<rparr>)"
  by (simp_all add: client_inv_def)

lemma loadingConv_inv: "LoadMessages ch \<in> T \<Longrightarrow> conv_inv T n ch loadingConv"
  by (simp add: conv_inv_def wf_conv_def loadingConv_def conv_ids_def)

lemma loadMessages_inv [inv_intros]: "client_inv a \<Longrightarrow> client_inv (loadMessages ch a)"
  unfolding loadMessages_def client_inv_def
  by (auto intro!: messages_inv_put loadingConv_inv elim: messages_inv_mono)

lemma selectChannel_inv [inv_intros]: "client_inv a \<Longrightarrow> client_inv (selectChannel c a)"
  unfolding selectChannel_def Let_def
  by (auto intro!: inv_intros split: option.split)

lemma loadMembers_inv [inv_intros]: "client_inv a \<Longrightarrow> client_inv (loadMembers g b a)"
  unfolding loadMembers_def by (rule call_inv)

lemma selectGuild_cont_inv [inv_intros]: "client_inv a \<Longrightarrow> client_inv (selectGuild_cont g cs a)"
  unfolding selectGuild_cont_def Let_def by (auto intro!: inv_intros)

lemma selectGuild_inv [inv_intros]: "client_inv a \<Longrightarrow> client_inv (selectGuild g a)"
  unfolding selectGuild_def Let_def by (auto intro!: inv_intros split: option.split)

lemma loadGuilds_ok_inv [inv_intros]: "client_inv a \<Longrightarrow> client_inv (loadGuilds_ok gs a)"
  unfolding loadGuilds_ok_def Let_def by (auto intro!: inv_intros)

lemma selectGuild_ok_inv [inv_intros]: "client_inv a \<Longrightarrow> client_inv (selectGuild_ok g cs a)"
  unfolding selectGuild_ok_def by (auto intro!: inv_intros)

lemma loadMembers_ok_inv [inv_intros]: "client_inv a \<Longrightarrow> client_inv (loadMembers_ok g ms a)"
  unfolding loadMembers_ok_def by (auto intro!: inv_intros)

lemma enterGuild_inv [inv_intros]: "client_inv a \<Longrightarrow> client_inv (enterGuild g a)"
  unfolding enterGuild_def by (auto intro!: inv_intros)

lemma createChannel_ok_inv [inv_intros]: "client_inv a \<Longrightarrow> client_inv (createChannel_ok g c a)"
  unfolding createChannel_ok_def Let_def by (auto intro!: inv_intros)

lemma applyMemberAdd_inv [inv_intros]: "client_inv a \<Longrightarrow> client_inv (applyMemberAdd m a)"
  unfolding applyMemberAdd_def by (auto intro!: inv_intros split: option.split)

lemma trigger_inv [inv_intros]: "client_inv a \<Longrightarrow> client_inv (trigger k a)"
  unfolding trigger_def Let_def by (auto intro!: inv_intros split: option.split)

lemma playRemote_inv [inv_intros]: "client_inv a \<Longrightarrow> client_inv (playRemote u g k a)"
  unfolding playRemote_def by (auto intro!: inv_intros)

text \<open>Edits of the items of one channel, through the contract of the edit.\<close>

lemma setc_items_inv:
  assumes "client_inv a" and "\<And>s. f s = withItems s ch g" and "items_edit g new w"
    and "\<forall>i \<in> new. known (tempCounter a) i" and "\<forall>i \<in> w. sending (set (tasks a)) ch i"
  shows "client_inv (setc f a)"
  using assms items_edit.edit_store_inv [OF assms(3)] by (simp add: client_inv_def)

lemma reaction_inv [inv_intros]:
  "client_inv a \<Longrightarrow> client_inv (setc (applyReactionAdd me ev) a)"
  "client_inv a \<Longrightarrow> client_inv (setc (applyReactionRemove me ev) a)"
  by (erule setc_items_inv, simp add: applyReactionAdd_def, rule add_edit.items_edit_axioms, simp_all)
    (erule setc_items_inv, simp add: applyReactionRemove_def, rule remove_edit.items_edit_axioms, simp_all)

lemma apply_reaction_inv [inv_intros]: "client_inv a \<Longrightarrow> client_inv (setc (apply_reaction b me ev) a)"
  by (simp add: apply_reaction_def reaction_inv)

lemma delete_inv [inv_intros]: "client_inv a \<Longrightarrow> client_inv (setc (applyMessageDelete i ch) a)"
  by (erule setc_items_inv, simp add: applyMessageDelete_def, rule filter_edit.items_edit_axioms) simp_all

lemma dismiss_inv [inv_intros]: "client_inv a \<Longrightarrow> client_inv (setc (dismissLocal ch i) a)"
  by (erule setc_items_inv, simp add: dismissLocal_def, rule filter_edit.items_edit_axioms) simp_all

lemma update_inv [inv_intros]:
  "client_inv a \<Longrightarrow> server_msg m \<Longrightarrow> client_inv (setc (applyMessageUpdate m) a)"
  by (erule setc_items_inv, simp add: applyMessageUpdate_def, rule replace_edit.items_edit_axioms)
    (simp_all add: server_not_waiting)

lemma toggleReaction_inv [inv_intros]: "client_inv a \<Longrightarrow> client_inv (toggleReaction ch i e a)"
  unfolding toggleReaction_def Let_def by (auto intro!: inv_intros split: option.split)

lemma toggleReaction_err_inv [inv_intros]: "client_inv a \<Longrightarrow> client_inv (toggleReaction_err b ev e a)"
  unfolding toggleReaction_err_def by (intro inv_intros)

text \<open>A live message: into the items of a loaded conversation, into the buffer of a loading one.\<close>

lemma buffer_inv:
  assumes c: "conv_inv T n ch c" and m: "server_msg m" and l: "\<not> loaded c"
  shows "conv_inv T n ch (buffer_msg m c)"
  using c l known_server [OF m, of n] server_not_waiting [OF m]
  by (auto simp: buffer_msg_def conv_inv_def wf_conv_def conv_ids_def)

lemma create_conv_inv:
  assumes c: "conv_inv T n ch c" and m: "server_msg m"
  shows "conv_inv T n ch (create_conv me m c)"
proof (cases "loaded c")
  case True
  then show ?thesis
    using create_edit.edit_inv [OF c, of m] known_server [OF m, of n] server_not_waiting [OF m]
    by (simp add: create_conv_def)
next
  case False
  then show ?thesis using buffer_inv [OF c m] by (simp add: create_conv_def)
qed

lemma create_inv [inv_intros]:
  assumes "client_inv a" and m: "server_msg m"
  shows "client_inv (setc (applyMessageCreate me m) a)"
  unfolding client_inv_def
  using messages_invD [OF assms(1) [unfolded client_inv_def]] create_conv_inv [OF _ m]
  by (intro messages_invI) (auto split: if_splits)

lemma optimistic_inv:
  assumes c: "conv_inv T n ch c" and i: "m_id m = tempId now (n + 1)" and t: "sending T ch (m_id m)"
  shows "conv_inv T (n + 1) ch (c\<lparr>items := items c @ [m]\<rparr>)"
proof -
  have k: "\<forall>i \<in> conv_ids c. known n i" using c by (simp add: conv_inv_def)
  then have ki: "\<forall>i \<in> set (ids_of (items c)). known n i"
    and kp: "\<forall>i \<in> set (ids_of (or_empty (pending c))). known (n + 1) i"
    using tid.known_mono [of n _ "n + 1"] by (auto simp: conv_ids_def)
  have d: "distinct (ids_of (items c))" using c by (simp add: conv_inv_def wf_conv_def)
  note app = tid.fresh_append [OF d ki i]
  have "\<forall>j \<in> waiting_ids (items c @ [m]). sending T ch j"
    using c t by (simp add: conv_inv_def)
  moreover have "wf_conv (c\<lparr>items := items c @ [m]\<rparr>)"
    using c app(1) by (simp add: conv_inv_def wf_conv_def)
  moreover have "\<forall>i \<in> conv_ids (c\<lparr>items := items c @ [m]\<rparr>). known (n + 1) i"
    using app(2) kp by (auto simp: conv_ids_def)
  ultimately show ?thesis using c by (simp add: conv_inv_def)
qed

lemma addOptimistic_inv:
  assumes inv: "client_inv a" and i: "m_id m = tempId now (tempCounter a + 1)"
    and chat': "chat b = addOptimistic ch m (chat a)" and n: "tempCounter b = tempCounter a + 1"
    and T: "set (tasks a) \<subseteq> set (tasks b)" and t: "sending (set (tasks b)) ch (m_id m)"
  shows "client_inv b"
  unfolding client_inv_def
proof (rule messages_invI)
  fix k d assume d: "oget (messagesByChannel (chat b)) k = Some d"
  have up: "messages_inv (set (tasks b)) (tempCounter a) (messagesByChannel (chat a))"
    using inv T messages_inv_mono unfolding client_inv_def by blast
  show "conv_inv (set (tasks b)) (tempCounter b) k d"
  proof (cases "k = ch")
    case True
    then obtain c where "oget (messagesByChannel (chat a)) ch = Some c" "d = c\<lparr>items := items c @ [m]\<rparr>"
      using d chat' by (auto simp: addOptimistic_def)
    then show ?thesis using optimistic_inv [OF messages_invD [OF up] i t] True n by simp
  next
    case False
    then have "oget (messagesByChannel (chat a)) k = Some d" using d chat' by (simp add: addOptimistic_def)
    then show ?thesis using messages_invD [OF up] conv_inv_mono n by fastforce
  qed
qed

lemma sendNext_plumbing [simp]:
  "chat (sendNext ch i c fs atts a) = chat a" "tempCounter (sendNext ch i c fs atts a) = tempCounter a"
  "set (tasks a) \<subseteq> set (tasks (sendNext ch i c fs atts a))"
  by (auto simp: sendNext_def postMessage_def split: list.split)

lemma sendNext_sending: "sending (set (tasks (sendNext ch i c fs atts a))) ch i"
  by (auto simp: sendNext_def postMessage_def sending_def split: list.split)

lemma sendMessage_inv [inv_intros]: "client_inv a \<Longrightarrow> client_inv (sendMessage ch g content files now a)"
proof (cases "authUser a")
  case None
  assume "client_inv a"
  then show ?thesis using None by (auto simp: sendMessage_def Let_def intro!: rejectc_inv counter_inv [simplified])
next
  case (Some u)
  assume inv: "client_inv a"
  let ?m = "optimisticMsg (tempId now (tempCounter a + 1)) ch g u content (map placeholder files) now"
  show ?thesis
    by (rule addOptimistic_inv [OF inv, of ?m now _ ch])
      (auto simp: sendMessage_def Let_def Some optimisticMsg_def intro: sendNext_sending
        dest: subsetD [OF sendNext_plumbing(3)] intro!: subsetD [OF sendNext_plumbing(3)])
qed

lemma sendGif_inv [inv_intros]: "client_inv a \<Longrightarrow> client_inv (sendGif ch g gf now a)"
proof (cases "authUser a")
  case None
  assume "client_inv a"
  then show ?thesis using None by (auto simp: sendGif_def Let_def intro!: rejectc_inv counter_inv [simplified])
next
  case (Some u)
  assume inv: "client_inv a"
  let ?m = "optimisticMsg (tempId now (tempCounter a + 1)) ch g u [] [gifAttachment gf] now"
  show ?thesis
    by (rule addOptimistic_inv [OF inv, of ?m now _ ch])
      (auto simp: sendGif_def Let_def Some optimisticMsg_def sending_def)
qed

lemma loadOlder_inv [inv_intros]: "client_inv a \<Longrightarrow> client_inv (loadOlder ch a)"
proof (cases "oget (messagesByChannel (chat a)) ch")
  case None
  assume "client_inv a"
  then show ?thesis using None by (simp add: loadOlder_def)
next
  case (Some c)
  assume inv: "client_inv a"
  show ?thesis
  proof (cases "\<not> loaded c \<or> \<not> hasMore c \<or> loadingOlder c \<or> List.find (\<lambda>m. \<not> m_optimistic m) (items c) = None")
    case True
    then show ?thesis using Some inv by (auto simp: loadOlder_def)
  next
    case False
    then obtain oldest where o: "List.find (\<lambda>m. \<not> m_optimistic m) (items c) = Some oldest" by auto
    let ?T = "insert (LoadOlder ch (m_id oldest)) (set (tasks a))"
    have up: "messages_inv ?T (tempCounter a) (messagesByChannel (chat a))"
      using inv messages_inv_mono unfolding client_inv_def by blast
    have "conv_inv ?T (tempCounter a) ch (c\<lparr>loadingOlder := True\<rparr>)"
      using messages_invD [OF up Some] False by (auto simp: conv_inv_def wf_conv_def conv_ids_def)
    then have "messages_inv ?T (tempCounter a)
        (messagesByChannel (withConv (chat a) ch (\<lambda>cur. cur\<lparr>loadingOlder := True\<rparr>)))"
      using messages_inv_put [OF up] Some by (simp add: withConv_def)
    then show ?thesis using Some False o by (simp add: loadOlder_def client_inv_def)
  qed
qed

section \<open>Replies\<close>

text \<open>
  When a reply is handled its task has left the list: the invariant holds with the task put back
  (\<open>inv_with\<close>), and the continuation must restore it without.
\<close>

definition inv_with :: "task \<Rightarrow> client \<Rightarrow> bool" where
  "inv_with t a \<longleftrightarrow> messages_inv (insert t (set (tasks a))) (tempCounter a) (messagesByChannel (chat a))"

lemma inv_with_other: "inv_with t a \<Longrightarrow> task_channel t = None \<Longrightarrow> client_inv a"
  unfolding inv_with_def client_inv_def by (rule finish_other)

lemma set_dropNth: "i < length xs \<Longrightarrow> set xs \<subseteq> insert (xs ! i) (set (dropNth i xs))"
  by (subst id_take_nth_drop [of i xs]) (auto simp: dropNth_def)

lemma inv_with_drop:
  "client_inv a \<Longrightarrow> i < length (tasks a) \<Longrightarrow> inv_with (tasks a ! i) (a\<lparr>tasks := dropNth i (tasks a)\<rparr>)"
  using messages_inv_mono set_dropNth [of i "tasks a"]
  by (fastforce simp: inv_with_def client_inv_def)

lemma fresh_wf: "server_page ms \<Longrightarrow> conv_inv T n ch (freshConv ms)"
  using server_page_facts [of ms] known_server
  by (auto simp: conv_inv_def wf_conv_def freshConv_def conv_ids_def rev_map [symmetric])

lemma outside_disjoint: "f ` A \<inter> f ` {x \<in> B. f x \<notin> f ` A} = {}"
proof -
  have "f ` {x \<in> B. f x \<notin> f ` A} \<subseteq> - (f ` A)" by (rule image_subsetI) simp
  then show ?thesis by fast
qed

lemma merge_inv:
  assumes prev: "\<And>c. prev = Some c \<Longrightarrow> conv_inv T' n ch c" and ms: "server_page ms"
  shows "conv_inv T n ch (mergeInitial ms prev)"
proof -
  define buffered where "buffered = (case prev of None \<Rightarrow> [] | Some p \<Rightarrow> or_empty (pending p))"
  have b: "distinct (ids_of buffered)" "waiting_ids buffered = {}" "\<forall>i \<in> set (ids_of buffered). known n i"
    using prev by (auto simp: buffered_def conv_inv_def wf_conv_def conv_ids_def split: option.splits)
  let ?new = "filter (\<lambda>m. m_id m \<notin> set (ids_of (rev ms))) buffered"
  have m: "mergeInitial ms prev = (freshConv ms)\<lparr>items := rev ms @ ?new\<rparr>"
    by (simp add: mergeInitial_def Let_def freshConv_def buffered_def)
  have w: "waiting_ids ?new = {}" using b(2) waiting_ids_filter by blast
  have d: "distinct (ids_of (rev ms @ ?new))"
    using server_page_facts(1) [OF ms] b(1)
    by (simp add: rev_map [symmetric] distinct_map_filter) (rule outside_disjoint)
  have k: "\<forall>i \<in> set (ids_of (rev ms @ ?new)). known n i"
    using server_page_facts(3) [OF ms] b(3) by auto
  show ?thesis unfolding m conv_inv_def wf_conv_def conv_ids_def
    using server_page_facts(2) [OF ms] w d k by (simp add: freshConv_def)
qed

lemma loadMessages_ok_inv:
  assumes inv: "inv_with (LoadMessages ch) a" and ms: "server_page ms"
  shows "client_inv (loadMessages_ok ch ms a)"
proof -
  note all = inv [unfolded inv_with_def]
  have "conv_inv (set (tasks a)) (tempCounter a) ch
      (mergeInitial ms (oget (messagesByChannel (chat a)) ch))"
    by (rule merge_inv [OF _ ms]) (rule messages_invD [OF all])
  from finish_put [OF all _ this] show ?thesis
    by (simp add: task_channel_def client_inv_def loadMessages_ok_def)
qed

lemma loadMessages_err_inv: "inv_with (LoadMessages ch) a \<Longrightarrow> client_inv (loadMessages_err ch e a)"
  unfolding client_inv_def loadMessages_err_def inv_with_def
  by (auto intro: finish_del simp: task_channel_def)

lemma prependOlder_inv:
  assumes c: "conv_inv (insert (LoadOlder ch oldest) T) n ch c" and ms: "server_page ms"
    and page: "older_page rank oldest ms (Some c)"
  shows "conv_inv T n ch (prependOlder ms c)"
proof -
  have disj: "m_id m \<notin> m_id ` set (items c)" if m: "m \<in> set ms" for m
  proof
    assume "m_id m \<in> m_id ` set (items c)"
    then obtain x where x: "x \<in> set (items c)" "m_id x = m_id m" by force
    have "\<not> is_temp (m_id m)" and "rank (m_id m) < rank oldest"
      using m ms page by (auto simp: server_page_def server_msg_def older_page_def list_all_iff)
    then show False using x page by (auto simp: older_page_def list_all_iff)
  qed
  have "\<And>i. sending (insert (LoadOlder ch oldest) T) ch i \<Longrightarrow> sending T ch i"
    by (auto simp: sending_def)
  then show ?thesis
    using c disj server_page_facts [OF ms]
    by (auto simp: conv_inv_def wf_conv_def prependOlder_def conv_ids_def rev_map [symmetric])
qed

lemma loadOlder_ok_inv:
  assumes inv: "inv_with (LoadOlder ch oldest) a" and ms: "server_page ms"
    and page: "older_page rank oldest ms (oget (messagesByChannel (chat a)) ch)"
  shows "client_inv (loadOlder_ok ch ms a)"
  unfolding client_inv_def loadOlder_ok_def
proof (cases "oget (messagesByChannel (chat a)) ch")
  case None
  have "messages_inv (set (tasks a)) (tempCounter a) (messagesByChannel (chat a))"
    using finish_del [OF inv [unfolded inv_with_def], of ch] None
    by (intro messages_invI) (auto simp: task_channel_def dest!: messages_invD split: if_splits)
  then show "messages_inv (set (tasks (setc (\<lambda>s. withConv s ch (prependOlder ms)) a)))
      (tempCounter (setc (\<lambda>s. withConv s ch (prependOlder ms)) a))
      (messagesByChannel (chat (setc (\<lambda>s. withConv s ch (prependOlder ms)) a)))"
    using None by (simp add: withConv_def)
next
  case (Some c)
  have "conv_inv (set (tasks a)) (tempCounter a) ch (prependOlder ms c)"
    using messages_invD [OF inv [unfolded inv_with_def] Some] ms page Some
    by (auto intro: prependOlder_inv)
  then show "messages_inv (set (tasks (setc (\<lambda>s. withConv s ch (prependOlder ms)) a)))
      (tempCounter (setc (\<lambda>s. withConv s ch (prependOlder ms)) a))
      (messagesByChannel (chat (setc (\<lambda>s. withConv s ch (prependOlder ms)) a)))"
    using finish_put [OF inv [unfolded inv_with_def]] Some by (simp add: withConv_def task_channel_def)
qed

lemma loadOlder_err_inv:
  assumes "inv_with (LoadOlder ch oldest) a"
  shows "client_inv (loadOlder_err ch e a)"
proof -
  have step: "conv_inv (insert (LoadOlder ch oldest) T) n ch c \<Longrightarrow> conv_inv T n ch (c\<lparr>loadingOlder := False\<rparr>)" for T n c
    by (auto simp: conv_inv_def wf_conv_def conv_ids_def sending_def)
  show ?thesis using finish_with [OF assms [unfolded inv_with_def] _ step]
    by (simp add: client_inv_def loadOlder_err_def task_channel_def)
qed

text \<open>The three tasks of a send, and what ends the wait of the optimistic entry.\<close>

definition send_task :: "string \<Rightarrow> string \<Rightarrow> task \<Rightarrow> bool" where
  "send_task ch i t \<longleftrightarrow> (case t of Upload c j _ _ _ \<Rightarrow> c = ch \<and> j = i
     | PostMessage c j \<Rightarrow> c = ch \<and> j = i | PostGif c j \<Rightarrow> c = ch \<and> j = i | _ \<Rightarrow> False)"

lemma send_task_channel: "send_task ch i t \<Longrightarrow> task_channel t = Some ch"
  by (auto simp: send_task_def task_channel_def split: task.splits)

lemma sending_finish: "send_task ch i t \<Longrightarrow> sending (insert t T) ch j \<Longrightarrow> j \<noteq> i \<Longrightarrow> sending T ch j"
  by (auto simp: send_task_def sending_def split: task.splits)

lemma finish_send:
  assumes inv: "inv_with t a" and t: "send_task ch i t" and e: "items_edit f new w"
    and new: "\<forall>j \<in> new. known (tempCounter a) j"
    and w: "\<And>ms. waiting_ids (f ms) \<subseteq> waiting_ids ms - {i}"
    and chat': "chat b = withItems (chat a) ch f" and b: "tasks b = tasks a" "tempCounter b = tempCounter a"
  shows "client_inv b"
proof -
  have "conv_inv (set (tasks a)) (tempCounter a) ch (c\<lparr>items := f (items c)\<rparr>)"
    if c: "conv_inv (insert t (set (tasks a))) (tempCounter a) ch c" for c
  proof -
    have "\<forall>j \<in> waiting_ids (f (items c)). sending (set (tasks a)) ch j"
      using w [of "items c"] c sending_finish [OF t] by (auto simp: conv_inv_def)
    moreover have "\<forall>j \<in> conv_ids (c\<lparr>items := f (items c)\<rparr>). known (tempCounter a) j"
      using items_edit.edit_conv_ids [OF e, of c] new c by (auto simp: conv_inv_def)
    ultimately show ?thesis
      using c items_edit.edit_wf [OF e, of c] t
      by (auto simp: conv_inv_def send_task_def split: task.splits)
  qed
  from finish_with [OF inv [unfolded inv_with_def] send_task_channel [OF t] this]
  show ?thesis using chat' b by (simp add: client_inv_def withItems_def)
qed

lemma resolve_not_waiting:
  "\<not> waiting m \<Longrightarrow> waiting_ids (resolve_items i m ms) \<subseteq> waiting_ids ms - {i}"
  by (auto simp: resolve_items_def replace_msg_def waiting_ids_def)

lemma failed_not_waiting:
  "waiting_ids (map (\<lambda>m. if m_id m = i then m\<lparr>m_failed := True\<rparr> else m) ms) \<subseteq> waiting_ids ms - {i}"
proof
  fix j assume "j \<in> waiting_ids (map (\<lambda>m. if m_id m = i then m\<lparr>m_failed := True\<rparr> else m) ms)"
  then obtain x where x: "x \<in> set ms" and y: "waiting (if m_id x = i then x\<lparr>m_failed := True\<rparr> else x)"
    and j: "j = m_id (if m_id x = i then x\<lparr>m_failed := True\<rparr> else x)"
    unfolding waiting_ids_def by (auto simp only: set_map set_filter mem_Collect_eq)
  show "j \<in> waiting_ids ms - {i}"
  proof (cases "m_id x = i")
    case True
    then show ?thesis using y by (simp add: waiting_def)
  next
    case False
    then show ?thesis using x y j by (simp add: waiting_ids_def)
  qed
qed

lemma resolve_inv:
  assumes "inv_with t a" and "send_task ch i t" and m: "server_msg m"
  shows "client_inv (setc (resolveOptimistic ch i m) a)"
proof (rule finish_send [OF assms(1,2) resolve_edit.items_edit_axioms [of i m]])
  show "\<forall>j \<in> {m_id m}. known (tempCounter a) j" using known_server [OF m] by blast
  show "waiting_ids (resolve_items i m ms) \<subseteq> waiting_ids ms - {i}" for ms
    by (rule resolve_not_waiting [OF server_not_waiting [OF m]])
qed (simp_all add: resolveOptimistic_def)

lemma sendFailed_inv:
  assumes "inv_with t a" and "send_task ch i t"
  shows "client_inv (sendFailed ch i e a)"
proof (rule finish_send [OF assms failed_edit.items_edit_axioms [of i] _ failed_not_waiting [of i]])
  show "chat (sendFailed ch i e a) =
      withItems (chat a) ch (map (\<lambda>m. if m_id m = i then m\<lparr>m_failed := True\<rparr> else m))"
    by (simp add: sendFailed_def markFailed_def)
qed (simp_all add: sendFailed_def)

lemma sendNext_inv:
  assumes "inv_with (Upload ch i content fs atts') a"
  shows "client_inv (sendNext ch i content' rest atts a)"
proof -
  let ?b = "sendNext ch i content' rest atts a" and ?t = "Upload ch i content fs atts'"
  have s: "sending (set (tasks ?b)) k j" if "sending (insert ?t (set (tasks a))) k j" for k j
  proof (cases "k = ch \<and> j = i")
    case True
    then show ?thesis using sendNext_sending by blast
  next
    case False
    then have "sending (set (tasks a)) k j" using that by (auto simp: sending_def)
    then show ?thesis by (rule sending_mono) (rule sendNext_plumbing)
  qed
  have t: "t \<in> insert ?t (set (tasks a)) \<Longrightarrow> t \<noteq> ?t \<Longrightarrow> t \<in> set (tasks ?b)" for t
    using sendNext_plumbing(3) [of a ch i content' rest atts] by blast
  have "conv_inv (set (tasks ?b)) n k c" if c: "conv_inv (insert ?t (set (tasks a))) n k c" for n k c
    using c s t [of "LoadMessages k"] t [of "LoadOlder k _"] unfolding conv_inv_def by blast
  then show ?thesis using assms by (simp add: client_inv_def inv_with_def messages_inv_def)
qed

text \<open>Re-synchronisation replaces all conversations.\<close>

lemma applyPatch_inv: "messages_inv (set (tasks a)) (tempCounter a) (p_messages p) \<Longrightarrow> client_inv (setc (applyPatch p) a)"
  by (simp add: client_inv_def applyPatch_def)

lemma resync_guilds_inv [inv_intros]: "client_inv a \<Longrightarrow> client_inv (resync_guilds gs a)"
  unfolding resync_guilds_def Let_def
  by (auto intro!: inv_intros applyPatch_inv simp: emptyPatch_def split: option.split)

lemma resync_channels_inv [inv_intros]: "client_inv a \<Longrightarrow> client_inv (resync_channels g cid gs cs ms a)"
  unfolding resync_channels_def Let_def
  by (auto intro!: inv_intros applyPatch_inv simp: emptyPatch_def)

lemma resync_messages_inv: "server_page ms \<Longrightarrow> client_inv (resync_messages p ch ms a)"
  unfolding resync_messages_def
  by (rule applyPatch_inv) (auto intro!: messages_invI fresh_wf simp: oget_def split: if_splits)

section \<open>Every step\<close>

lemma resume_inv:
  assumes inv: "inv_with t a" and fit: "fits t r" and srv: "server_reply r"
    and older: "\<And>ch oldest ms. t = LoadOlder ch oldest \<Longrightarrow> r = MessagesReply ms \<Longrightarrow>
      older_page rank oldest ms (oget (messagesByChannel (chat a)) ch)"
  shows "client_inv (resume t r a)"
proof (cases "task_channel t")
  case None
  have a: "client_inv a" by (rule inv_with_other [OF inv None])
  show ?thesis
    using None a fit srv
    by (cases t; cases r) (simp_all add: resume_def task_channel_def inv_intros resync_messages_inv)
next
  case (Some ch)
  show ?thesis
  proof (cases t)
    case (LoadMessages c)
    then show ?thesis using inv fit srv loadMessages_ok_inv loadMessages_err_inv
      by (cases r) (simp_all add: resume_def)
  next
    case (LoadOlder c oldest)
    have ok: "client_inv (loadOlder_ok c ms a)" if "r = MessagesReply ms" for ms
      using inv srv that LoadOlder by (auto intro: loadOlder_ok_inv older [OF LoadOlder that])
    have err: "client_inv (loadOlder_err c e a)" for e
      using inv LoadOlder loadOlder_err_inv by simp
    show ?thesis using fit LoadOlder ok err by (cases r) (simp_all add: resume_def)
  next
    case (Upload c i content rest atts)
    then have "send_task c i t" by (simp add: send_task_def)
    then show ?thesis using inv fit Upload sendNext_inv sendFailed_inv
      by (cases r) (simp_all add: resume_def)
  next
    case (PostMessage c i)
    then have "send_task c i t" by (simp add: send_task_def)
    then show ?thesis using inv fit srv PostMessage resolve_inv sendFailed_inv
      by (cases r) (simp_all add: resume_def)
  next
    case (PostGif c i)
    then have "send_task c i t" by (simp add: send_task_def)
    then show ?thesis using inv fit srv PostGif resolve_inv sendFailed_inv
      by (cases r) (simp_all add: resume_def)
  qed (use Some in \<open>simp_all add: task_channel_def\<close>)
qed

lemma gateway_inv [inv_intros]:
  "client_inv a \<Longrightarrow> server_event ev \<Longrightarrow> client_inv (handleGatewayEvent now ev a)"
  by (cases ev) (auto intro!: inv_intros simp: frame_simps)

lemma reset_inv [inv_intros]: "client_inv (setc reset a)"
  by (simp add: client_inv_def reset_initial initial_chat_def)

lemma initial_inv: "client_inv (initial_client u)"
  by (simp add: client_inv_def initial_client_def initial_chat_def)

lemma handle_inv:
  assumes "client_inv a" and "accepts rank a e"
  shows "client_inv (handle e a)"
proof (cases e)
  case (Reply i r)
  let ?b = "a\<lparr>tasks := dropNth i (tasks a)\<rparr>"
  have ok: "i < length (tasks a)" "fits (tasks a ! i) r" "server_reply r"
    using assms(2) Reply by auto
  have "older_page rank oldest ms (oget (messagesByChannel (chat ?b)) ch)"
    if "tasks a ! i = LoadOlder ch oldest" "r = MessagesReply ms" for ch oldest ms
    using that assms(2) Reply by simp
  then have "client_inv (resume (tasks a ! i) r ?b)"
    by (rule resume_inv [OF inv_with_drop [OF assms(1) ok(1)] ok(2,3)])
  then show ?thesis using ok Reply by simp
next
  case (DoPruneTyping now ch)
  then show ?thesis using assms(1)
    by (auto intro!: setc_keep_inv simp: pruneTyping_def split: option.splits)
qed (use assms in \<open>auto intro!: inv_intros simp: editMessage_def deleteMessage_def createGuild_def
    joinGuild_def createChannel_def createInvite_def loadGuilds_def resync_def setWsConnected_def\<close>)

lemma reachable_inv: "reachable rank a \<Longrightarrow> client_inv a"
  by (induction rule: reachable.induct) (auto intro: initial_inv handle_inv)

end
