(* ===== verification/Chat_Properties.thy ===== *)
theory Chat_Properties imports Chat_Invariant
begin

text \<open>
  What the message store promises, over every run of \<open>Chat_Machine\<close>, and what its reducers do to
  a message, in the terms of the component theories. The runs of the witnesses are evaluated by
  \<open>follow\<close>, which checks the server's contract at each step.
\<close>

section \<open>Concrete runs and objects\<close>

fun follow :: "(string \<Rightarrow> nat) \<Rightarrow> client \<Rightarrow> event list \<Rightarrow> client option" where
  "follow rank a [] = Some a"
| "follow rank a (e # es) = (if accepts rank a e then follow rank (handle e a) es else None)"

lemma follow_reachable: "reachable rank a \<Longrightarrow> follow rank a es = Some b \<Longrightarrow> reachable rank b"
  by (induction es arbitrary: a) (auto split: if_splits intro: reachable.step)

definition ada :: user where
  "ada = \<lparr>u_id = ''ada'', u_username = ''ada'', u_email = None, u_avatar_url = None, u_bio = None,
     u_pronouns = None, u_accent_color = None, u_created_at = None\<rparr>"

definition sample_msg :: "string \<Rightarrow> string \<Rightarrow> string \<Rightarrow> msg" where
  "sample_msg i who content = \<lparr>m_id = i, m_channel_id = ''general'', m_guild_id = ''g'',
     m_author = \<lparr>a_id = who, a_username = who, a_avatar_url = []\<rparr>, m_content = content,
     m_attachments = [], m_reactions = None, m_created_at = Some 0, m_edited_at = None,
     m_optimistic = False, m_failed = False\<rparr>"

definition sample_run :: "event list" where
  "sample_run = [DoSelectChannel (Some ''general''),
     Gateway 0 (MESSAGE_CREATE (sample_msg ''m2'' ''bob'' ''hey'')),
     Reply 0 (MessagesReply [sample_msg ''m2'' ''bob'' ''hey'', sample_msg ''m1'' ''bob'' ''yo'']),
     DoSendMessage ''general'' ''g'' ''hi'' [] 7]"

definition sample_state :: client where
  "sample_state = the (follow length (initial_client (Some ada)) sample_run)"

text \<open>The conversation shown for a channel, and the message with a given id in it.\<close>

definition conv_at :: "chat \<Rightarrow> string \<Rightarrow> conv option" where
  "conv_at s ch = oget (messagesByChannel s) ch"

definition msg_at :: "chat \<Rightarrow> string \<Rightarrow> string \<Rightarrow> msg option" where
  "msg_at s ch i = Option.bind (conv_at s ch) (\<lambda>c. List.find (\<lambda>m. m_id m = i) (items c))"

definition sample_conv :: conv where
  "sample_conv = the (conv_at (chat sample_state) ''general'')"

lemma sample_follow: "follow length (initial_client (Some ada)) sample_run = Some sample_state"
  unfolding sample_state_def by code_simp

lemma sample_reachable: "reachable length sample_state"
  by (rule follow_reachable [OF reachable.start sample_follow])

lemma sample_conv_at: "conv_at (chat sample_state) ''general'' = Some sample_conv"
  unfolding sample_conv_def by code_simp

section \<open>Runs\<close>

lemma reachable_conv: "reachable rank a \<Longrightarrow> conv_at (chat a) ch = Some c \<Longrightarrow>
    conv_inv (set (tasks a)) (tempCounter a) ch c"
  using reachable_inv messages_invD unfolding client_inv_def conv_at_def by blast



text \<open>
  C2: no message waits for nothing: an optimistic message that has not failed belongs to an
  upload, a POST or a GIF POST that is still outstanding for its channel and its temporary id.
\<close>
theorem waiting_has_request:
  assumes "reachable rank a" and "conv_at (chat a) ch = Some c"
    and "m \<in> set (items c)" and "m_optimistic m" and "\<not> m_failed m"
  shows "(\<exists>content rest atts. Upload ch (m_id m) content rest atts \<in> set (tasks a))
    \<or> PostMessage ch (m_id m) \<in> set (tasks a) \<or> PostGif ch (m_id m) \<in> set (tasks a)"
proof -
  have "m_id m \<in> waiting_ids (items c)" using assms(3-5) by (auto simp: waiting_ids_def waiting_def)
  then have "sending (set (tasks a)) ch (m_id m)"
    using reachable_conv [OF assms(1,2)] by (simp add: conv_inv_def)
  then show ?thesis by (simp add: sending_def)
qed

lemma waiting_has_request_witness:
  "PostMessage ''general'' ''pending-7-1'' \<in> set (tasks sample_state)"
proof -
  let ?m = "items sample_conv ! 2"
  have "?m \<in> set (items sample_conv)" by (rule nth_mem) code_simp
  moreover have "m_optimistic ?m" "\<not> m_failed ?m" "m_id ?m = ''pending-7-1''" by code_simp+
  ultimately have "(\<exists>content rest atts. Upload ''general'' ''pending-7-1'' content rest atts \<in> set (tasks sample_state))
      \<or> PostMessage ''general'' ''pending-7-1'' \<in> set (tasks sample_state)
      \<or> PostGif ''general'' ''pending-7-1'' \<in> set (tasks sample_state)"
    using waiting_has_request [OF sample_reachable sample_conv_at, of ?m] by simp
  moreover have "tasks sample_state = [PostMessage ''general'' ''pending-7-1'']" by code_simp
  ultimately show ?thesis by simp
qed

text \<open>
  C3: nothing loads for ever: a conversation whose first page is not there has its request
  outstanding, one that shows the older-messages spinner has that request outstanding, and so
  once no request is outstanding every conversation is loaded, idle and without waiting messages.
\<close>
theorem no_stuck_loading:
  assumes "reachable rank a" and "conv_at (chat a) ch = Some c"
  shows "(loaded c \<or> LoadMessages ch \<in> set (tasks a))
    \<and> (\<not> loadingOlder c \<or> (\<exists>oldest. LoadOlder ch oldest \<in> set (tasks a)))
    \<and> (tasks a \<noteq> [] \<or> (loaded c \<and> \<not> loadingInitial c \<and> \<not> loadingOlder c \<and> waiting_ids (items c) = {}))"
  using reachable_conv [OF assms] by (auto simp: conv_inv_def wf_conv_def sending_def)

lemma no_stuck_loading_witness:
  "loaded sample_conv \<or> LoadMessages ''general'' \<in> set (tasks sample_state)"
  using no_stuck_loading [OF sample_reachable sample_conv_at] by blast

section \<open>Loading a channel\<close>

text \<open>The buffer of a loading conversation holds the first delivery of every message.\<close>

definition keep_first :: "msg list \<Rightarrow> msg list \<Rightarrow> msg list" where
  "keep_first = fold (\<lambda>m acc. if m_id m \<in> set (ids_of acc) then acc else acc @ [m])"

definition first_by_id :: "msg list \<Rightarrow> msg list" where
  "first_by_id ms = keep_first ms []"

lemma pending_buffer: "or_empty (pending (buffer_msg m c)) = keep_first [m] (or_empty (pending c))"
  by (simp add: buffer_msg_def keep_first_def)

lemma buffered_run:
  assumes "list_all (\<lambda>m. m_channel_id m = ch) ms" and "conv_at s ch = Some c" and "\<not> loaded c"
  shows "\<exists>c'. conv_at (fold (applyMessageCreate me) ms s) ch = Some c' \<and> \<not> loaded c'
    \<and> or_empty (pending c') = keep_first ms (or_empty (pending c))"
  using assms
proof (induction ms arbitrary: s c)
  case Nil
  then show ?case by (simp add: keep_first_def)
next
  case (Cons m ms)
  let ?s = "applyMessageCreate me m s"
  have s: "conv_at ?s ch = Some (buffer_msg m c)"
    using Cons.prems by (simp add: conv_at_def create_conv_def)
  have "keep_first (m # ms) acc = keep_first ms (keep_first [m] acc)" for acc
    by (simp add: keep_first_def)
  then show ?case using Cons.IH [OF _ s] Cons.prems pending_buffer [of m c] by simp
qed

lemma first_by_id_ids: "set (ids_of (first_by_id ms)) = set (ids_of ms)"
proof -
  have "set (ids_of (keep_first ms acc)) = set (ids_of ms) \<union> set (ids_of acc)" for acc
    by (induction ms arbitrary: acc) (auto simp: keep_first_def)
  then show ?thesis by (simp add: first_by_id_def)
qed

lemma filter_ids: "set (ids_of (filter (\<lambda>m. m_id m \<notin> A) ms)) = set (ids_of ms) - A"
  by auto

text \<open>
  C4: messages created while a channel loads are not lost and not doubled. Opening a channel that
  is not loaded, then any live messages for it, then the page: the conversation shows the page,
  oldest first, followed by the live messages the page does not hold, each once, in order of
  their first delivery; so every live message is shown.
\<close>
theorem loading_merges_live:
  assumes "conv_at (chat a) ch = None" and "list_all (\<lambda>m. m_channel_id m = ch) ms"
    and "b = setc (fold (applyMessageCreate me) ms) (loadMessages ch a)"
  shows "\<exists>c. conv_at (chat (loadMessages_ok ch page b)) ch = Some c \<and> loaded c
    \<and> items c = rev page @ filter (\<lambda>m. m_id m \<notin> set (ids_of page)) (first_by_id ms)
    \<and> set (ids_of (items c)) = set (ids_of page) \<union> set (ids_of ms)"
proof -
  have "conv_at (chat (loadMessages ch a)) ch = Some loadingConv"
    using assms(1) by (simp add: loadMessages_def conv_at_def)
  from buffered_run [OF assms(2) this, of me] obtain c where
    c: "oget (messagesByChannel (chat b)) ch = Some c" "or_empty (pending c) = first_by_id ms"
    using assms(3) by (auto simp: conv_at_def loadingConv_def first_by_id_def)
  have m: "mergeInitial page (Some c) = (freshConv page)\<lparr>items :=
      rev page @ filter (\<lambda>m. m_id m \<notin> set (ids_of page)) (first_by_id ms)\<rparr>"
    using c(2) by (simp add: mergeInitial_def Let_def freshConv_def)
  have "set (ids_of (rev page @ filter (\<lambda>m. m_id m \<notin> set (ids_of page)) (first_by_id ms))) =
      set (ids_of page) \<union> set (ids_of ms)"
    unfolding map_append set_append filter_ids first_by_id_ids by auto
  then show ?thesis using c(1) m
    by (simp add: loadMessages_ok_def conv_at_def freshConv_def image_Un)
qed

lemma loading_merges_live_witness:
  "\<exists>c. conv_at (chat (loadMessages_ok ''general'' [sample_msg ''m1'' ''bob'' ''yo'']
      (setc (fold (applyMessageCreate None) [sample_msg ''m2'' ''bob'' ''hey''])
        (loadMessages ''general'' (initial_client None))))) ''general'' = Some c
    \<and> set (ids_of (items c)) = {''m1'', ''m2''}"
  using loading_merges_live [of "initial_client None" "''general''" "[sample_msg ''m2'' ''bob'' ''hey'']"
      _ None "[sample_msg ''m1'' ''bob'' ''yo'']"]
  by (auto simp: initial_client_def initial_chat_def conv_at_def sample_msg_def)

section \<open>Sending\<close>

lemma resolve_conv:
  "conv_at (resolveOptimistic ch i m s) k =
    (if k = ch then map_option (\<lambda>c. c\<lparr>items := resolve_items i m (items c)\<rparr>) (conv_at s ch) else conv_at s k)"
  by (simp add: conv_at_def resolveOptimistic_def)

lemma create_conv_at:
  "conv_at (applyMessageCreate me m s) k =
    (if k = m_channel_id m then map_option (create_conv me m) (conv_at s k) else conv_at s k)"
  by (simp add: conv_at_def)



text \<open>The reply \<open>r\<close> to the newest request.\<close>

definition answer :: "reply \<Rightarrow> client \<Rightarrow> client" where
  "answer r a = resume (last (tasks a)) r (a\<lparr>tasks := butlast (tasks a)\<rparr>)"

lemma sendNext_fields:
  "tasks (sendNext ch t c [] atts a) = tasks a @ [PostMessage ch t]"
  "sent (sendNext ch t c [] atts a) = sent a @
     [\<lparr>rq_method = ''POST'', rq_path = channelPath ch ''/messages'',
       rq_body = MessageBody c (if atts = [] then None else Some atts)\<rparr>]"
  "answer (AttachmentReply x) (sendNext ch t c (f # fs) atts a) =
     sendNext ch t c fs (atts @ [x]) (a\<lparr>sent := sent a @
       [\<lparr>rq_method = ''POST'', rq_path = channelPath ch ''/attachments'', rq_body = FileBody f\<rparr>]\<rparr>)"
  by (simp_all add: sendNext_def postMessage_def call_def answer_def resume_def)

text \<open>
  C6: sending posts what was typed and what was picked. Replying to the uploads of a send one by
  one, the client issues one upload per file in the order of the files and then one POST, whose
  body carries the content and exactly the uploaded attachments, in order (none at all, rather
  than an empty list, for a message without files), and it then waits for that POST alone.
\<close>
theorem send_uploads_then_posts:
  assumes "length xs = length files"
  shows "sent (fold (\<lambda>x. answer (AttachmentReply x)) xs (sendNext ch temp content files atts a)) = sent a
      @ map (\<lambda>f. \<lparr>rq_method = ''POST'', rq_path = channelPath ch ''/attachments'', rq_body = FileBody f\<rparr>) files
      @ [\<lparr>rq_method = ''POST'', rq_path = channelPath ch ''/messages'',
          rq_body = MessageBody content (if atts @ xs = [] then None else Some (atts @ xs))\<rparr>]
    \<and> tasks (fold (\<lambda>x. answer (AttachmentReply x)) xs (sendNext ch temp content files atts a))
      = tasks a @ [PostMessage ch temp]"
  using assms
proof (induction xs files arbitrary: atts a rule: list_induct2)
  case Nil
  then show ?case by (simp add: sendNext_fields)
next
  case (Cons x xs f fs)
  then show ?case by (simp add: sendNext_fields)
qed

lemma send_uploads_then_posts_witness:
  "let f = \<lparr>f_name = ''a.png'', f_size = 3, f_type = ''image/png''\<rparr>
   in length (sent (fold (\<lambda>x. answer (AttachmentReply x)) [placeholder f] (sendNext ''c'' ''t'' [] [f] [] sample_state)))
      = length (sent sample_state) + 2"
  using send_uploads_then_posts [of "[placeholder \<lparr>f_name = ''a.png'', f_size = 3, f_type = ''image/png''\<rparr>]"
      "[\<lparr>f_name = ''a.png'', f_size = 3, f_type = ''image/png''\<rparr>]"] by simp

text \<open>
  C7: a failed upload or POST is visible and ends the send: the optimistic entry is marked
  failed, everything else of the conversation stays, the error is toasted, and no further request
  is issued.
\<close>
theorem failed_send_marks:
  "\<exists>f. (\<forall>m. m_id m = temp \<longrightarrow> f m = m\<lparr>m_failed := True\<rparr>) \<and> (\<forall>m. m_id m \<noteq> temp \<longrightarrow> f m = m)
    \<and> (\<forall>t \<in> {Upload ch temp content rest atts, PostMessage ch temp, PostGif ch temp}.
        let b = resume t (Err e) a
        in conv_at (chat b) ch = map_option (\<lambda>c. c\<lparr>items := map f (items c)\<rparr>) (conv_at (chat a) ch)
          \<and> (\<forall>k. k \<noteq> ch \<longrightarrow> conv_at (chat b) k = conv_at (chat a) k)
          \<and> map t_message (toasts (toastState b)) = map t_message (toasts (toastState a)) @ [e]
          \<and> sent b = sent a \<and> tasks b = tasks a)"
  by (rule exI [of _ "\<lambda>m. if m_id m = temp then m\<lparr>m_failed := True\<rparr> else m"])
    (simp add: resume_def sendFailed_def markFailed_def conv_at_def toastc_def setc_def toast_def push_def Let_def)

lemma failed_send_marks_witness:
  "map t_message (toasts (toastState (resume (PostGif ''c'' ''t'') (Err ''no'') sample_state))) =
    map t_message (toasts (toastState sample_state)) @ [''no'']"
  using failed_send_marks [of "''t''" "''c''" _ _ _ "''no''" sample_state] by (auto simp: Let_def)

section \<open>Reactions\<close>

lemma find_map_ids:
  "(\<And>m. m_id (g m) = m_id m) \<Longrightarrow>
   List.find (\<lambda>m. m_id m = i) (map g ms) = map_option g (List.find (\<lambda>m. m_id m = i) ms)"
  by (induction ms) auto

definition react :: "string \<Rightarrow> bool \<times> reaction_event \<Rightarrow> msg \<Rightarrow> msg" where
  "react my e m = (case e of (add, ev) \<Rightarrow>
     if add then react_add (re_user_id ev = my) (re_emoji ev) (re_user_id ev) m
     else react_remove (re_user_id ev = my) (re_emoji ev) (re_user_id ev) m)"

definition concerns :: "string \<Rightarrow> string \<Rightarrow> bool \<times> reaction_event \<Rightarrow> bool" where
  "concerns ch i e \<longleftrightarrow> re_channel_id (snd e) = ch \<and> re_message_id (snd e) = i"

lemma apply_reaction_msg:
  "msg_at (apply_reaction add (Some u) ev s) ch i =
    (if concerns ch i (add, ev) then map_option (react (u_id u) (add, ev)) (msg_at s ch i) else msg_at s ch i)"
proof -
  let ?g = "\<lambda>m. if m_id m \<noteq> re_message_id ev then m else react (u_id u) (add, ev) m"
  have id: "m_id (?g m) = m_id m" for m by (simp add: react_def)
  have s: "apply_reaction add (Some u) ev s = withItems s (re_channel_id ev) (map ?g)"
    by (cases add) (simp_all add: apply_reaction_def applyReactionAdd_def applyReactionRemove_def react_def cong: if_cong)
  have m: "m_id m = i" if "List.find (\<lambda>m. m_id m = i) ms = Some m" for ms m
    using find_Some_set [OF that] by simp
  have f: "List.find (\<lambda>m. m_id m = i) (map ?g ms) =
      (if re_message_id ev = i then map_option (react (u_id u) (add, ev)) (List.find (\<lambda>m. m_id m = i) ms)
       else List.find (\<lambda>m. m_id m = i) ms)" for ms
    unfolding find_map_ids [of ?g, OF id] using m [of ms]
    by (cases "List.find (\<lambda>m. m_id m = i) ms") auto
  show ?thesis
    unfolding s msg_at_def conv_at_def concerns_def withItems_get
    using f by (cases "oget (messagesByChannel s) (re_channel_id ev)") auto
qed

text \<open>The specification: the set of users per emoji of one message.\<close>

definition spec_react :: "string \<Rightarrow> string \<Rightarrow> bool \<times> reaction_event \<Rightarrow> (string \<Rightarrow> string set) \<Rightarrow> string \<Rightarrow> string set" where
  "spec_react ch i e S = (if \<not> concerns ch i e then S
     else S(re_emoji (snd e) := (if fst e then insert (re_user_id (snd e)) (S (re_emoji (snd e)))
                                 else S (re_emoji (snd e)) - {re_user_id (snd e)})))"

definition reaction_stream :: "user \<Rightarrow> (bool \<times> reaction_event) list \<Rightarrow> chat \<Rightarrow> chat" where
  "reaction_stream me = fold (\<lambda>(add, ev). apply_reaction add (Some me) ev)"

lemma react_refines:
  "complete my (reactions_of m) \<Longrightarrow> concerns ch i e \<Longrightarrow> complete my (reactions_of (react my e m))
    \<and> reactors (reactions_of (react my e m)) = spec_react ch i e (reactors (reactions_of m))"
  using react_add_refines react_remove_refines
  by (cases e) (auto simp: react_def spec_react_def)

lemma stream_refines:
  assumes "msg_at s ch i = Some m" and "complete (u_id me) (reactions_of m)"
  shows "\<exists>m'. msg_at (reaction_stream me es s) ch i = Some m' \<and> complete (u_id me) (reactions_of m')
    \<and> reactors (reactions_of m') = fold (spec_react ch i) es (reactors (reactions_of m))"
  using assms
proof (induction es arbitrary: s m)
  case Nil
  then show ?case by (simp add: reaction_stream_def)
next
  case (Cons e es)
  obtain b ev where e: "e = (b, ev)" by (cases e)
  let ?s = "apply_reaction b (Some me) ev s"
  have step: "reaction_stream me (e # es) s = reaction_stream me es ?s" by (simp add: reaction_stream_def e)
  show ?case
  proof (cases "concerns ch i e")
    case True
    have "msg_at ?s ch i = Some (react (u_id me) e m)"
      using Cons.prems True e by (simp add: apply_reaction_msg)
    then show ?thesis
      using Cons.IH react_refines [OF Cons.prems(2) True] step by fastforce
  next
    case False
    then have "msg_at ?s ch i = Some m" using Cons.prems e by (simp add: apply_reaction_msg)
    then show ?thesis using Cons.IH Cons.prems(2) False step by (simp add: spec_react_def)
  qed
qed



lemma had_me:
  assumes "complete my rs"
  shows "(case List.find (\<lambda>r. r_emoji r = e) rs of None \<Rightarrow> False | Some r \<Rightarrow> r_me r) \<longleftrightarrow> my \<in> reactors rs e"
proof (cases "List.find (\<lambda>r. r_emoji r = e) rs")
  case None
  then have "e \<notin> r_emoji ` set rs" by (auto simp: find_None_set)
  then show ?thesis using None by (simp add: reactors_none)
next
  case (Some r)
  then have "r \<in> set rs" "r_emoji r = e" using find_Some_set by fastforce+
  then show ?thesis using Some complete_entry [OF assms, of r] by (simp add: full_entry_def)
qed

definition own_event :: "string \<Rightarrow> string \<Rightarrow> string \<Rightarrow> user \<Rightarrow> reaction_event" where
  "own_event ch i e u = \<lparr>re_channel_id = ch, re_message_id = i, re_emoji = e, re_user_id = u_id u\<rparr>"

lemma own_event_simps [simp]:
  "concerns ch i (b, own_event ch i e u)" "re_emoji (own_event ch i e u) = e"
  "re_user_id (own_event ch i e u) = u_id u"
  by (simp_all add: own_event_def concerns_def)

lemma toggle_unfold:
  assumes "authUser a = Some me" and "emoji \<noteq> []" and "msg_at (chat a) ch i = Some m"
    and "\<not> m_optimistic m" and c: "complete (u_id me) (reactions_of m)"
  shows "toggleReaction ch i emoji a =
    (let had = u_id me \<in> reactors (reactions_of m) emoji; ev = own_event ch i emoji me
     in call (if had then ''DELETE'' else ''PUT'') (reactionPath ev) NoBody (ToggleReaction had ev)
          (setc (apply_reaction (\<not> had) (Some me) ev) a))"
  using assms(1-4) had_me [OF c, of emoji]
  by (simp add: toggleReaction_def own_event_def msg_at_def conv_at_def Let_def)

text \<open>
  Clicking a reaction flips the user's membership at once and asks the server for the same
  thing: a PUT when the user was not among the reactors, a DELETE when they were.
\<close>
theorem toggle_flips:
  assumes "authUser a = Some me" and "emoji \<noteq> []" and "msg_at (chat a) ch i = Some m"
    and "\<not> m_optimistic m" and "complete (u_id me) (reactions_of m)"
  shows "\<exists>m'. msg_at (chat (toggleReaction ch i emoji a)) ch i = Some m'
    \<and> (u_id me \<in> reactors (reactions_of m') emoji \<longleftrightarrow> u_id me \<notin> reactors (reactions_of m) emoji)
    \<and> (\<forall>u. u \<noteq> u_id me \<longrightarrow> (u \<in> reactors (reactions_of m') emoji \<longleftrightarrow> u \<in> reactors (reactions_of m) emoji))
    \<and> sent (toggleReaction ch i emoji a) = sent a @
        [\<lparr>rq_method = if u_id me \<in> reactors (reactions_of m) emoji then ''DELETE'' else ''PUT'',
          rq_path = reactionPath (own_event ch i emoji me), rq_body = NoBody\<rparr>]"
proof -
  let ?had = "u_id me \<in> reactors (reactions_of m) emoji" and ?ev = "own_event ch i emoji me"
  have k: "concerns ch i (\<not> ?had, ?ev)" by (simp add: concerns_def own_event_def)
  show ?thesis
    using react_refines [OF assms(5) k] k assms(3)
    by (simp add: toggle_unfold [OF assms] Let_def apply_reaction_msg)
      (simp add: spec_react_def call_def setc_def)
qed

lemma toggle_flips_witness:
  "\<exists>m'. msg_at (chat (toggleReaction ''general'' ''m1'' ''x'' sample_state)) ''general'' ''m1'' = Some m'
    \<and> ''ada'' \<in> reactors (reactions_of m') ''x''"
proof -
  let ?m = "sample_msg ''m1'' ''bob'' ''yo''"
  have "authUser sample_state = Some ada" "''x'' \<noteq> []" "msg_at (chat sample_state) ''general'' ''m1'' = Some ?m"
    "\<not> m_optimistic ?m" "complete (u_id ada) (reactions_of ?m)" by code_simp+
  note t = toggle_flips [OF this]
  have "''ada'' \<notin> reactors (reactions_of ?m) ''x''" "u_id ada = ''ada''"
    by (simp_all add: sample_msg_def ada_def)
  then show ?thesis using t by auto
qed

lemma spec_react_commute:
  "re_user_id (snd x) \<noteq> re_user_id (snd y) \<Longrightarrow>
   spec_react ch i x (spec_react ch i y S) = spec_react ch i y (spec_react ch i x S)"
  by (auto simp: spec_react_def fun_eq_iff)

lemma spec_fold_commute:
  "\<forall>x \<in> set es. re_user_id (snd x) \<noteq> re_user_id (snd y) \<Longrightarrow>
   fold (spec_react ch i) es (spec_react ch i y S) = spec_react ch i y (fold (spec_react ch i) es S)"
proof (induction es arbitrary: S)
  case Nil
  then show ?case by simp
next
  case (Cons x es)
  then have "spec_react ch i x (spec_react ch i y S) = spec_react ch i y (spec_react ch i x S)"
    by (intro spec_react_commute) simp
  then show ?case using Cons by simp
qed

lemma spec_react_undo:
  "had \<longleftrightarrow> u_id me \<in> S e \<Longrightarrow>
   spec_react ch i (had, own_event ch i e me) (spec_react ch i (\<not> had, own_event ch i e me) S) = S"
  by (auto simp: spec_react_def fun_eq_iff)



section \<open>Gateway events\<close>

fun redeliverable_event :: "gateway_event \<Rightarrow> bool" where
  "redeliverable_event (MESSAGE_REACTION_REMOVE ev) = False"
| "redeliverable_event (EFFECT u g k) = False"
| "redeliverable_event (GUILD_MEMBER_ADD m) = truthy (mb_guild_id m)"
| "redeliverable_event _ = True"

lemma setc_idem: "(\<And>s. f (f s) = f s) \<Longrightarrow> setc f (setc f a) = setc f a"
  by (simp add: setc_def)

lemma typing_idem: "applyTypingStart me now ch u n (applyTypingStart me now ch u n s) = applyTypingStart me now ch u n s"
  by (cases "oget (typingByChannel s) ch") (auto simp: applyTypingStart_def)



lemma msg_at_None: "msg_at s ch i = None \<longleftrightarrow> (\<forall>c. conv_at s ch = Some c \<longrightarrow> i \<notin> set (ids_of (items c)))"
  by (cases "conv_at s ch") (auto simp: msg_at_def find_None_set)

lemma withItems_absent:
  assumes "msg_at s ch i = None" and "\<And>ms. set (ids_of (f ms)) \<subseteq> set (ids_of ms)"
  shows "msg_at (withItems s k f) ch i = None"
  unfolding msg_at_None
proof (intro allI impI)
  fix c assume "conv_at (withItems s k f) ch = Some c"
  then obtain d where d: "conv_at s ch = Some d" "items c = items d \<or> items c = f (items d)"
    by (auto simp: conv_at_def split: if_splits)
  have "i \<notin> set (ids_of (items d))" using assms(1) d(1) by (simp add: msg_at_None)
  then show "i \<notin> set (ids_of (items c))" using d(2) subsetD [OF assms(2) [of "items d"], of i] by metis
qed

lemma same_messages: "messagesByChannel s' = messagesByChannel s \<Longrightarrow> msg_at s' ch i = msg_at s ch i"
  by (simp add: msg_at_def conv_at_def)

fun creates :: "string \<Rightarrow> gateway_event \<Rightarrow> bool" where
  "creates i (MESSAGE_CREATE m) = (m_id m = i)"
| "creates i _ = False"

lemma create_absent:
  assumes "msg_at s ch i = None" and "m_id m \<noteq> i"
  shows "msg_at (applyMessageCreate me m s) ch i = None"
proof -
  have "i \<notin> set (ids_of (items (create_conv me m c)))" if "i \<notin> set (ids_of (items c))" for c
    using create_edit.edit_ids [of me m "items c"] that assms(2) by (auto simp: create_conv_def buffer_msg_def)
  then show ?thesis using assms(1) unfolding msg_at_None create_conv_at by auto
qed

lemma event_absent:
  assumes "msg_at (chat a) ch i = None" and "\<not> creates i ev"
  shows "msg_at (chat (handleGatewayEvent now ev a)) ch i = None"
proof (cases ev)
  case (MESSAGE_CREATE m)
  then show ?thesis using assms create_absent by simp
next
  case (MESSAGE_UPDATE m)
  then show ?thesis using assms replace_edit.edit_ids [of m]
    by (simp add: applyMessageUpdate_def withItems_absent)
next
  case (MESSAGE_DELETE j k)
  have "set (ids_of (filter (\<lambda>m. m_id m \<noteq> j) ms)) \<subseteq> set (ids_of ms)" for ms by auto
  then show ?thesis using assms MESSAGE_DELETE by (simp add: applyMessageDelete_def withItems_absent)
next
  case (MESSAGE_REACTION_ADD x)
  have "msg_at (applyReactionAdd me x s) ch i = None" if "msg_at s ch i = None" for me s
    unfolding applyReactionAdd_def using that
    by (rule withItems_absent) (use add_edit.edit_ids in simp)
  then show ?thesis using assms(1) MESSAGE_REACTION_ADD by simp
next
  case (MESSAGE_REACTION_REMOVE x)
  have "msg_at (applyReactionRemove me x s) ch i = None" if "msg_at s ch i = None" for me s
    unfolding applyReactionRemove_def using that
    by (rule withItems_absent) (use remove_edit.edit_ids in simp)
  then show ?thesis using assms(1) MESSAGE_REACTION_REMOVE by simp
next
  case (GUILD_MEMBER_ADD m)
  have "messagesByChannel (chat (applyMemberAdd m a)) = messagesByChannel (chat a)"
    by (simp add: applyMemberAdd_def loadMembers_def split: option.split)
  from same_messages [OF this] show ?thesis using GUILD_MEMBER_ADD assms(1) by simp
next
  case (EFFECT u g k)
  have "chat (playRemote u g k a) = chat a" by (simp add: playRemote_def)
  then show ?thesis using EFFECT assms(1) by simp
qed (use assms(1) in \<open>simp_all add: msg_at_def conv_at_def\<close>)

text \<open>
  C11: a deletion is final: once \<open>MESSAGE_DELETE\<close> has been handled, no gateway event except a new
  creation of that very id makes the message appear again, in particular no late edit or
  reaction.
\<close>
theorem delete_is_final:
  assumes "\<forall>(now, ev) \<in> set es. \<not> creates i ev"
  shows "msg_at (chat (fold (\<lambda>(now, ev). handleGatewayEvent now ev) es
    (handleGatewayEvent t (MESSAGE_DELETE i ch) a))) ch i = None"
proof -
  have "msg_at (chat (fold (\<lambda>(now, ev). handleGatewayEvent now ev) es b)) ch i = None"
    if "msg_at (chat b) ch i = None" for b
    using assms that by (induction es arbitrary: b) (auto simp: event_absent)
  moreover have "msg_at (applyMessageDelete i ch s) ch i = None" for s
    by (auto simp: msg_at_None conv_at_def applyMessageDelete_def)
  ultimately show ?thesis by simp
qed

lemma delete_is_final_witness:
  "msg_at (chat (fold (\<lambda>(now, ev). handleGatewayEvent now ev)
     [(0, MESSAGE_UPDATE (sample_msg ''m1'' ''bob'' ''edited''))]
     (handleGatewayEvent 0 (MESSAGE_DELETE ''m1'' ''general'') sample_state))) ''general'' ''m1'' = None"
  by (rule delete_is_final) simp

end
