(* ===== verification/Chat_Navigation.thy ===== *)
theory Chat_Navigation imports Chat_Properties
begin

text \<open>
  Navigation (which channel \<open>selectGuild\<close> opens, what a late reply may change), paging (the
  requests of \<open>loadMessages\<close> and \<open>loadOlder\<close>), typing indicators, notifications and effects.
\<close>

section \<open>Opening a guild\<close>

text \<open>
  Opening a guild never points the message pane at a voice channel: the channel opened is a
  text channel of the guild, it is the one last opened there if that is still a text channel of
  the guild and the first text channel otherwise, and no channel is opened only if the guild has
  no text channel.
\<close>
theorem opened_channel:
  "case selectTarget remembered cs of
     None \<Rightarrow> list_all (\<lambda>c. ch_type c = ''voice'') cs
   | Some i \<Rightarrow> (\<exists>c \<in> set cs. ch_id c = i \<and> ch_type c \<noteq> ''voice'')
       \<and> (if \<exists>c \<in> set cs. Some (ch_id c) = remembered \<and> ch_type c \<noteq> ''voice'' then remembered = Some i
          else \<exists>xs c ys. cs = xs @ c # ys \<and> ch_id c = i \<and> list_all (\<lambda>x. ch_type x = ''voice'') xs)"
proof (cases "\<exists>c \<in> set cs. Some (ch_id c) = remembered \<and> ch_type c \<noteq> ''voice''")
  case True
  then obtain c where "c \<in> set cs" "Some (ch_id c) = remembered" "ch_type c \<noteq> ''voice''" by blast
  moreover from this have "selectTarget remembered cs = Some (ch_id c)"
    by (auto simp: selectTarget_def list_ex_iff is_text_def Let_def)
  ultimately show ?thesis using True by auto
next
  case False
  then have s: "selectTarget remembered cs = map_option ch_id (List.find is_text cs)"
    by (auto simp: selectTarget_def list_ex_iff is_text_def Let_def split: option.split)
  show ?thesis
  proof (cases "List.find is_text cs")
    case None
    then have "\<forall>c \<in> set cs. ch_type c = ''voice''" by (simp add: find_None_set is_text_def)
    then show ?thesis using s None by (simp add: list_all_iff)
  next
    case (Some c)
    then obtain xs ys where "cs = xs @ c # ys" "is_text c" "\<forall>x \<in> set xs. \<not> is_text x"
      using find_Some_split by metis
    then show ?thesis using s Some False by (auto simp: is_text_def list_all_iff)
  qed
qed

text \<open>
  The channel list of a guild the user has left in the meantime is cached and does nothing
  else: it selects nothing, issues no request and leaves every other part of the client alone;
  if the user is still there, it selects the channel of C13.
\<close>
theorem late_channels:
  "let b = resume (SelectGuild g) (ChannelsReply cs) a
   in oget (channelsByGuild (chat b)) g = Some cs
    \<and> selectedGuildId (chat b) = selectedGuildId (chat a)
    \<and> (if selectedGuildId (chat a) = Some g
       then selectedChannelId (chat b) = selectTarget (oget (lastChannelByGuild (chat a)) g) cs
       else b = setc (\<lambda>s. s\<lparr>channelsByGuild := oput g cs (channelsByGuild s)\<rparr>) a)"
proof -
  have lm: "channelsByGuild (chat (loadMessages c x)) = channelsByGuild (chat x)"
    "selectedGuildId (chat (loadMessages c x)) = selectedGuildId (chat x)"
    "selectedChannelId (chat (loadMessages c x)) = selectedChannelId (chat x)" for c x
    by (simp_all add: loadMessages_def)
  have sc: "channelsByGuild (chat (selectChannel c x)) = channelsByGuild (chat x)"
    "selectedGuildId (chat (selectChannel c x)) = selectedGuildId (chat x)"
    "selectedChannelId (chat (selectChannel c x)) = c" for c x
    by (simp_all add: selectChannel_def lm Let_def split: option.split)
  show ?thesis
    by (simp add: resume_def selectGuild_ok_def selectGuild_cont_def loadMembers_def sc Let_def)
qed

section \<open>Paging\<close>

text \<open>The message below which older ones are requested.\<close>

definition oldest_sent :: "conv \<Rightarrow> msg option" where
  "oldest_sent c = List.find (\<lambda>m. \<not> m_optimistic m) (items c)"

lemma loadOlder_cases:
  "loadOlder ch a = (case conv_at (chat a) ch of None \<Rightarrow> a
   | Some c \<Rightarrow> (case oldest_sent c of None \<Rightarrow> a
     | Some m \<Rightarrow> if loaded c \<and> hasMore c \<and> \<not> loadingOlder c
         then call ''GET'' (pagePath ch @ ''&before='' @ m_id m) NoBody (LoadOlder ch (m_id m))
                (setc (\<lambda>s. withConv s ch (\<lambda>cur. cur\<lparr>loadingOlder := True\<rparr>)) a)
         else a))"
  by (simp add: loadOlder_def conv_at_def oldest_sent_def split: option.split)

text \<open>
  Paging is single-flight and asks for the right page: scrolling up twice in a row, or
  opening a channel twice in a row, issues no second request; the request for older messages is
  issued exactly when the conversation is loaded, has more and is not already loading, and it
  asks for what precedes the oldest message the server knows, never an optimistic one.
\<close>
theorem paging_single_flight:
  "loadOlder ch (loadOlder ch a) = loadOlder ch a \<and> loadMessages ch (loadMessages ch a) = loadMessages ch a
   \<and> (case Option.bind (conv_at (chat a) ch) (\<lambda>c. if loaded c \<and> hasMore c \<and> \<not> loadingOlder c then oldest_sent c else None) of
        None \<Rightarrow> loadOlder ch a = a
      | Some m \<Rightarrow> \<not> m_optimistic m \<and> sent (loadOlder ch a) = sent a @
          [\<lparr>rq_method = ''GET'', rq_path = pagePath ch @ ''&before='' @ m_id m, rq_body = NoBody\<rparr>])"
proof -
  have "loadMessages ch (loadMessages ch a) = loadMessages ch a"
    by (auto simp: loadMessages_def loadingConv_def)
  moreover have "loadOlder ch (loadOlder ch a) = loadOlder ch a"
  proof (cases "loadOlder ch a = a")
    case True
    then show ?thesis by simp
  next
    case False
    then obtain c where "conv_at (chat a) ch = Some c"
      "loadOlder ch a = loadOlder ch a" by (auto simp: loadOlder_cases split: option.splits)
    then have "\<exists>d. conv_at (chat (loadOlder ch a)) ch = Some d \<and> loadingOlder d"
      using False by (auto simp: loadOlder_cases conv_at_def split: option.splits if_splits)
    then show ?thesis by (subst loadOlder_cases) (auto split: option.splits)
  qed
  moreover have "case Option.bind (conv_at (chat a) ch) (\<lambda>c. if loaded c \<and> hasMore c \<and> \<not> loadingOlder c then oldest_sent c else None) of
        None \<Rightarrow> loadOlder ch a = a
      | Some m \<Rightarrow> \<not> m_optimistic m \<and> sent (loadOlder ch a) = sent a @
          [\<lparr>rq_method = ''GET'', rq_path = pagePath ch @ ''&before='' @ m_id m, rq_body = NoBody\<rparr>]"
  proof (cases "conv_at (chat a) ch")
    case None
    then show ?thesis by (simp add: loadOlder_cases)
  next
    case (Some c)
    then show ?thesis
      using find_Some_set [of "\<lambda>m. \<not> m_optimistic m" "items c"]
      by (auto simp: loadOlder_cases oldest_sent_def call_def setc_def split: option.split)
  qed
  ultimately show ?thesis by blast
qed

section \<open>Typing indicators\<close>

text \<open>Typing state over any run of typing events, live messages and clock ticks.\<close>

datatype typing_input = Types int string string string | Speaks msg | Tick int string

fun typing_step :: "user option \<Rightarrow> typing_input \<Rightarrow> chat \<Rightarrow> chat" where
  "typing_step me (Types now ch u n) s = applyTypingStart me now ch u n s"
| "typing_step me (Speaks m) s = applyMessageCreate me m s"
| "typing_step me (Tick now ch) s = pruneTyping now ch s"

interpretation typing_runs: invariant_steps "typing_step me" "wf_typing me" "\<lambda>_. True" for me
proof unfold_locales
  fix s e assume "wf_typing me s"
  then show "wf_typing me (typing_step me e s)"
    by (cases e) (simp_all add: wf_typing_start wf_typing_create wf_typing_prune)
qed

text \<open>
  The typing indicator never shows the user themself and never one person twice, whatever
  events arrive; pruning at an instant removes exactly the entries that have expired by then, so
  it never changes who is shown and leaves nothing behind that is not.
\<close>
theorem typing_indicator:
  assumes "s = fold (typing_step me) es initial_chat"
    and "oget (typingByChannel (pruneTyping now ch s)) ch = Some t"
  shows "distinct (map fst t) \<and> (\<forall>u \<in> fst ` set t. \<not> is_me me u)
    \<and> (\<forall>(u, v) \<in> set t. now < ty_until v)
    \<and> activeTyping now ch (pruneTyping now ch s) = activeTyping now ch s"
proof -
  have "wf_typing me (pruneTyping now ch s)"
    unfolding assms(1) by (intro wf_typing_prune typing_runs.run) (simp_all add: wf_typing_def initial_chat_def list_all_iff)
  then have "wf_entries me t" using assms(2) by (simp add: wf_typing_def)
  then show ?thesis using prune_only_active [OF assms(2)] prune_active
    by (auto simp: wf_entries_def)
qed

lemma typing_indicator_witness:
  "activeTyping 5 ''c'' (pruneTyping 5 ''c'' (fold (typing_step (Some ada)) [Types 0 ''c'' ''bob'' ''Bob''] initial_chat))
   = [\<lparr>ty_username = ''Bob'', ty_until = 10000\<rparr>]"
proof -
  let ?s = "fold (typing_step (Some ada)) [Types 0 ''c'' ''bob'' ''Bob''] initial_chat"
  have "oget (typingByChannel (pruneTyping 5 ''c'' ?s)) ''c'' = Some [(''bob'', \<lparr>ty_username = ''Bob'', ty_until = 10000\<rparr>)]"
    by code_simp
  from typing_indicator [OF refl this] have
    "activeTyping 5 ''c'' (pruneTyping 5 ''c'' ?s) = activeTyping 5 ''c'' ?s" by blast
  moreover have "activeTyping 5 ''c'' ?s = [\<lparr>ty_username = ''Bob'', ty_until = 10000\<rparr>]" by code_simp
  ultimately show ?thesis by simp
qed

section \<open>Notifications and effects\<close>

text \<open>
  Every notification goes away: after any run of pushes, dismissals and expiries, the toasts
  have distinct ids and letting the pending timers fire empties the screen.
\<close>
theorem toasts_expire:
  "let ts = fold toast_step es initial_toasts
   in distinct (map t_id (toasts ts)) \<and> toasts (fold expire (timers ts) ts) = []"
proof -
  have "wf_toasts (fold toast_step es initial_toasts)"
    by (rule toast_runs.run [OF wf_initial_toasts]) (simp add: list_all_iff)
  then show ?thesis using expire_all by (simp add: Let_def wf_toasts_def)
qed

text \<open>
  An effect event from the gateway plays exactly when it comes from someone else and
  concerns the selected guild (or none), and then with a token different from the last one, so
  that the overlay never misses a repeated effect; the user's own echo plays nothing.
\<close>
theorem remote_effects:
  assumes "fx_inv (fx a)" and "kind \<in> set EFFECT_TYPES"
  shows "let b = handleGatewayEvent now (EFFECT u g kind) a
    in fx_inv (fx b) \<and> chat b = chat a \<and> sent b = sent a
      \<and> (if is_me (authUser a) u \<or> (truthy g \<and> g \<noteq> selectedGuildId (chat a)) then fx b = fx a
         else lastEffect (fx b) = Some (kind, nonce (fx a) + 1) \<and> lastEffect (fx b) \<noteq> lastEffect (fx a))"
proof -
  have "lastEffect (fx a) \<noteq> Some (kind, nonce (fx a) + 1)"
    using assms(1) by (auto simp: fx_inv_def)
  then show ?thesis using assms
    by (auto simp: playRemote_def Let_def playLocal_fresh fx_inv_playLocal)
qed

lemma remote_effects_witness:
  "lastEffect (fx (handleGatewayEvent 0 (EFFECT ''bob'' None ''snow'') sample_state)) = Some (''snow'', 1)"
proof -
  have "fx_inv (fx sample_state)" "''snow'' \<in> set EFFECT_TYPES" by code_simp+
  note e = remote_effects [OF this, of 0 "''bob''" None]
  have "\<not> is_me (authUser sample_state) ''bob''" "nonce (fx sample_state) = 0" by code_simp+
  then show ?thesis using e by (simp add: Let_def)
qed

end
