(* ===== verification/Chat_Findings.thy ===== *)
theory Chat_Findings imports Chat_Navigation
begin

text \<open>
  Runs in which the message store ends up somewhere its code does not mean to be. Each is a
  concrete sequence of events with replies the server really sends, evaluated on the model.
\<close>

definition play :: "event list \<Rightarrow> client" where
  "play es = fold handle es (initial_client (Some ada))"

definition sample_guild :: guild where
  "sample_guild = \<lparr>g_id = ''g'', g_name = ''G'', g_owner_id = ''ada'', g_icon_url = []\<rparr>"

definition sample_channel :: "string \<Rightarrow> string \<Rightarrow> channel" where
  "sample_channel i kind = \<lparr>ch_id = i, ch_guild_id = ''g'', ch_name = i, ch_type = kind, ch_topic = []\<rparr>"

text \<open>
  A message deleted while its channel loads comes back: the page was read before the
  deletion, the event finds nothing to delete, and the page is shown as it was read. Nothing is
  outstanding afterwards, so the ghost stays until the store is rebuilt.
\<close>
theorem deleted_while_loading_returns:
  "let a = play [DoSelectChannel (Some ''general''), Gateway 0 (MESSAGE_DELETE ''m1'' ''general''),
                 Reply 0 (MessagesReply [sample_msg ''m1'' ''bob'' ''secret''])]
   in msg_at (chat a) ''general'' ''m1'' = Some (sample_msg ''m1'' ''bob'' ''secret'') \<and> tasks a = []"
  by code_simp

text \<open>
  A message whose sending fails while its channel loads disappears: the page replaces the
  items, the optimistic entry with them, so there is nothing to mark as failed or to retry.
\<close>
theorem failed_send_while_loading_is_lost:
  "let a = play [DoSelectChannel (Some ''general''), DoSendMessage ''general'' ''g'' ''hello'' [] 7,
                 Reply 0 (MessagesReply []), Reply 0 (Err ''offline'')]
   in conv_at (chat a) ''general'' = Some (freshConv []) \<and> tasks a = []"
  by code_simp

text \<open>
  A channel opened while a re-synchronisation runs is left without messages: the
  re-synchronisation installs only the channel that was open when it started, so the open
  channel has no conversation and no request, and the pane has nothing to wait for.
\<close>
theorem resync_empties_open_channel:
  "let a = play [DoLoadGuilds, Reply 0 (GuildsReply [sample_guild]),
       Reply 0 (ChannelsReply [sample_channel ''general'' ''text'', sample_channel ''random'' ''text'']),
       Reply 0 (MessagesReply []), Reply 0 (MembersReply []),
       DoResync, Reply 0 (GuildsReply [sample_guild]),
       Reply 0 (ChannelsMembersReply [sample_channel ''general'' ''text'', sample_channel ''random'' ''text''] []),
       DoSelectChannel (Some ''random''), Reply 1 (MessagesReply [sample_msg ''m1'' ''bob'' ''hi'']),
       Reply 0 (MessagesReply [])]
   in selectedChannelId (chat a) = Some ''random'' \<and> conv_at (chat a) ''random'' = None \<and> tasks a = []"
  by code_simp

text \<open>
  A re-synchronisation that finds the open channel gone opens the first channel of the
  guild even if it is a voice channel, which \<open>selectGuild\<close> and \<open>createChannel\<close> take care never
  to do, and asks the server for its messages.
\<close>
theorem resync_opens_voice_channel:
  "let a = play [DoLoadGuilds, Reply 0 (GuildsReply [sample_guild]),
       Reply 0 (ChannelsReply [sample_channel ''general'' ''text'']),
       Reply 0 (MessagesReply []), Reply 0 (MembersReply []),
       DoResync, Reply 0 (GuildsReply [sample_guild]),
       Reply 0 (ChannelsMembersReply [sample_channel ''lounge'' ''voice'', sample_channel ''random'' ''text''] []),
       Reply 0 (MessagesReply [])]
   in selectedChannelId (chat a) = Some ''lounge'' \<and> rq_path (last (sent a)) = pagePath ''lounge''"
  by code_simp

text \<open>
  A live message that arrives while a re-synchronisation reads its page is lost: it is shown,
  then the page read before it replaces the conversation.
\<close>
theorem resync_loses_live_message:
  "let a = play [DoLoadGuilds, Reply 0 (GuildsReply [sample_guild]),
       Reply 0 (ChannelsReply [sample_channel ''general'' ''text'']),
       Reply 0 (MessagesReply []), Reply 0 (MembersReply []),
       DoResync, Reply 0 (GuildsReply [sample_guild]),
       Reply 0 (ChannelsMembersReply [sample_channel ''general'' ''text''] []),
       Gateway 0 (MESSAGE_CREATE (sample_msg ''m1'' ''bob'' ''hi'')),
       Reply 0 (MessagesReply [])]
   in conv_at (chat a) ''general'' = Some (freshConv []) \<and> tasks a = []"
  by code_simp

lemma fresh_oldest:
  assumes "server_page page" and "PAGE_SIZE \<le> length page"
  shows "oldest_sent (freshConv page) = Some (last page)"
proof -
  have "page \<noteq> []" using assms(2) by (auto simp: PAGE_SIZE_def)
  then obtain ms m where page: "page = ms @ [m]" by (cases page rule: rev_cases) auto
  then have "\<not> m_optimistic m" using assms(1) by (simp add: server_page_def server_msg_def)
  then show ?thesis by (simp add: oldest_sent_def freshConv_def page)
qed

text \<open>
  Paging across a re-synchronisation shows the same messages twice: the fresh conversation
  has forgotten that a page is on its way, so scrolling up once more issues the same request a
  second time, and both replies are prepended.
\<close>
theorem resync_duplicates_older_page:
  assumes "conv_at (chat a) ch = Some (freshConv page)" and "server_page page"
    and "PAGE_SIZE \<le> length page"
  shows "let b = loadOlder_ok ch older (loadOlder_ok ch older
      (loadOlder ch (resync_messages p ch page (loadOlder ch a))));
    rq = \<lparr>rq_method = ''GET'', rq_path = pagePath ch @ ''&before='' @ m_id (last page), rq_body = NoBody\<rparr>
    in map_option (\<lambda>c. ids_of (items c)) (conv_at (chat b) ch) =
         Some (ids_of (rev older) @ ids_of (rev older) @ ids_of (rev page))
      \<and> sent b = sent a @ [rq, rq]"
proof -
  note o = fresh_oldest [OF assms(2,3)]
  let ?rq = "\<lparr>rq_method = ''GET'', rq_path = pagePath ch @ ''&before='' @ m_id (last page), rq_body = NoBody\<rparr>"
  have fresh: "loaded (freshConv page)" "hasMore (freshConv page)" "\<not> loadingOlder (freshConv page)"
    using assms(3) by (simp_all add: freshConv_def)
  have step: "loadOlder ch x = call ''GET'' (rq_path ?rq) NoBody (LoadOlder ch (m_id (last page)))
      (setc (\<lambda>s. withConv s ch (\<lambda>cur. cur\<lparr>loadingOlder := True\<rparr>)) x)"
    if "conv_at (chat x) ch = Some (freshConv page)" for x
    using that o fresh by (simp add: loadOlder_cases)
  let ?r = "resync_messages p ch page (loadOlder ch a)"
  have r: "conv_at (chat ?r) ch = Some (freshConv page)"
    by (simp add: resync_messages_def applyPatch_def conv_at_def oget_def)
  have sent_r: "sent ?r = sent a @ [?rq]"
    by (simp add: resync_messages_def setc_def step [OF assms(1)] call_def)
  show ?thesis
    using r sent_r
    by (simp add: Let_def step [OF r] loadOlder_ok_def conv_at_def prependOlder_def rev_map [symmetric])
      (simp add: call_def setc_def freshConv_def rev_map)
qed

lemma resync_duplicates_older_page_witness:
  "\<not> distinct (ids_of (items (the (conv_at (chat (let page = map (\<lambda>n. sample_msg (showNat n) ''bob'' []) [0..<50];
        a = (initial_client None)\<lparr>chat := initial_chat\<lparr>messagesByChannel := [(''general'', freshConv page)]\<rparr>\<rparr>;
        older = [sample_msg ''old'' ''bob'' []]
      in loadOlder_ok ''general'' older (loadOlder_ok ''general'' older
        (loadOlder ''general'' (resync_messages (emptyPatch []) ''general'' page (loadOlder ''general'' a)))))) ''general''))))"
proof -
  let ?page = "map (\<lambda>n. sample_msg (showNat n) ''bob'' []) [0..<50]"
  let ?a = "(initial_client None)\<lparr>chat := initial_chat\<lparr>messagesByChannel := [(''general'', freshConv ?page)]\<rparr>\<rparr>"
  have "inj_on (\<lambda>n. showNat n) {0..<50}" by (auto intro: inj_onI showNat_inj)
  then have "distinct (map (\<lambda>n. showNat n) [0..<50])" by (simp add: distinct_map)
  then have "distinct (ids_of ?page)" by (simp add: sample_msg_def comp_def)
  moreover have "server_msg (sample_msg (showNat n) ''bob'' [])" for n
    using showNat_not_temp [of n] by (simp add: server_msg_def sample_msg_def)
  ultimately have p: "server_page ?page" by (simp add: server_page_def list_all_iff)
  have "conv_at (chat ?a) ''general'' = Some (freshConv ?page)" by (simp add: conv_at_def oget_def)
  from resync_duplicates_older_page [OF this p, of "[sample_msg ''old'' ''bob'' []]" "emptyPatch []"]
  show ?thesis by (auto simp: Let_def PAGE_SIZE_def)
qed

text \<open>
  Reaction counts drift on a message that was loaded rather than delivered live, because its
  reactions come without their users: once somebody else has reacted, the removal of an earlier
  reaction is ignored. With two earlier reactors, an addition and then a removal by one of them
  leave the count at three, where the server counts two.
\<close>
theorem loaded_reaction_count_drifts:
  "let m = (sample_msg ''m1'' ''bob'' ''hi'')\<lparr>m_reactions :=
         Some [\<lparr>r_emoji = ''x'', r_count = 2, r_me = False, r_users = None\<rparr>]\<rparr>;
       ev = (\<lambda>u. \<lparr>re_channel_id = ''general'', re_message_id = ''m1'', re_emoji = ''x'', re_user_id = u\<rparr>);
       a = play [DoSelectChannel (Some ''general''), Reply 0 (MessagesReply [m]),
                 Gateway 0 (MESSAGE_REACTION_ADD (ev ''carl'')), Gateway 0 (MESSAGE_REACTION_REMOVE (ev ''bob''))]
   in map_option (\<lambda>x. map r_count (reactions_of x)) (msg_at (chat a) ''general'' ''m1'') = Some [3]"
  by code_simp

end
