(* ===== verification/Api_Client.thy ===== *)
theory Api_Client imports Auth_Store
begin

text \<open>
  \<open>api.js\<close>: the request core and the silent refresh. A call of \<open>request\<close> is split at its awaits:
  it is pending while its fetch is, it waits for the shared refresh after a 401, and it ends with a
  result. The \<open>fetch\<close> function is the environment: it may answer any outstanding fetch with any
  status, or fail. The promise \<open>refreshInFlight\<close> is a flag and the list of its waiters; the
  microtasks that settle a promise run together, as nothing else can run between them.
\<close>

section \<open>Requests\<close>

definition BASE :: string where
  "BASE = ''/api/v1''"

datatype payload = Undefined | Json string | Form upload_file

record api_request =
  ar_id :: nat
  ar_path :: string
  ar_method :: string
  ar_payload :: payload
  ar_auth :: bool
  ar_retried :: bool

record fetch_call =
  fe_url :: string
  fe_method :: string
  fe_headers :: "string obj"
  fe_body :: payload

definition request_headers :: "auth \<Rightarrow> api_request \<Rightarrow> string obj" where
  "request_headers s r =
     (let h = (if ar_auth r \<and> truthy (accessToken s)
               then oput ''Authorization'' (''Bearer '' @ the (accessToken s)) [] else [])
      in case ar_payload r of
           Form f \<Rightarrow> h
         | Json b \<Rightarrow> oput ''Content-Type'' ''application/json'' h
         | Undefined \<Rightarrow> h)"

definition fetch_of :: "auth \<Rightarrow> api_request \<Rightarrow> fetch_call" where
  "fetch_of s r = \<lparr>fe_url = BASE @ ar_path r, fe_method = ar_method r,
     fe_headers = request_headers s r, fe_body = ar_payload r\<rparr>"

text \<open>The methods of \<open>api\<close>.\<close>

definition mk_request :: "nat \<Rightarrow> string \<Rightarrow> string \<Rightarrow> payload \<Rightarrow> bool \<Rightarrow> api_request" where
  "mk_request n path verb b au =
     \<lparr>ar_id = n, ar_path = path, ar_method = verb, ar_payload = b, ar_auth = au, ar_retried = False\<rparr>"

definition api_get :: "nat \<Rightarrow> string \<Rightarrow> api_request" where
  "api_get n path = mk_request n path ''GET'' Undefined True"

definition api_post :: "nat \<Rightarrow> string \<Rightarrow> payload \<Rightarrow> api_request" where
  "api_post n path b = mk_request n path ''POST'' b True"

definition api_put :: "nat \<Rightarrow> string \<Rightarrow> payload \<Rightarrow> api_request" where
  "api_put n path b = mk_request n path ''PUT'' b True"

definition api_patch :: "nat \<Rightarrow> string \<Rightarrow> payload \<Rightarrow> api_request" where
  "api_patch n path b = mk_request n path ''PATCH'' b True"

definition api_del :: "nat \<Rightarrow> string \<Rightarrow> api_request" where
  "api_del n path = mk_request n path ''DELETE'' Undefined True"

definition api_upload :: "nat \<Rightarrow> string \<Rightarrow> upload_file \<Rightarrow> api_request" where
  "api_upload n path f = mk_request n path ''POST'' (Form f) True"

definition api_postNoAuth :: "nat \<Rightarrow> string \<Rightarrow> payload \<Rightarrow> api_request" where
  "api_postNoAuth n path b = mk_request n path ''POST'' b False"

section \<open>Responses\<close>

text \<open>A JSON body: its \<open>error\<close> property, if any, with \<open>code\<close> and \<open>message\<close>, and the data.\<close>

record 'd json_body =
  jb_error :: "(string option \<times> string option) option"
  jb_data :: 'd

datatype api_error = ApiError nat string string | NetworkError | SyntaxError

datatype 'd http = Failure | Response nat "'d json_body option"

datatype 'd outcome = Resolved "'d json_body option" | Rejected api_error

definition http_ok :: "nat \<Rightarrow> bool" where
  "http_ok st \<longleftrightarrow> 200 \<le> st \<and> st \<le> 299"

definition or_else :: "string \<Rightarrow> string option \<Rightarrow> string" where
  "or_else d x = (if truthy x then the x else d)"

definition settle_response :: "nat \<Rightarrow> 'd json_body option \<Rightarrow> 'd outcome" where
  "settle_response st b =
     (if st = 204 then Resolved None
      else if \<not> http_ok st
      then (let err = (case b of None \<Rightarrow> (None, None)
                       | Some j \<Rightarrow> (case jb_error j of None \<Rightarrow> (None, None) | Some e \<Rightarrow> e))
            in Rejected (ApiError st (or_else ''internal'' (fst err))
                 (or_else (''Request failed ('' @ showNat st @ '')'') (snd err))))
      else Resolved b)"

text \<open>The reply to a refresh: its status and, if it parses, its two tokens.\<close>

datatype refresh_reply =
    RefreshFailure
  | RefreshReply nat "(string option \<times> string option option) option"

section \<open>The client\<close>

datatype waiter = Retry api_request | WantsToken nat

record 'd api_state =
  tab :: tab
  inFlight :: bool
  flights :: "string list"
  waiters :: "waiter list"
  pendings :: "api_request list"
  issued :: "nat list"
  request_log :: "(nat \<times> fetch_call) list"
  results :: "(nat \<times> 'd outcome) list"
  token_results :: "(nat \<times> (api_error + string)) list"

definition run_fetch :: "api_request \<Rightarrow> 'd api_state \<Rightarrow> 'd api_state" where
  "run_fetch r a = a\<lparr>pendings := pendings a @ [r],
     request_log := request_log a @ [(ar_id r, fetch_of (fst (tab a)) r)]\<rparr>"

text \<open>What one waiter does when the shared refresh settles.\<close>

definition settle_waiter :: "api_error + string \<Rightarrow> waiter \<Rightarrow> 'd api_state \<Rightarrow> 'd api_state" where
  "settle_waiter res w a = (case w of
     Retry r \<Rightarrow> (case res of
         Inl e \<Rightarrow> a\<lparr>results := results a @ [(ar_id r, Rejected e)]\<rparr>
       | Inr t \<Rightarrow> run_fetch (r\<lparr>ar_retried := True\<rparr>) a)
   | WantsToken n \<Rightarrow> a\<lparr>token_results := token_results a @ [(n, res)]\<rparr>)"

definition not_signed_in :: api_error where
  "not_signed_in = ApiError 401 ''unauthorized'' ''Not signed in''"

text \<open>\<open>refreshSession\<close> up to its await: join the refresh in flight, or start one.\<close>

definition refreshSession :: "waiter \<Rightarrow> 'd api_state \<Rightarrow> 'd api_state" where
  "refreshSession w a =
     (if inFlight a then a\<lparr>waiters := waiters a @ [w]\<rparr>
      else if \<not> truthy (refreshToken (fst (tab a))) then settle_waiter (Inl not_signed_in) w a
      else a\<lparr>inFlight := True, flights := flights a @ [the (refreshToken (fst (tab a)))],
             waiters := waiters a @ [w]\<rparr>)"

text \<open>The rest of \<open>doRefresh\<close>: the new state of the tab and what the promise settles to.\<close>

definition doRefresh :: "refresh_reply \<Rightarrow> tab \<Rightarrow> tab \<times> (api_error + string)" where
  "doRefresh reply t = (case reply of
     RefreshFailure \<Rightarrow> (t, Inl NetworkError)
   | RefreshReply st b \<Rightarrow>
       if \<not> http_ok st
       then (if st = 401 \<or> st = 403
             then (clearSession t, Inl (ApiError st ''unauthorized'' ''Session expired, please log in again''))
             else (t, Inl (ApiError st ''refresh_unavailable'' ''Could not refresh session, retrying'')))
       else (case b of
           None \<Rightarrow> (t, Inl SyntaxError)
         | Some (acc, ref) \<Rightarrow>
             (setSession \<lparr>se_user = None, se_access = acc, se_refresh = ref\<rparr> t,
              Inr (case acc of None \<Rightarrow> [] | Some s \<Rightarrow> s))))"

definition removeNth :: "nat \<Rightarrow> 'a list \<Rightarrow> 'a list" where
  "removeNth i xs = take i xs @ drop (Suc i) xs"

definition refresh_settles :: "nat \<Rightarrow> refresh_reply \<Rightarrow> 'd api_state \<Rightarrow> 'd api_state" where
  "refresh_settles k reply a =
     (case doRefresh reply (tab a) of (t, res) \<Rightarrow>
        fold (settle_waiter res) (waiters a)
          (a\<lparr>tab := t, inFlight := False, flights := removeNth k (flights a), waiters := []\<rparr>))"

definition response :: "nat \<Rightarrow> 'd http \<Rightarrow> 'd api_state \<Rightarrow> 'd api_state" where
  "response i h a =
     (let r = pendings a ! i; a' = a\<lparr>pendings := removeNth i (pendings a)\<rparr>
      in case h of
           Failure \<Rightarrow> a'\<lparr>results := results a' @ [(ar_id r, Rejected NetworkError)]\<rparr>
         | Response st b \<Rightarrow>
             if st = 401 \<and> ar_auth r \<and> \<not> ar_retried r then refreshSession (Retry r) a'
             else a'\<lparr>results := results a' @ [(ar_id r, settle_response st b)]\<rparr>)"

text \<open>
  \<open>tokenExpiringSoon\<close> with \<open>exp_of\<close> for \<open>JSON.parse(atob(...)).exp\<close> of the token's payload: \<open>None\<close>
  when it throws or the property is falsy.
\<close>

definition tokenExpiringSoon :: "(string \<Rightarrow> int option) \<Rightarrow> int \<Rightarrow> string \<Rightarrow> bool" where
  "tokenExpiringSoon exp_of now token =
     (case exp_of token of None \<Rightarrow> False | Some e \<Rightarrow> e \<noteq> 0 \<and> e * 1000 - now < 15000)"

definition ensureFreshAccessToken :: "(string \<Rightarrow> int option) \<Rightarrow> int \<Rightarrow> nat \<Rightarrow> 'd api_state \<Rightarrow> 'd api_state" where
  "ensureFreshAccessToken exp_of now n a =
     (let s = fst (tab a)
      in if truthy (accessToken s) \<and> \<not> tokenExpiringSoon exp_of now (the (accessToken s))
         then a\<lparr>token_results := token_results a @ [(n, Inr (the (accessToken s)))]\<rparr>
         else if \<not> truthy (refreshToken s)
         then a\<lparr>token_results := token_results a @ [(n, Inl not_signed_in)]\<rparr>
         else refreshSession (WantsToken n) a)"

section \<open>Steps\<close>

datatype 'd api_event =
    Issue api_request
  | Answer nat "'d http"
  | RefreshAnswer nat refresh_reply
  | EnsureToken int nat
  | LogIn session
  | LogOut
  | StorageEvent string "string option"

fun api_step :: "(string \<Rightarrow> int option) \<Rightarrow> 'd api_event \<Rightarrow> 'd api_state \<Rightarrow> 'd api_state" where
  "api_step exp_of (Issue r) a =
     run_fetch (r\<lparr>ar_retried := False\<rparr>) (a\<lparr>issued := issued a @ [ar_id r]\<rparr>)"
| "api_step exp_of (Answer i h) a = (if i < length (pendings a) then response i h a else a)"
| "api_step exp_of (RefreshAnswer k reply) a =
     (if k < length (flights a) then refresh_settles k reply a else a)"
| "api_step exp_of (EnsureToken now n) a = ensureFreshAccessToken exp_of now n a"
| "api_step exp_of (LogIn x) a = a\<lparr>tab := setSession x (tab a)\<rparr>"
| "api_step exp_of LogOut a = a\<lparr>tab := clearSession (tab a)\<rparr>"
| "api_step exp_of (StorageEvent key v) a = a\<lparr>tab := (onStorage key v (fst (tab a)), snd (tab a))\<rparr>"

definition initial_api :: "string obj \<Rightarrow> 'd api_state" where
  "initial_api ls = \<lparr>tab = (load_auth ls, ls), inFlight = False, flights = [], waiters = [],
     pendings = [], issued = [], request_log = [], results = [], token_results = []\<rparr>"

definition api_run :: "(string \<Rightarrow> int option) \<Rightarrow> 'd api_event list \<Rightarrow> 'd api_state \<Rightarrow> 'd api_state" where
  "api_run exp_of es a = fold (api_step exp_of) es a"

section \<open>Conservation of requests\<close>

text \<open>
  The number of calls with a given id, by where they are (\<open>placed\<close>), and how many fetches they
  have made or may still make (\<open>budget\<close>): a first attempt that is pending or waits for a refresh
  may fetch once more.
\<close>

fun retry_ids :: "waiter list \<Rightarrow> nat list" where
  "retry_ids [] = []"
| "retry_ids (Retry r # ws) = ar_id r # retry_ids ws"
| "retry_ids (WantsToken n # ws) = retry_ids ws"

definition placed :: "nat \<Rightarrow> 'd api_state \<Rightarrow> nat" where
  "placed n a = count_list (map ar_id (pendings a)) n + count_list (map fst (results a)) n
     + count_list (retry_ids (waiters a)) n"

definition budget :: "nat \<Rightarrow> 'd api_state \<Rightarrow> nat" where
  "budget n a = count_list (map fst (request_log a)) n
     + count_list (map ar_id (filter (\<lambda>r. \<not> ar_retried r) (pendings a))) n + count_list (retry_ids (waiters a)) n"

text \<open>\<open>xs\<close> are the ids of first attempts just taken from the pending list and not yet placed.\<close>

definition balanced :: "nat list \<Rightarrow> 'd api_state \<Rightarrow> bool" where
  "balanced xs a \<longleftrightarrow> length (flights a) = (if inFlight a then 1 else 0) \<and> (\<not> inFlight a \<longrightarrow> waiters a = [])
     \<and> (\<forall>n. count_list (issued a) n = placed n a + count_list xs n
          \<and> budget n a + count_list xs n \<le> 2 * count_list (issued a) n)"

lemma balancedD:
  assumes "balanced xs a"
  shows "length (flights a) = (if inFlight a then 1 else 0)" "\<not> inFlight a \<Longrightarrow> waiters a = []"
    "count_list (issued a) n = placed n a + count_list xs n" "budget n a + count_list xs n \<le> 2 * count_list (issued a) n"
  using assms unfolding balanced_def by blast+

lemma balancedI:
  assumes "length (flights a) = (if inFlight a then 1 else 0)" and "\<not> inFlight a \<Longrightarrow> waiters a = []"
    and "\<And>n. count_list (issued a) n = placed n a + count_list xs n"
    and "\<And>n. budget n a + count_list xs n \<le> 2 * count_list (issued a) n"
  shows "balanced xs a"
  using assms unfolding balanced_def by blast

lemma retry_ids_append [simp]: "retry_ids (xs @ ys) = retry_ids xs @ retry_ids ys"
  by (induction xs rule: retry_ids.induct) simp_all

lemma retry_ids_Cons: "retry_ids (w # ws) = retry_ids [w] @ retry_ids ws"
  using retry_ids_append [of "[w]" ws] by simp

lemma run_fetch_simps [simp]:
  "tab (run_fetch r a) = tab a" "inFlight (run_fetch r a) = inFlight a" "flights (run_fetch r a) = flights a"
  "waiters (run_fetch r a) = waiters a" "issued (run_fetch r a) = issued a" "results (run_fetch r a) = results a"
  by (simp_all add: run_fetch_def)

text \<open>How the primitive updates change the two sums.\<close>

lemma fetch_sums:
  "placed n (run_fetch r a) = placed n a + count_list [ar_id r] n"
  "budget n (run_fetch r a) = budget n a + (if ar_retried r then 1 else 2) * count_list [ar_id r] n"
  by (simp_all add: placed_def budget_def run_fetch_def)

lemma result_sums:
  "placed n (a\<lparr>results := results a @ [(i, res)]\<rparr>) = placed n a + count_list [i] n"
  "budget n (a\<lparr>results := results a @ [(i, res)]\<rparr>) = budget n a"
  by (simp_all add: placed_def budget_def)

lemma waiter_sums:
  "placed n (a\<lparr>waiters := waiters a @ [w]\<rparr>) = placed n a + count_list (retry_ids [w]) n"
  "budget n (a\<lparr>waiters := waiters a @ [w]\<rparr>) = budget n a + count_list (retry_ids [w]) n"
  by (simp_all add: placed_def budget_def)

lemma other_sums [simp]:
  "placed n (a\<lparr>tab := t\<rparr>) = placed n a" "budget n (a\<lparr>tab := t\<rparr>) = budget n a"
  "placed n (a\<lparr>inFlight := b\<rparr>) = placed n a" "budget n (a\<lparr>inFlight := b\<rparr>) = budget n a"
  "placed n (a\<lparr>flights := fs\<rparr>) = placed n a" "budget n (a\<lparr>flights := fs\<rparr>) = budget n a"
  "placed n (a\<lparr>issued := xs\<rparr>) = placed n a" "budget n (a\<lparr>issued := xs\<rparr>) = budget n a"
  "placed n (a\<lparr>token_results := q\<rparr>) = placed n a" "budget n (a\<lparr>token_results := q\<rparr>) = budget n a"
  by (simp_all add: placed_def budget_def)

lemma removeNth_split: "i < length xs \<Longrightarrow> xs = take i xs @ xs ! i # drop (Suc i) xs"
  by (rule id_take_nth_drop)

lemma pending_sums:
  assumes i: "i < length (pendings a)"
  shows "placed n a = placed n (a\<lparr>pendings := removeNth i (pendings a)\<rparr>) + count_list [ar_id (pendings a ! i)] n"
    and "budget n a = budget n (a\<lparr>pendings := removeNth i (pendings a)\<rparr>)
      + (if ar_retried (pendings a ! i) then 0 else count_list [ar_id (pendings a ! i)] n)"
proof -
  let ?x = "pendings a ! i"
  have p: "pendings a = take i (pendings a) @ ?x # drop (Suc i) (pendings a)" by (rule removeNth_split [OF i])
  have "count_list (map ar_id (pendings a)) n =
      count_list (map ar_id (removeNth i (pendings a))) n + count_list [ar_id ?x] n"
    by (subst p) (simp add: removeNth_def)
  then show "placed n a = placed n (a\<lparr>pendings := removeNth i (pendings a)\<rparr>) + count_list [ar_id ?x] n"
    by (simp add: placed_def)
  have "count_list (map ar_id (filter (\<lambda>r. \<not> ar_retried r) (pendings a))) n =
      count_list (map ar_id (filter (\<lambda>r. \<not> ar_retried r) (removeNth i (pendings a)))) n
      + (if ar_retried ?x then 0 else count_list [ar_id ?x] n)"
    by (subst p) (simp add: removeNth_def)
  then show "budget n a = budget n (a\<lparr>pendings := removeNth i (pendings a)\<rparr>)
      + (if ar_retried ?x then 0 else count_list [ar_id ?x] n)"
    by (simp add: budget_def)
qed

text \<open>The waiters of a settled refresh.\<close>

lemma settle_simps [simp]:
  "tab (settle_waiter res w a) = tab a" "inFlight (settle_waiter res w a) = inFlight a"
  "flights (settle_waiter res w a) = flights a" "waiters (settle_waiter res w a) = waiters a"
  "issued (settle_waiter res w a) = issued a"
  by (simp_all add: settle_waiter_def split: waiter.split sum.split)

lemma settle_sums:
  "placed n (settle_waiter res w a) = placed n a + count_list (retry_ids [w]) n"
  "budget n (settle_waiter res w a) \<le> budget n a + count_list (retry_ids [w]) n"
  by (cases w; cases res; simp add: settle_waiter_def fetch_sums result_sums)+

lemma settle_all:
  "tab (fold (settle_waiter res) ws a) = tab a" "inFlight (fold (settle_waiter res) ws a) = inFlight a"
  "flights (fold (settle_waiter res) ws a) = flights a" "waiters (fold (settle_waiter res) ws a) = waiters a"
  "issued (fold (settle_waiter res) ws a) = issued a"
  by (induction ws arbitrary: a) simp_all

lemma settle_all_sums:
  "placed n (fold (settle_waiter res) ws a) = placed n a + count_list (retry_ids ws) n
   \<and> budget n (fold (settle_waiter res) ws a) \<le> budget n a + count_list (retry_ids ws) n"
proof (induction ws arbitrary: a)
  case Nil
  then show ?case by simp
next
  case (Cons w ws)
  show ?case using Cons.IH [of "settle_waiter res w a"] settle_sums [of n res w a]
    by (simp add: retry_ids_Cons [of w ws])
qed

text \<open>Every step keeps the balance.\<close>

lemma balanced_keep:
  assumes b: "balanced xs a" and "length (flights c) = (if inFlight c then 1 else 0)"
    and "\<not> inFlight c \<Longrightarrow> waiters c = []"
    and i: "\<And>n. count_list (issued c) n = count_list (issued a) n + d n"
    and p: "\<And>n. placed n c + count_list ys n = placed n a + count_list xs n + d n"
    and q: "\<And>n. budget n c + count_list ys n \<le> budget n a + count_list xs n + 2 * d n"
  shows "balanced ys c"
proof (rule balancedI [OF assms(2,3)])
  fix n
  show "count_list (issued c) n = placed n c + count_list ys n"
    using balancedD(3) [OF b, of n] i [of n] p [of n] by linarith
  show "budget n c + count_list ys n \<le> 2 * count_list (issued c) n"
    using balancedD(4) [OF b, of n] i [of n] q [of n] by linarith
qed

lemma balanced_refreshSession:
  assumes b: "balanced (retry_ids [w]) a"
  shows "balanced [] (refreshSession w a)"
proof -
  note fl = balancedD(1) [OF b] and wt = balancedD(2) [OF b]
  consider "inFlight a" | "\<not> inFlight a" "\<not> truthy (refreshToken (fst (tab a)))"
    | "\<not> inFlight a" "truthy (refreshToken (fst (tab a)))" by blast
  then show ?thesis
  proof cases
    case 1
    then have r: "refreshSession w a = a\<lparr>waiters := waiters a @ [w]\<rparr>" by (simp add: refreshSession_def)
    show ?thesis unfolding r
      by (rule balanced_keep [OF b, where d = "\<lambda>n. 0"]) (use 1 fl in \<open>simp_all add: waiter_sums\<close>)
  next
    case 2
    then have r: "refreshSession w a = settle_waiter (Inl not_signed_in) w a" by (simp add: refreshSession_def)
    show ?thesis unfolding r
      by (rule balanced_keep [OF b, where d = "\<lambda>n. 0"])
        (use 2 fl wt settle_sums(2) [of _ "Inl not_signed_in" w a] in \<open>simp_all add: settle_sums(1)\<close>)
  next
    case 3
    let ?s = "a\<lparr>inFlight := True, flights := flights a @ [the (refreshToken (fst (tab a)))]\<rparr>"
    have r: "refreshSession w a = ?s\<lparr>waiters := waiters ?s @ [w]\<rparr>" using 3 by (simp add: refreshSession_def)
    show ?thesis unfolding r
      by (rule balanced_keep [OF b, where d = "\<lambda>n. 0"], use 3 fl in simp, simp, simp)
        (simp_all only: waiter_sums other_sums, simp_all)
  qed
qed

lemma balanced_issue:
  assumes b: "balanced [] a"
  shows "balanced [] (api_step x (Issue r) a)"
  by (rule balanced_keep [OF b, where d = "count_list [ar_id r]"])
    (use balancedD(1,2) [OF b] in \<open>simp_all add: fetch_sums\<close>)

lemma balanced_response:
  assumes b: "balanced [] a" and i: "i < length (pendings a)"
  shows "balanced [] (response i h a)"
proof -
  let ?r = "pendings a ! i" and ?a = "a\<lparr>pendings := removeNth i (pendings a)\<rparr>"
  note sums = pending_sums [OF i]
  have held: "balanced [ar_id ?r] ?a" if "\<not> ar_retried ?r"
    by (rule balanced_keep [OF b, where d = "\<lambda>n. 0"])
      (use that balancedD(1,2) [OF b] sums in simp_all)
  have fin: "balanced [] (?a\<lparr>results := results ?a @ [(ar_id ?r, res)]\<rparr>)" for res
  proof (rule balanced_keep [OF b, where d = "\<lambda>n. 0"])
    fix n
    show "placed n (?a\<lparr>results := results ?a @ [(ar_id ?r, res)]\<rparr>) + count_list [] n = placed n a + count_list [] n + 0"
      using sums(1) [of n] result_sums(1) [of n ?a] by simp
    show "budget n (?a\<lparr>results := results ?a @ [(ar_id ?r, res)]\<rparr>) + count_list [] n \<le> budget n a + count_list [] n + 2 * 0"
      using sums(2) [of n] result_sums(2) [of n ?a] by simp
  qed (use balancedD(1,2) [OF b] in simp_all)
  show ?thesis
    using fin held balanced_refreshSession [of "Retry ?r" ?a]
    by (auto simp: response_def Let_def split: http.split)
qed

lemma balanced_settles:
  assumes b: "balanced [] a" and k: "k < length (flights a)"
  shows "balanced [] (refresh_settles k reply a)"
proof -
  obtain t res where d: "doRefresh reply (tab a) = (t, res)" by (cases "doRefresh reply (tab a)")
  let ?a = "a\<lparr>tab := t, inFlight := False, flights := removeNth k (flights a), waiters := []\<rparr>"
  let ?b = "fold (settle_waiter res) (waiters a) ?a"
  have f: "removeNth k (flights a) = []"
    using balancedD(1) [OF b] k by (auto simp: removeNth_def split: if_splits)
  have "placed n ?a + count_list (retry_ids (waiters a)) n = placed n a"
    "budget n ?a + count_list (retry_ids (waiters a)) n = budget n a" for n
    by (simp_all add: placed_def budget_def)
  then have "placed n ?b = placed n a" "budget n ?b \<le> budget n a" for n
    using settle_all_sums [of n res "waiters a" ?a] by (metis, metis)
  then have "balanced [] ?b"
    by (intro balanced_keep [OF b, where d = "\<lambda>n. 0"]) (simp_all add: settle_all f)
  then show ?thesis by (simp add: refresh_settles_def d)
qed

lemma balanced_other:
  assumes b: "balanced [] a"
  shows "balanced [] (a\<lparr>tab := t\<rparr>)" "balanced [] (a\<lparr>token_results := q\<rparr>)"
  by (rule balanced_keep [OF b, where d = "\<lambda>n. 0"]; use balancedD(1,2) [OF b] in simp)+

lemma balanced_step: "balanced [] a \<Longrightarrow> balanced [] (api_step x e a)"
proof (cases e)
  case (Issue r)
  assume "balanced [] a"
  then show ?thesis unfolding Issue by (rule balanced_issue)
next
  case (EnsureToken now n)
  assume "balanced [] a"
  then show ?thesis using EnsureToken balanced_refreshSession [of "WantsToken n" a]
    by (simp add: ensureFreshAccessToken_def balanced_other Let_def)
qed (simp_all add: balanced_response balanced_settles balanced_other)

interpretation balanced_runs: invariant_steps "api_step x" "balanced []" "\<lambda>_. True" for x
  by unfold_locales (rule balanced_step)

lemma balanced_run: "balanced [] (api_run x es (initial_api ls))"
proof -
  have "balanced [] (initial_api ls)" by (simp add: initial_api_def balanced_def placed_def budget_def)
  then show ?thesis unfolding api_run_def by (rule balanced_runs.run) (simp add: list_all_iff)
qed

end
