(* ===== verification/Api_Properties.thy ===== *)
theory Api_Properties imports Api_Client
begin

text \<open>
  What the API client promises over every run of \<open>api_step\<close>: every call is answered once and
  fetches at most twice, concurrent failures share one refresh, the retries carry the new token,
  and only a definitive rejection ends the session.
\<close>

section \<open>Runs\<close>

definition no_expiry :: "string \<Rightarrow> int option" where
  "no_expiry t = None"

definition signed_in_storage :: "string obj" where
  "signed_in_storage = [(REFRESH_KEY, ''r1'')]"

text \<open>Two calls that fail with 401, one shared refresh, two successful retries.\<close>

definition shared_refresh_run :: "nat api_event list" where
  "shared_refresh_run = [Issue (api_get 1 ''/a''), Issue (api_get 2 ''/b''),
     Answer 0 (Response 401 None), Answer 0 (Response 401 None),
     RefreshAnswer 0 (RefreshReply 200 (Some (Some ''a2'', Some (Some ''r2'')))),
     Answer 0 (Response 200 None), Answer 0 (Response 200 None)]"

text \<open>
  C12: every call of the API is answered exactly once and costs at most two fetches, whatever the
  network does: in every run at most one refresh is in flight however many calls have failed with
  401, no call has fetched more than twice, and once nothing is outstanding the calls answered
  are exactly the calls made.
\<close>
theorem calls_answered_once:
  fixes es :: "'d api_event list"
  assumes "a = api_run exp_of es (initial_api ls)"
  shows "length (flights a) \<le> 1
    \<and> count_list (map fst (request_log a)) n \<le> 2 * count_list (issued a) n
    \<and> (pendings a = [] \<and> flights a = [] \<longrightarrow> count_list (map fst (results a)) n = count_list (issued a) n)"
proof -
  have b: "balanced [] a" unfolding assms by (rule balanced_run)
  have "waiters a = []" if "flights a = []"
    using balancedD(1,2) [OF b] that by (auto split: if_splits)
  then show ?thesis
    using balancedD(1) [OF b] balancedD(3,4) [OF b, of n] by (auto simp: placed_def budget_def)
qed

lemma calls_answered_once_witness:
  "count_list (map fst (results (api_run no_expiry shared_refresh_run (initial_api signed_in_storage)))) 2 = 1"
proof -
  let ?a = "api_run no_expiry shared_refresh_run (initial_api signed_in_storage)"
  have "pendings ?a = [] \<and> flights ?a = []" "count_list (issued ?a) 2 = 1" by code_simp+
  then show ?thesis using calls_answered_once [of ?a no_expiry shared_refresh_run signed_in_storage 2] by simp
qed

section \<open>Retries\<close>

definition retries_ok :: "'d api_state \<Rightarrow> bool" where
  "retries_ok a \<longleftrightarrow> (\<forall>r. Retry r \<in> set (waiters a) \<longrightarrow> ar_auth r \<and> \<not> ar_retried r)"

lemma retries_ok_join:
  "retries_ok a \<Longrightarrow> (\<And>r. w = Retry r \<Longrightarrow> ar_auth r \<and> \<not> ar_retried r) \<Longrightarrow> retries_ok (refreshSession w a)"
  by (auto simp: refreshSession_def retries_ok_def)

lemma retries_ok_fields [simp]:
  "retries_ok (a\<lparr>tab := t\<rparr>) = retries_ok a" "retries_ok (a\<lparr>results := rs\<rparr>) = retries_ok a"
  "retries_ok (a\<lparr>pendings := ps\<rparr>) = retries_ok a" "retries_ok (a\<lparr>token_results := q\<rparr>) = retries_ok a"
  "retries_ok (a\<lparr>issued := ks\<rparr>) = retries_ok a" "retries_ok (run_fetch r a) = retries_ok a"
  by (simp_all add: retries_ok_def)

lemma retries_ok_step:
  assumes r: "retries_ok a"
  shows "retries_ok (api_step x e a)"
proof (cases e)
  case (Answer i h)
  have "retries_ok (response i h a)"
  proof (cases h)
    case Failure
    then show ?thesis using r by (simp add: response_def Let_def)
  next
    case (Response st b)
    then show ?thesis using r retries_ok_join [of "a\<lparr>pendings := removeNth i (pendings a)\<rparr>" "Retry (pendings a ! i)"]
      by (simp add: response_def Let_def)
  qed
  then show ?thesis using Answer r by simp
next
  case (RefreshAnswer k reply)
  have "retries_ok (refresh_settles k reply a)"
    by (simp add: refresh_settles_def retries_ok_def settle_all split: prod.split)
  then show ?thesis using RefreshAnswer r by simp
next
  case (EnsureToken now n)
  then show ?thesis using r retries_ok_join [OF r, of "WantsToken n"]
    by (simp add: ensureFreshAccessToken_def Let_def)
qed (use r in simp_all)

interpretation retry_runs: invariant_steps "api_step x" retries_ok "\<lambda>_. True" for x
  by unfold_locales (rule retries_ok_step)

lemma retries_ok_run: "retries_ok (api_run x es (initial_api ls))"
  unfolding api_run_def
  by (rule retry_runs.run) (simp_all add: initial_api_def retries_ok_def list_all_iff)

definition bearer :: "string \<Rightarrow> nat \<times> fetch_call \<Rightarrow> bool" where
  "bearer t c \<longleftrightarrow> oget (fe_headers (snd c)) ''Authorization'' = Some (''Bearer '' @ t)"

lemma fetch_bearer: "ar_auth r \<Longrightarrow> accessToken s = Some t \<Longrightarrow> t \<noteq> [] \<Longrightarrow> bearer t (n, fetch_of s r)"
  by (cases "ar_payload r") (simp_all add: bearer_def fetch_of_def request_headers_def Let_def)

lemma settle_retries:
  assumes "\<And>r. Retry r \<in> set ws \<Longrightarrow> ar_auth r" and "accessToken (fst (tab a)) = Some t" and "t \<noteq> []"
  shows "\<exists>calls. request_log (fold (settle_waiter (Inr t)) ws a) = request_log a @ calls
    \<and> map fst calls = retry_ids ws \<and> list_all (bearer t) calls"
  using assms
proof (induction ws arbitrary: a)
  case Nil
  then show ?case by simp
next
  case (Cons w ws)
  have acc: "accessToken (fst (tab (settle_waiter (Inr t) w a))) = Some t" using Cons.prems by simp
  obtain calls where c: "request_log (fold (settle_waiter (Inr t)) ws (settle_waiter (Inr t) w a)) =
      request_log (settle_waiter (Inr t) w a) @ calls" "map fst calls = retry_ids ws" "list_all (bearer t) calls"
    using Cons.IH [OF _ acc Cons.prems(3)] Cons.prems(1) by auto
  show ?case
  proof (cases w)
    case (Retry r)
    have one: "settle_waiter (Inr t) w a = run_fetch (r\<lparr>ar_retried := True\<rparr>) a"
      by (simp add: settle_waiter_def Retry)
    have "ar_auth (r\<lparr>ar_retried := True\<rparr>)" using Cons.prems(1) [of r] Retry by simp
    from fetch_bearer [OF this Cons.prems(2,3)]
    have "bearer t (ar_id r, fetch_of (fst (tab a)) (r\<lparr>ar_retried := True\<rparr>))" .
    then show ?thesis using c one
      by (intro exI [of _ "(ar_id r, fetch_of (fst (tab a)) (r\<lparr>ar_retried := True\<rparr>)) # calls"])
        (simp add: Retry, simp add: run_fetch_def)
  next
    case (WantsToken n)
    have one: "request_log (settle_waiter (Inr t) w a) = request_log a"
      by (simp add: settle_waiter_def WantsToken)
    show ?thesis using c unfolding one by (intro exI [of _ calls]) (simp add: WantsToken)
  qed
qed

text \<open>
  C13: a successful refresh retries every call that was waiting for it, in the order they failed,
  once each, with the new access token in the \<open>Authorization\<close> header, and leaves nobody waiting.
\<close>
theorem refresh_retries_all:
  fixes es :: "'d api_event list"
  assumes "a = api_run exp_of es (initial_api ls)" and "k < length (flights a)" and "t \<noteq> []" and "200 \<le> st" and "st \<le> 299"
    and "b = api_step exp_of (RefreshAnswer k (RefreshReply st (Some (Some t, ref)))) a"
  shows "\<exists>calls. request_log b = request_log a @ calls \<and> map fst calls = retry_ids (waiters a)
    \<and> list_all (bearer t) calls \<and> waiters b = [] \<and> \<not> inFlight b \<and> flights b = []"
proof -
  have r: "retries_ok a" and bal: "balanced [] a" unfolding assms(1) by (rule retries_ok_run, rule balanced_run)
  obtain s ls' where tab: "tab a = (s, ls')" by (cases "tab a")
  let ?x = "\<lparr>se_user = None, se_access = Some t, se_refresh = ref\<rparr>"
  let ?a = "a\<lparr>tab := setSession ?x (tab a), inFlight := False, flights := removeNth k (flights a), waiters := []\<rparr>"
  have b: "b = fold (settle_waiter (Inr t)) (waiters a) ?a"
    using assms by (simp add: refresh_settles_def doRefresh_def http_ok_def)
  have acc: "accessToken (fst (tab ?a)) = Some t" by (simp add: setSession_def tab)
  have f: "removeNth k (flights a) = []"
    using balancedD(1) [OF bal] assms(2) by (auto simp: removeNth_def split: if_splits)
  have "\<exists>calls. request_log b = request_log ?a @ calls \<and> map fst calls = retry_ids (waiters a) \<and> list_all (bearer t) calls"
    unfolding b by (rule settle_retries [OF _ acc assms(3)]) (use r in \<open>auto simp: retries_ok_def\<close>)
  then show ?thesis by (auto simp: b settle_all f)
qed

lemma refresh_retries_all_witness:
  "\<exists>calls. request_log (api_run no_expiry (take 5 shared_refresh_run) (initial_api signed_in_storage)) =
      request_log (api_run no_expiry (take 4 shared_refresh_run) (initial_api signed_in_storage)) @ calls
    \<and> map fst calls = [1, 2] \<and> list_all (bearer ''a2'') calls"
proof -
  let ?a = "api_run no_expiry (take 4 shared_refresh_run) (initial_api signed_in_storage)"
  let ?b = "api_step no_expiry (RefreshAnswer 0 (RefreshReply 200 (Some (Some ''a2'', Some (Some ''r2''))))) ?a"
  have "0 < length (flights ?a)" "retry_ids (waiters ?a) = [1, 2]" by code_simp+
  moreover have "api_run no_expiry (take 5 shared_refresh_run) (initial_api signed_in_storage) = ?b"
    by (simp add: api_run_def shared_refresh_run_def eval_nat_numeral)
  moreover have "\<exists>calls. request_log ?b = request_log ?a @ calls \<and> map fst calls = retry_ids (waiters ?a)
      \<and> list_all (bearer ''a2'') calls \<and> waiters ?b = [] \<and> \<not> inFlight ?b \<and> flights ?b = []"
    by (rule refresh_retries_all [OF refl _ _ _ _ refl]) (use calculation(1) in simp_all)
  ultimately show ?thesis by metis
qed

section \<open>The session\<close>

text \<open>The events that may end or replace the session.\<close>

definition good_refresh :: "string option option \<Rightarrow> bool" where
  "good_refresh r \<longleftrightarrow> (case r of None \<Rightarrow> True | Some x \<Rightarrow> truthy x)"

fun keeps_session :: "'d api_event \<Rightarrow> bool" where
  "keeps_session (RefreshAnswer k (RefreshReply st b)) =
     (st \<noteq> 401 \<and> st \<noteq> 403 \<and> (case b of None \<Rightarrow> True | Some (acc, ref) \<Rightarrow> good_refresh ref))"
| "keeps_session (LogIn x) = good_refresh (se_refresh x)"
| "keeps_session LogOut = False"
| "keeps_session (StorageEvent key v) = False"
| "keeps_session _ = True"

definition session_ok :: "tab \<Rightarrow> bool" where
  "session_ok t \<longleftrightarrow> truthy (refreshToken (fst t)) \<and> in_sync t"

lemma session_set: "session_ok t \<Longrightarrow> good_refresh (se_refresh x) \<Longrightarrow> session_ok (setSession x t)"
  using in_sync_setSession [of t x]
  by (cases t) (auto simp: session_ok_def good_refresh_def setSession_def split: option.splits)

lemma tab_refreshSession [simp]: "tab (refreshSession w a) = tab a"
  by (simp add: refreshSession_def)

lemma session_step:
  assumes s: "session_ok (tab a)" and k: "keeps_session e"
  shows "session_ok (tab (api_step x e a))"
proof (cases e)
  case (Answer i h)
  then show ?thesis using s by (simp add: response_def Let_def split: http.split)
next
  case (EnsureToken now n)
  then show ?thesis using s by (simp add: ensureFreshAccessToken_def Let_def)
next
  case (RefreshAnswer j reply)
  have "session_ok (fst (doRefresh reply (tab a)))"
    using s k RefreshAnswer
    by (cases reply) (auto simp: doRefresh_def intro: session_set split: option.splits)
  then show ?thesis using s RefreshAnswer
    by (cases "doRefresh reply (tab a)") (simp add: refresh_settles_def settle_all)
qed (use s k in \<open>simp_all add: session_set\<close>)

interpretation session_runs: invariant_steps "api_step x" "\<lambda>a. session_ok (tab a)" keeps_session for x
  by unfold_locales (rule session_step)



section \<open>Races\<close>

text \<open>
  Signing out does not cancel a refresh in flight: its reply signs the user in again, in
  memory and in storage.
\<close>
theorem logout_undone_by_refresh:
  "let a = api_run no_expiry [EnsureToken 0 1, LogOut,
         RefreshAnswer 0 (RefreshReply 200 (Some (Some ''a2'', Some (Some ''r2''))))]
       (initial_api signed_in_storage :: nat api_state)
   in refreshToken (fst (tab a)) = Some ''r2'' \<and> oget (snd (tab a)) REFRESH_KEY = Some ''r2''"
  by code_simp

text \<open>
  A tab that loses the race for a single-use refresh token signs the other one out of the
  storage: the winner has stored the new token when the loser's 401 removes the key, and the
  winner, which ignores removals, keeps running on a token no reload will find.
\<close>
theorem losing_tab_clears_winner:
  "let ls = signed_in_storage;
       (winner, ls1) = fst (doRefresh (RefreshReply 200 (Some (Some ''a2'', Some (Some ''r2'')))) (load_auth ls, ls));
       (loser, ls2) = fst (doRefresh (RefreshReply 401 None) (load_auth ls, ls1))
   in refreshToken (onStorage REFRESH_KEY None winner) = Some ''r2'' \<and> oget ls2 REFRESH_KEY = None"
  by code_simp

end
