(* ===== verification/Gateway_Client.thy ===== *)
theory Gateway_Client imports Chat_Machine Auth_Store
begin

text \<open>
  \<open>gateway.js\<close>: the WebSocket client as a state machine over its module variables. A call of
  \<open>open\<close> that awaits its token is counted in \<open>awaitingToken\<close>; a socket is a number, and the sockets
  whose handlers are attached carry the token they will identify with. What the client does to
  the chat store is emitted as events of \<open>Chat_Machine\<close>, in order, with what it sends and closes.
\<close>

section \<open>State, frames, output\<close>

definition BACKOFF_MIN_MS :: nat where
  "BACKOFF_MIN_MS = 1000"

definition BACKOFF_MAX_MS :: nat where
  "BACKOFF_MAX_MS = 30000"

datatype frame =
    Hello "nat option"
  | HeartbeatAck
  | Ready "user option"
  | Dispatch gateway_event
  | OtherFrame
  | Garbage

datatype gw_out =
    Identify nat string
  | Heartbeat nat
  | CloseSocket nat
  | Chat event

record gateway =
  ws :: "nat option"
  stopped :: bool
  heartbeatTimer :: "(nat \<times> nat) option"
  reconnectTimer :: "nat option"
  backoff :: nat
  lastAck :: int
  identifiedOnce :: bool
  awaitingToken :: nat
  sockets :: "(nat \<times> string) list"
  nextSocket :: nat
  session :: auth
  out :: "gw_out list"

definition initial_gateway :: "auth \<Rightarrow> gateway" where
  "initial_gateway s = \<lparr>ws = None, stopped = True, heartbeatTimer = None, reconnectTimer = None,
     backoff = BACKOFF_MIN_MS, lastAck = 0, identifiedOnce = False, awaitingToken = 0, sockets = [],
     nextSocket = 0, session = s, out = []\<rparr>"

definition emit :: "gw_out \<Rightarrow> gateway \<Rightarrow> gateway" where
  "emit x g = g\<lparr>out := out g @ [x]\<rparr>"

definition detach :: "nat \<Rightarrow> (nat \<times> string) list \<Rightarrow> (nat \<times> string) list" where
  "detach s xs = filter (\<lambda>(i, t). i \<noteq> s) xs"

lemma detach_ids [simp]: "fst ` set (detach s xs) = fst ` set xs - {s}"
  by (force simp: detach_def)

lemma detach_only [simp]: "detach s [(s, t)] = []"
  by (simp add: detach_def)

section \<open>Operations\<close>

definition open_gateway :: "gateway \<Rightarrow> gateway" where
  "open_gateway g = (if stopped g then g else g\<lparr>awaitingToken := awaitingToken g + 1\<rparr>)"

definition connectGateway :: "gateway \<Rightarrow> gateway" where
  "connectGateway g =
     (if \<not> stopped g then g
      else open_gateway (g\<lparr>stopped := False, backoff := BACKOFF_MIN_MS, identifiedOnce := False\<rparr>))"

definition stopHeartbeat :: "gateway \<Rightarrow> gateway" where
  "stopHeartbeat g = g\<lparr>heartbeatTimer := None\<rparr>"

definition disconnectGateway :: "gateway \<Rightarrow> gateway" where
  "disconnectGateway g =
     (let g1 = stopHeartbeat (g\<lparr>stopped := True, reconnectTimer := None\<rparr>);
          g2 = (case ws g1 of
                  None \<Rightarrow> g1
                | Some s \<Rightarrow> (emit (CloseSocket s) g1)\<lparr>sockets := detach s (sockets g1), ws := None\<rparr>)
      in emit (Chat (DoSetWsConnected False)) g2)"

definition scheduleReconnect :: "gateway \<Rightarrow> gateway" where
  "scheduleReconnect g =
     (let g1 = emit (Chat (DoSetWsConnected False)) (stopHeartbeat g)
      in if stopped g1 \<or> reconnectTimer g1 \<noteq> None then g1
         else g1\<lparr>reconnectTimer := Some (backoff g1), backoff := min (backoff g1 * 2) BACKOFF_MAX_MS\<rparr>)"

text \<open>\<open>open\<close> after its token: the socket is created with its handlers.\<close>

definition token_ok :: "string \<Rightarrow> gateway \<Rightarrow> gateway" where
  "token_ok token g =
     (let g1 = g\<lparr>awaitingToken := awaitingToken g - 1\<rparr>
      in if stopped g1 then g1
         else g1\<lparr>ws := Some (nextSocket g1), sockets := sockets g1 @ [(nextSocket g1, token)],
                 nextSocket := nextSocket g1 + 1\<rparr>)"

text \<open>\<open>open\<close> when there is no token.\<close>

definition token_err :: "gateway \<Rightarrow> gateway" where
  "token_err g =
     (let g1 = g\<lparr>awaitingToken := awaitingToken g - 1\<rparr>
      in if \<not> truthy (refreshToken (session g1)) then g1\<lparr>stopped := True\<rparr>
         else scheduleReconnect g1)"

text \<open>\<open>socket.onclose\<close>.\<close>

definition onclose :: "nat \<Rightarrow> gateway \<Rightarrow> gateway" where
  "onclose s g =
     (let g1 = g\<lparr>sockets := detach s (sockets g)\<rparr>
      in if ws g1 \<noteq> Some s then g1 else scheduleReconnect (g1\<lparr>ws := None\<rparr>))"

definition reconnect_fires :: "gateway \<Rightarrow> gateway" where
  "reconnect_fires g = open_gateway (g\<lparr>reconnectTimer := None\<rparr>)"

text \<open>\<open>{ ...auth.user, ...frame.d.user }\<close>: a property present in the frame wins.\<close>

definition merge_opt :: "'a option \<Rightarrow> 'a option \<Rightarrow> 'a option" where
  "merge_opt old new = (case new of None \<Rightarrow> old | Some x \<Rightarrow> Some x)"

definition merge_user :: "user option \<Rightarrow> user \<Rightarrow> user" where
  "merge_user old new = (case old of
     None \<Rightarrow> new
   | Some u \<Rightarrow> \<lparr>u_id = u_id new, u_username = u_username new,
        u_email = merge_opt (u_email u) (u_email new),
        u_avatar_url = merge_opt (u_avatar_url u) (u_avatar_url new),
        u_bio = merge_opt (u_bio u) (u_bio new),
        u_pronouns = merge_opt (u_pronouns u) (u_pronouns new),
        u_accent_color = merge_opt (u_accent_color u) (u_accent_color new),
        u_created_at = merge_opt (u_created_at u) (u_created_at new)\<rparr>)"

definition hello_interval :: "nat option \<Rightarrow> nat" where
  "hello_interval d = (case d of None \<Rightarrow> 30000 | Some n \<Rightarrow> if n = 0 then 30000 else n)"

fun handleFrame :: "nat \<Rightarrow> string \<Rightarrow> nat \<Rightarrow> frame \<Rightarrow> gateway \<Rightarrow> gateway" where
  "handleFrame s token now (Hello d) g =
     (stopHeartbeat ((emit (Identify s token) g)\<lparr>lastAck := int now\<rparr>))\<lparr>heartbeatTimer := Some (s, hello_interval d)\<rparr>"
| "handleFrame s token now HeartbeatAck g = g\<lparr>lastAck := int now\<rparr>"
| "handleFrame s token now (Ready u) g =
     (let g1 = emit (Chat (DoSetWsConnected True)) (g\<lparr>backoff := BACKOFF_MIN_MS\<rparr>);
          g2 = (case u of None \<Rightarrow> g1
                | Some x \<Rightarrow> (let m = merge_user (au_user (session g1)) x
                             in (emit (Chat (DoSetUser (Some m))) g1)\<lparr>session := (session g1)\<lparr>au_user := Some m\<rparr>\<rparr>));
          g3 = (if identifiedOnce g2 then emit (Chat DoResync) g2 else g2)
      in g3\<lparr>identifiedOnce := True\<rparr>)"
| "handleFrame s token now (Dispatch ev) g = emit (Chat (Gateway now ev)) g"
| "handleFrame s token now OtherFrame g = g"
| "handleFrame s token now Garbage g = g"

text \<open>One tick of the heartbeat interval; \<open>is_open\<close> is \<open>socket.readyState === OPEN\<close>.\<close>

definition heartbeat_tick :: "int \<Rightarrow> bool \<Rightarrow> gateway \<Rightarrow> gateway" where
  "heartbeat_tick now is_open g = (case heartbeatTimer g of
     None \<Rightarrow> g
   | Some (s, interval) \<Rightarrow>
       if \<not> is_open then g
       else if now - lastAck g > int interval * 3 then emit (CloseSocket s) g
       else emit (Heartbeat s) g)"

section \<open>Steps\<close>

datatype gw_event =
    Connect
  | Disconnect
  | TokenOk string
  | TokenErr
  | Frame nat nat frame
  | Closed nat
  | ReconnectFires
  | HeartbeatTick int bool
  | AuthChanges auth

fun gw_step :: "gw_event \<Rightarrow> gateway \<Rightarrow> gateway" where
  "gw_step Connect g = connectGateway g"
| "gw_step Disconnect g = disconnectGateway g"
| "gw_step (TokenOk t) g = (if awaitingToken g > 0 then token_ok t g else g)"
| "gw_step TokenErr g = (if awaitingToken g > 0 then token_err g else g)"
| "gw_step (Frame s now f) g = (case map_of (sockets g) s of
     None \<Rightarrow> g | Some token \<Rightarrow> handleFrame s token now f g)"
| "gw_step (Closed s) g = (if s \<in> fst ` set (sockets g) then onclose s g else g)"
| "gw_step ReconnectFires g = (if reconnectTimer g = None then g else reconnect_fires g)"
| "gw_step (HeartbeatTick now is_open) g = heartbeat_tick now is_open g"
| "gw_step (AuthChanges s) g = g\<lparr>session := s\<rparr>"

definition gw_run :: "gw_event list \<Rightarrow> gateway \<Rightarrow> gateway" where
  "gw_run es g = fold gw_step es g"

section \<open>The client never gets stuck\<close>

definition gw_live :: "gateway \<Rightarrow> bool" where
  "gw_live g \<longleftrightarrow> (\<not> stopped g \<longrightarrow> awaitingToken g > 0 \<or> ws g \<noteq> None \<or> reconnectTimer g \<noteq> None)
     \<and> (\<forall>s. ws g = Some s \<longrightarrow> s \<in> fst ` set (sockets g))
     \<and> BACKOFF_MIN_MS \<le> backoff g \<and> backoff g \<le> BACKOFF_MAX_MS
     \<and> (\<forall>d. reconnectTimer g = Some d \<longrightarrow> BACKOFF_MIN_MS \<le> d \<and> d \<le> BACKOFF_MAX_MS)"

lemmas gw_ops = connectGateway_def disconnectGateway_def open_gateway_def stopHeartbeat_def
  scheduleReconnect_def token_ok_def token_err_def onclose_def reconnect_fires_def emit_def heartbeat_tick_def

text \<open>A frame changes neither the connection nor what is scheduled.\<close>

lemma frame_frame [simp]:
  "ws (handleFrame s t now f g) = ws g" "stopped (handleFrame s t now f g) = stopped g"
  "reconnectTimer (handleFrame s t now f g) = reconnectTimer g" "awaitingToken (handleFrame s t now f g) = awaitingToken g"
  "sockets (handleFrame s t now f g) = sockets g" "nextSocket (handleFrame s t now f g) = nextSocket g"
  by (cases f; simp add: emit_def stopHeartbeat_def Let_def split: option.split)+

lemma frame_backoff: "backoff (handleFrame s t now f g) \<in> {backoff g, BACKOFF_MIN_MS}"
  by (cases f) (auto simp: emit_def stopHeartbeat_def Let_def split: option.split)

lemma tick_frame [simp]:
  "ws (heartbeat_tick now b g) = ws g" "stopped (heartbeat_tick now b g) = stopped g"
  "reconnectTimer (heartbeat_tick now b g) = reconnectTimer g" "awaitingToken (heartbeat_tick now b g) = awaitingToken g"
  "sockets (heartbeat_tick now b g) = sockets g" "backoff (heartbeat_tick now b g) = backoff g"
  "heartbeatTimer (heartbeat_tick now b g) = heartbeatTimer g"
  by (simp_all add: heartbeat_tick_def emit_def split: option.split)

lemma gw_live_step:
  assumes l: "gw_live g"
  shows "gw_live (gw_step e g)"
proof (cases e)
  case (Frame s now f)
  have "gw_live (handleFrame s t now f g)" for t
    using l frame_backoff [of s t now f g]
    by (auto simp: gw_live_def BACKOFF_MIN_MS_def BACKOFF_MAX_MS_def)
  then show ?thesis using l Frame by (simp split: option.split)
next
  case (Closed s)
  then show ?thesis using l
    by (auto simp: gw_live_def gw_ops BACKOFF_MIN_MS_def BACKOFF_MAX_MS_def Let_def)
next
  case Disconnect
  then show ?thesis using l by (auto simp: gw_live_def gw_ops Let_def split: option.split)
next
  case (HeartbeatTick now b)
  then show ?thesis using l by (simp add: gw_live_def)
qed (use l in \<open>auto simp: gw_live_def gw_ops BACKOFF_MIN_MS_def BACKOFF_MAX_MS_def Let_def\<close>)

interpretation live_runs: invariant_steps gw_step gw_live "\<lambda>_. True"
  by unfold_locales (rule gw_live_step)

section \<open>One connection at a time\<close>

text \<open>
  The client runs in one place at a time (a token being fetched, a socket, or a timer), provided
  \<open>connectGateway\<close> is not called while a token is still being fetched for an earlier call.
\<close>

definition places :: "gateway \<Rightarrow> nat" where
  "places g = awaitingToken g + (if ws g = None then 0 else 1) + (if reconnectTimer g = None then 0 else 1)"

lemma no_place [simp]: "((if x = None then 0 else 1 :: nat) = 0) = (x = None)"
  by simp

definition gw_single :: "gateway \<Rightarrow> bool" where
  "gw_single g \<longleftrightarrow> places g \<le> 1 \<and> (stopped g \<longrightarrow> ws g = None \<and> reconnectTimer g = None)
     \<and> map fst (sockets g) = (case ws g of None \<Rightarrow> [] | Some s \<Rightarrow> [s])
     \<and> (\<forall>s i. heartbeatTimer g = Some (s, i) \<longrightarrow> ws g = Some s)"

definition orderly :: "gateway \<Rightarrow> gw_event \<Rightarrow> bool" where
  "orderly g e \<longleftrightarrow> (e = Connect \<longrightarrow> awaitingToken g = 0)"

lemma frame_heartbeat:
  "heartbeatTimer (handleFrame s t now f g) = (case f of Hello d \<Rightarrow> Some (s, hello_interval d) | _ \<Rightarrow> heartbeatTimer g)"
  by (cases f) (simp_all add: emit_def stopHeartbeat_def Let_def split: option.split)

lemma gw_single_step:
  assumes l: "gw_single g" and o: "orderly g e"
  shows "gw_single (gw_step e g)"
proof (cases e)
  case (Frame s now f)
  show ?thesis
  proof (cases "map_of (sockets g) s")
    case None
    then show ?thesis using l Frame by simp
  next
    case (Some t)
    then have "s \<in> set (map fst (sockets g))" by (auto dest: map_of_SomeD intro: rev_image_eqI)
    then have "ws g = Some s" using l by (auto simp: gw_single_def split: option.splits)
    then show ?thesis using l Frame Some
      by (auto simp: gw_single_def places_def frame_heartbeat split: frame.split)
  qed
next
  case (Closed s)
  show ?thesis
  proof (cases "s \<in> fst ` set (sockets g)")
    case False
    then show ?thesis using l Closed by simp
  next
    case True
    then have w: "ws g = Some s" "map fst (sockets g) = [s]"
      using l by (auto simp: gw_single_def simp flip: set_map split: option.splits)
    then obtain t where "sockets g = [(s, t)]" by (cases "sockets g") auto
    then show ?thesis using l Closed w
      by (auto simp: gw_single_def places_def gw_ops Let_def)
  qed
next
  case Disconnect
  show ?thesis
  proof (cases "ws g")
    case None
    then show ?thesis using l Disconnect by (auto simp: gw_single_def places_def gw_ops Let_def)
  next
    case (Some s)
    then have "map fst (sockets g) = [s]" using l by (simp add: gw_single_def)
    then obtain t where "sockets g = [(s, t)]" by (cases "sockets g") auto
    then show ?thesis using l Disconnect Some by (auto simp: gw_single_def places_def gw_ops Let_def)
  qed
next
  case (HeartbeatTick now b)
  then show ?thesis using l by (simp add: gw_single_def places_def)
next
  case (TokenOk t)
  then show ?thesis using l by (auto simp: gw_single_def places_def gw_ops Let_def split: if_splits)
next
  case Connect
  then show ?thesis using l o by (auto simp: gw_single_def places_def gw_ops orderly_def)
qed (use l in \<open>auto simp: gw_single_def places_def gw_ops Let_def split: if_splits\<close>)

fun orderly_run :: "gw_event list \<Rightarrow> gateway \<Rightarrow> bool" where
  "orderly_run [] g = True"
| "orderly_run (e # es) g = (orderly g e \<and> orderly_run es (gw_step e g))"

lemma gw_single_run: "gw_single g \<Longrightarrow> orderly_run es g \<Longrightarrow> gw_single (gw_run es g)"
  unfolding gw_run_def by (induction es arbitrary: g) (simp_all add: gw_single_step del: gw_step.simps)

end
