(* ===== verification/Gateway_Properties.thy ===== *)
theory Gateway_Properties imports Gateway_Client
begin

text \<open>
  What the gateway client promises over its runs: it is never without a way forward, it holds one
  connection at a time, it backs off as documented, it forwards every dispatch once and in order,
  and it re-synchronises after every reconnection and only then.
\<close>

definition gw_user :: auth where
  "gw_user = \<lparr>au_user = None, accessToken = Some ''a'', refreshToken = Some ''r''\<rparr>"

lemmas gw_eval = gw_run_def initial_gateway_def gw_user_def gw_ops Let_def orderly_def detach_def
  hello_interval_def BACKOFF_MIN_MS_def BACKOFF_MAX_MS_def

section \<open>Liveness and exclusion\<close>

text \<open>
  C16: the client is never stuck: in every run, as long as it is not stopped, a token is being
  fetched, or a socket is open whose closing will be noticed, or a reconnection is scheduled, and
  the delay of that reconnection lies between one and thirty seconds.
\<close>
theorem gateway_never_stuck:
  assumes "g = gw_run es (initial_gateway s)"
  shows "(stopped g \<or> awaitingToken g > 0 \<or> (\<exists>i. ws g = Some i \<and> i \<in> fst ` set (sockets g)) \<or> reconnectTimer g \<noteq> None)
    \<and> (case reconnectTimer g of None \<Rightarrow> True | Some d \<Rightarrow> 1000 \<le> d \<and> d \<le> 30000)"
proof -
  have "gw_live (initial_gateway s)"
    by (simp add: gw_live_def initial_gateway_def BACKOFF_MIN_MS_def BACKOFF_MAX_MS_def)
  then have "gw_live g" unfolding assms gw_run_def by (rule live_runs.run) (simp add: list_all_iff)
  then show ?thesis
    by (auto simp: gw_live_def BACKOFF_MIN_MS_def BACKOFF_MAX_MS_def split: option.split)
qed

lemma gateway_never_stuck_witness:
  "let g = gw_run [Connect, TokenOk ''a'', Closed 0] (initial_gateway gw_user)
   in \<not> stopped g \<and> reconnectTimer g = Some 1000
     \<and> (stopped g \<or> awaitingToken g > 0 \<or> (\<exists>i. ws g = Some i \<and> i \<in> fst ` set (sockets g)) \<or> reconnectTimer g \<noteq> None)"
proof -
  let ?g = "gw_run [Connect, TokenOk ''a'', Closed 0] (initial_gateway gw_user)"
  have "\<not> stopped ?g" "reconnectTimer ?g = Some 1000" by (simp_all add: gw_eval)
  then show ?thesis using gateway_never_stuck [OF refl, of "[Connect, TokenOk ''a'', Closed 0]" gw_user]
    by (simp add: Let_def)
qed

lemma single_initial: "gw_single (initial_gateway s)"
  by (simp add: gw_single_def places_def initial_gateway_def)



text \<open>
  Without that proviso it does not: starting, stopping and starting again before the first
  token arrives opens two sockets, both with handlers, so a message is dispatched twice, and
  stopping closes only one of them.
\<close>
theorem gateway_double_open:
  "let es = [Connect, Disconnect, Connect, TokenOk ''a'', TokenOk ''a''];
       g = gw_run es (initial_gateway gw_user);
       h = gw_run [Disconnect, Frame 0 0 (Dispatch (OTHER_EVENT ''x''))] g
   in map fst (sockets g) = [0, 1] \<and> ws g = Some 1
     \<and> stopped h \<and> map fst (sockets h) = [0] \<and> last (out h) = Chat (Gateway 0 (OTHER_EVENT ''x''))"
  by (simp add: gw_eval)

section \<open>Backoff\<close>

definition failed_attempt :: "gateway \<Rightarrow> gateway" where
  "failed_attempt g = gw_step ReconnectFires (gw_step TokenErr g)"

text \<open>A client that waits for a token, and whose session is alive.\<close>

definition attempting :: "nat \<Rightarrow> gateway \<Rightarrow> bool" where
  "attempting d g \<longleftrightarrow> \<not> stopped g \<and> awaitingToken g = 1 \<and> reconnectTimer g = None \<and> backoff g = d
     \<and> truthy (refreshToken (session g))"

lemma attempt_step: "attempting d g \<Longrightarrow> attempting (min (d * 2) BACKOFF_MAX_MS) (failed_attempt g)"
  by (simp add: attempting_def failed_attempt_def gw_ops Let_def)

lemma attempts: "attempting BACKOFF_MIN_MS g \<Longrightarrow> attempting (min (1000 * 2 ^ k) 30000) ((failed_attempt ^^ k) g)"
proof (induction k)
  case 0
  then show ?case by (simp add: BACKOFF_MIN_MS_def)
next
  case (Suc k)
  have "min (min (1000 * 2 ^ k) 30000 * 2) BACKOFF_MAX_MS = min (1000 * 2 ^ Suc k) (30000 :: nat)"
    by (simp add: BACKOFF_MAX_MS_def min_def)
  then show ?case using attempt_step [OF Suc.IH [OF Suc.prems]] by simp
qed



section \<open>Dispatch\<close>

fun forwarded :: "gw_out list \<Rightarrow> gateway_event list" where
  "forwarded [] = []"
| "forwarded (Chat (Gateway now ev) # xs) = ev # forwarded xs"
| "forwarded (_ # xs) = forwarded xs"

fun dispatches :: "frame list \<Rightarrow> gateway_event list" where
  "dispatches [] = []"
| "dispatches (Dispatch ev # fs) = ev # dispatches fs"
| "dispatches (_ # fs) = dispatches fs"

fun readies :: "frame list \<Rightarrow> nat" where
  "readies [] = 0"
| "readies (Ready u # fs) = Suc (readies fs)"
| "readies (_ # fs) = readies fs"

lemma forwarded_append [simp]: "forwarded (xs @ ys) = forwarded xs @ forwarded ys"
  by (induction xs rule: forwarded.induct) simp_all

definition resyncs :: "gw_out list \<Rightarrow> nat" where
  "resyncs xs = length (filter (\<lambda>x. x = Chat DoResync) xs)"

lemma one_frame:
  "\<exists>xs. out (handleFrame s t now f g) = out g @ xs \<and> forwarded xs = dispatches [f]
     \<and> resyncs xs = (if identifiedOnce g then readies [f] else 0)
     \<and> identifiedOnce (handleFrame s t now f g) = (identifiedOnce g \<or> readies [f] > 0)"
  by (cases f) (auto simp: emit_def stopHeartbeat_def resyncs_def Let_def split: option.split)

text \<open>
  Frames are forwarded faithfully: over any sequence of frames of a socket, the chat store
  receives every dispatched event once and in order, and it is told to re-synchronise once for
  every READY but the first since the client was started.
\<close>
theorem frames_forwarded:
  "\<exists>xs. out (fold (\<lambda>(now, f). handleFrame s t now f) fs g) = out g @ xs
     \<and> forwarded xs = dispatches (map snd fs)
     \<and> resyncs xs = readies (map snd fs) - (if identifiedOnce g then 0 else 1)"
proof -
  have "\<exists>xs. out (fold (\<lambda>(now, f). handleFrame s t now f) fs g) = out g @ xs
     \<and> forwarded xs = dispatches (map snd fs)
     \<and> resyncs xs = readies (map snd fs) - (if identifiedOnce g then 0 else 1)"
  proof (induction fs arbitrary: g)
    case Nil
    then show ?case by (simp add: resyncs_def)
  next
    case (Cons nf fs)
    obtain now f where nf: "nf = (now, f)" by (cases nf)
    let ?g = "handleFrame s t now f g"
    obtain xs where xs: "out ?g = out g @ xs" "forwarded xs = dispatches [f]"
      "resyncs xs = (if identifiedOnce g then readies [f] else 0)"
      "identifiedOnce ?g = (identifiedOnce g \<or> readies [f] > 0)" using one_frame by blast
    obtain ys where ys: "out (fold (\<lambda>(now, f). handleFrame s t now f) fs ?g) = out ?g @ ys"
      "forwarded ys = dispatches (map snd fs)"
      "resyncs ys = readies (map snd fs) - (if identifiedOnce ?g then 0 else 1)" using Cons.IH by blast
    have d: "dispatches (f # gs) = dispatches [f] @ dispatches gs" "readies (f # gs) = readies [f] + readies gs" for gs
      by (cases f; simp)+
    have r: "readies [f] \<le> 1" by (cases f) simp_all
    have "resyncs (xs @ ys) = readies (map snd (nf # fs)) - (if identifiedOnce g then 0 else 1)"
      using xs(3,4) ys(3) d(2) [of "map snd fs"] r
      by (cases "identifiedOnce g") (auto simp: nf resyncs_def)
    then show ?case using xs ys d(1) [of "map snd fs"] nf by (intro exI [of _ "xs @ ys"]) simp
  qed
  then show ?thesis .
qed

end
