(* ===== verification/Voice_Store.thy ===== *)
theory Voice_Store imports Prelude
begin

text \<open>
  \<open>voiceStore.js\<close>: joining and leaving voice calls. The LiveKit library is the environment: a room
  is a number, \<open>live\<close> holds what its participants are at the moment (the environment changes it),
  and its promises (\<open>connect\<close>, \<open>disconnect\<close>, the device switches) are settled by the environment
  in any order. Each async operation is split at its awaits into tasks, as in \<open>Chat_Async\<close>.
\<close>

section \<open>Rooms and descriptors\<close>

text \<open>
  A participant as the client reads it. \<open>pt_screen\<close> and \<open>pt_camera\<close> are what \<open>getTrackPublication\<close>
  returns for the two sources.
\<close>

record publication =
  pb_sid :: string
  pb_kind :: string
  pb_track :: "nat option"
  pb_muted :: bool

record participant =
  pt_identity :: string
  pt_name :: string
  pt_metadata :: string
  pt_speaking :: bool
  pt_mic :: bool
  pt_cam :: bool
  pt_screen_on :: bool
  pt_screen :: "publication option"
  pt_camera :: "publication option"
  pt_publications :: "publication list"

record live_room =
  lr_local :: "participant option"
  lr_remote :: "participant list"

record descriptor =
  ds_identity :: string
  ds_name :: string
  ds_avatarUrl :: string
  ds_isSpeaking :: bool
  ds_micEnabled :: bool
  ds_camEnabled :: bool
  ds_screenEnabled :: bool
  ds_isLocal :: bool

text \<open>\<open>avatar_of\<close> is \<open>JSON.parse(metadata).avatar_url\<close>, \<open>None\<close> when it throws or there is none.\<close>

definition avatarFromMetadata :: "(string \<Rightarrow> string option) \<Rightarrow> string \<Rightarrow> string" where
  "avatarFromMetadata avatar_of metadata =
     (if metadata = [] then [] else (case avatar_of metadata of None \<Rightarrow> [] | Some u \<Rightarrow> u))"

definition describe :: "(string \<Rightarrow> string option) \<Rightarrow> participant \<Rightarrow> bool \<Rightarrow> descriptor" where
  "describe avatar_of p isLocal = \<lparr>ds_identity = pt_identity p,
     ds_name = (if pt_name p = [] then pt_identity p else pt_name p),
     ds_avatarUrl = avatarFromMetadata avatar_of (pt_metadata p), ds_isSpeaking = pt_speaking p,
     ds_micEnabled = pt_mic p, ds_camEnabled = pt_cam p, ds_screenEnabled = pt_screen_on p, ds_isLocal = isLocal\<rparr>"

section \<open>State\<close>

datatype device = Microphone | Camera | Screen

datatype voice_task =
    JoinToken string string
  | JoinConnect nat
  | JoinCleanup nat
  | JoinBail nat
  | JoinMic nat
  | Leaving nat "(string \<times> string) option"
  | Toggling device

datatype voice_call =
    FetchToken string
  | ConnectRoom nat string
  | DisconnectRoom nat
  | SwitchDevice nat device bool

record voice =
  room :: "nat option"
  nextRoom :: nat
  live :: "nat \<Rightarrow> live_room"
  listeners :: "nat list"
  vconnected :: bool
  vconnecting :: bool
  roomChannelId :: "string option"
  roomGuildId :: "string option"
  participants :: "descriptor list"
  localMic :: bool
  localCam :: bool
  localScreen :: bool
  viewVoiceStage :: bool
  mediaVersion :: nat
  vtasks :: "voice_task list"
  calls :: "voice_call list"
  notices :: "string list"

definition empty_room :: live_room where
  "empty_room = \<lparr>lr_local = None, lr_remote = []\<rparr>"

definition initial_voice :: voice where
  "initial_voice = \<lparr>room = None, nextRoom = 0, live = (\<lambda>_. empty_room), listeners = [],
     vconnected = False, vconnecting = False, roomChannelId = None, roomGuildId = None,
     participants = [], localMic = False, localCam = False, localScreen = False,
     viewVoiceStage = False, mediaVersion = 0, vtasks = [], calls = [], notices = []\<rparr>"

text \<open>\<open>set({ ...RESET })\<close>; every caller resets \<open>viewVoiceStage\<close> as well.\<close>

definition RESET :: "voice \<Rightarrow> voice" where
  "RESET v = v\<lparr>vconnected := False, vconnecting := False, roomChannelId := None, roomGuildId := None,
     participants := [], localMic := False, localCam := False, localScreen := False,
     viewVoiceStage := False\<rparr>"

definition vcall :: "voice_call \<Rightarrow> voice_task \<Rightarrow> voice \<Rightarrow> voice" where
  "vcall c t v = v\<lparr>calls := calls v @ [c], vtasks := vtasks v @ [t]\<rparr>"

definition notify :: "string \<Rightarrow> voice \<Rightarrow> voice" where
  "notify m v = v\<lparr>notices := notices v @ [m]\<rparr>"

section \<open>Reading the room\<close>

definition buildParticipants :: "(string \<Rightarrow> string option) \<Rightarrow> voice \<Rightarrow> descriptor list" where
  "buildParticipants av v = (case room v of
     None \<Rightarrow> []
   | Some r \<Rightarrow> (case lr_local (live v r) of None \<Rightarrow> [] | Some p \<Rightarrow> [describe av p True])
       @ map (\<lambda>p. describe av p False) (lr_remote (live v r)))"

definition findParticipant :: "string \<Rightarrow> voice \<Rightarrow> participant option" where
  "findParticipant identity v = (case room v of
     None \<Rightarrow> None
   | Some r \<Rightarrow> (case lr_local (live v r) of
         Some p \<Rightarrow> if pt_identity p = identity then Some p
                   else List.find (\<lambda>p. pt_identity p = identity) (lr_remote (live v r))
       | None \<Rightarrow> List.find (\<lambda>p. pt_identity p = identity) (lr_remote (live v r))))"

definition syncFromRoom :: "(string \<Rightarrow> string option) \<Rightarrow> bool \<Rightarrow> voice \<Rightarrow> voice" where
  "syncFromRoom av bumpMedia v = (case room v of
     None \<Rightarrow> v
   | Some r \<Rightarrow> (let lp = lr_local (live v r)
       in v\<lparr>participants := buildParticipants av v,
            localMic := (case lp of None \<Rightarrow> False | Some p \<Rightarrow> pt_mic p),
            localCam := (case lp of None \<Rightarrow> False | Some p \<Rightarrow> pt_cam p),
            localScreen := (case lp of None \<Rightarrow> False | Some p \<Rightarrow> pt_screen_on p),
            mediaVersion := (if bumpMedia then mediaVersion v + 1 else mediaVersion v)\<rparr>))"

text \<open>What a tile shows: a live screen share before a live camera.\<close>

definition shown :: "publication option \<Rightarrow> nat option" where
  "shown pub = (case pub of None \<Rightarrow> None | Some p \<Rightarrow> if pb_muted p then None else pb_track p)"

definition getDisplayTrack :: "string \<Rightarrow> voice \<Rightarrow> (nat \<times> bool) option" where
  "getDisplayTrack identity v = (case findParticipant identity v of
     None \<Rightarrow> None
   | Some p \<Rightarrow> (case shown (pt_screen p) of
         Some t \<Rightarrow> Some (t, True)
       | None \<Rightarrow> (case shown (pt_camera p) of Some t \<Rightarrow> Some (t, False) | None \<Rightarrow> None)))"

definition getRemoteAudioTracks :: "voice \<Rightarrow> (string \<times> nat) list" where
  "getRemoteAudioTracks v = (case room v of
     None \<Rightarrow> []
   | Some r \<Rightarrow> concat (map (\<lambda>p. List.map_filter
       (\<lambda>pub. case pb_track pub of
          None \<Rightarrow> None
        | Some t \<Rightarrow> if pb_kind pub = ''audio'' then Some (pt_identity p @ '':'' @ pb_sid pub, t) else None)
       (pt_publications p)) (lr_remote (live v r))))"

section \<open>Errors of the capture devices\<close>

record media_error =
  me_name :: string
  me_message :: string

definition device_name :: "device \<Rightarrow> string" where
  "device_name d = (case d of Microphone \<Rightarrow> ''microphone'' | Camera \<Rightarrow> ''camera'' | Screen \<Rightarrow> ''screen'')"

definition capitalised :: "device \<Rightarrow> string" where
  "capitalised d = (case d of Microphone \<Rightarrow> ''Microphone'' | Camera \<Rightarrow> ''Camera'' | Screen \<Rightarrow> ''Screen'')"

definition mediaErrorMessage :: "bool \<Rightarrow> media_error option \<Rightarrow> device \<Rightarrow> string" where
  "mediaErrorMessage isSecureContext e d =
     (let n = (case e of None \<Rightarrow> [] | Some x \<Rightarrow> me_name x)
      in if \<not> isSecureContext
         then ''Can'' @ [CHR 0x27] @ ''t access your '' @ device_name d @
                '': voice/video capture needs a secure page (https or localhost).''
         else if n = ''NotAllowedError'' \<or> n = ''SecurityError''
         then capitalised d @ '' permission denied. Allow access in your browser to continue.''
         else if n = ''NotFoundError'' \<or> n = ''DevicesNotFoundError''
         then ''No '' @ device_name d @ '' found on this device.''
         else if n = ''NotReadableError''
         then ''Your '' @ device_name d @ '' is already in use by another application.''
         else (case e of
             Some x \<Rightarrow> if me_message x \<noteq> [] then me_message x else ''Could not start your '' @ device_name d @ ''.''
           | None \<Rightarrow> ''Could not start your '' @ device_name d @ ''.''))"

section \<open>Joining and leaving\<close>

definition CONNECT_FAILED :: string where
  "CONNECT_FAILED = ''Could not connect to the voice server. Please try again.''"

text \<open>\<open>r.removeAllListeners(); await r.disconnect()\<close>.\<close>

definition tear_down :: "nat \<Rightarrow> voice_task \<Rightarrow> voice \<Rightarrow> voice" where
  "tear_down r t v = vcall (DisconnectRoom r) t (v\<lparr>listeners := removeAll r (listeners v)\<rparr>)"

text \<open>The part of \<open>join\<close> that follows an earlier call's \<open>leave\<close>.\<close>

definition join_start :: "string \<Rightarrow> string \<Rightarrow> voice \<Rightarrow> voice" where
  "join_start channelId guildId v =
     vcall (FetchToken channelId) (JoinToken channelId guildId)
       (v\<lparr>vconnecting := True, roomChannelId := Some channelId, roomGuildId := Some guildId, viewVoiceStage := True\<rparr>)"

text \<open>\<open>leave\<close> with what its caller does afterwards: nothing, or the rest of a \<open>join\<close>.\<close>

definition leave_then :: "(string \<times> string) option \<Rightarrow> voice \<Rightarrow> voice" where
  "leave_then k v = (case room v of
     Some r \<Rightarrow> tear_down r (Leaving r k) (v\<lparr>room := None\<rparr>)
   | None \<Rightarrow> (case k of None \<Rightarrow> RESET v | Some (c, g) \<Rightarrow> join_start c g (RESET v)))"

definition leave :: "voice \<Rightarrow> voice" where
  "leave v = leave_then None v"

definition join :: "string \<Rightarrow> string \<Rightarrow> voice \<Rightarrow> voice" where
  "join channelId guildId v =
     (let v1 = v\<lparr>viewVoiceStage := True\<rparr>
      in if vconnecting v1 then v1
         else if vconnected v1 \<and> roomChannelId v1 = Some channelId then v1
         else if room v1 \<noteq> None \<or> vconnected v1 then leave_then (Some (channelId, guildId)) v1
         else join_start channelId guildId v1)"

definition leave_done :: "(string \<times> string) option \<Rightarrow> voice \<Rightarrow> voice" where
  "leave_done k v = (case k of None \<Rightarrow> RESET v | Some (c, g) \<Rightarrow> join_start c g (RESET v))"

definition token_failed :: "string \<Rightarrow> voice \<Rightarrow> voice" where
  "token_failed e v = notify e (RESET v)"

definition room_created :: "voice \<Rightarrow> voice" where
  "room_created v = v\<lparr>nextRoom := nextRoom v + 1, room := Some (nextRoom v),
     listeners := listeners v @ [nextRoom v]\<rparr>"

definition token_arrived :: "string \<Rightarrow> voice \<Rightarrow> voice" where
  "token_arrived token v =
     vcall (ConnectRoom (nextRoom v) token) (JoinConnect (nextRoom v)) (room_created v)"

definition connect_failed :: "nat \<Rightarrow> voice \<Rightarrow> voice" where
  "connect_failed r v =
     tear_down r (JoinCleanup r) (if room v = Some r then v\<lparr>room := None\<rparr> else v)"

text \<open>A reply without a body: reading its token throws, inside the same \<open>try\<close>.\<close>

definition no_token :: "voice \<Rightarrow> voice" where
  "no_token v = connect_failed (nextRoom v) (room_created v)"

definition cleanup_done :: "voice \<Rightarrow> voice" where
  "cleanup_done v = notify CONNECT_FAILED (RESET v)"

definition connect_done :: "(string \<Rightarrow> string option) \<Rightarrow> nat \<Rightarrow> voice \<Rightarrow> voice" where
  "connect_done av r v =
     (if room v \<noteq> Some r then tear_down r (JoinBail r) v
      else vcall (SwitchDevice r Microphone True) (JoinMic r)
             (syncFromRoom av True (v\<lparr>vconnected := True, vconnecting := False\<rparr>)))"

definition mic_settled :: "(string \<Rightarrow> string option) \<Rightarrow> bool \<Rightarrow> nat \<Rightarrow> media_error option option \<Rightarrow> voice \<Rightarrow> voice" where
  "mic_settled av secure r err v =
     (let v1 = (case err of None \<Rightarrow> v | Some e \<Rightarrow> notify (mediaErrorMessage secure e Microphone) v)
      in if room v1 = Some r then syncFromRoom av True v1 else v1)"

definition enabled :: "device \<Rightarrow> participant \<Rightarrow> bool" where
  "enabled d p = (case d of Microphone \<Rightarrow> pt_mic p | Camera \<Rightarrow> pt_cam p | Screen \<Rightarrow> pt_screen_on p)"

definition toggle_device :: "device \<Rightarrow> voice \<Rightarrow> voice" where
  "toggle_device d v = (case room v of
     None \<Rightarrow> v
   | Some r \<Rightarrow> (case lr_local (live v r) of
         None \<Rightarrow> v
       | Some p \<Rightarrow> vcall (SwitchDevice r d (\<not> enabled d p)) (Toggling d) v))"

definition toggle_settled :: "(string \<Rightarrow> string option) \<Rightarrow> bool \<Rightarrow> device \<Rightarrow> media_error option option \<Rightarrow> voice \<Rightarrow> voice" where
  "toggle_settled av secure d err v =
     syncFromRoom av True (case err of
       None \<Rightarrow> v
     | Some e \<Rightarrow> (if d = Screen \<and> (case e of None \<Rightarrow> False | Some x \<Rightarrow> me_name x = ''NotAllowedError'') then v
                  else notify (mediaErrorMessage secure e d) v))"

definition onRoomDisconnected :: "voice \<Rightarrow> voice" where
  "onRoomDisconnected v = (if room v = None then v else RESET (v\<lparr>room := None\<rparr>))"

section \<open>Steps\<close>

text \<open>What a promise settles to: a token, nothing, or an error (message, or a device error).\<close>

datatype settled = Token string | Settled | Failed string "media_error option"

datatype room_event = MediaEvent | SpeakingEvent | DisconnectedEvent

datatype voice_event =
    Join string string
  | Leave
  | SetViewingText
  | ShowStage
  | Toggle device
  | Settle nat settled
  | RoomChanges nat live_room
  | RoomFires nat room_event

fun settle :: "(string \<Rightarrow> string option) \<Rightarrow> bool \<Rightarrow> voice_task \<Rightarrow> settled \<Rightarrow> voice \<Rightarrow> voice" where
  "settle av sec (JoinToken c g) res v = (case res of
     Token t \<Rightarrow> token_arrived t v | Failed e _ \<Rightarrow> token_failed e v | Settled \<Rightarrow> no_token v)"
| "settle av sec (JoinConnect r) res v = (case res of
     Failed _ _ \<Rightarrow> connect_failed r v | _ \<Rightarrow> connect_done av r v)"
| "settle av sec (JoinCleanup r) res v = cleanup_done v"
| "settle av sec (JoinBail r) res v = v"
| "settle av sec (JoinMic r) res v =
     mic_settled av sec r (case res of Failed _ e \<Rightarrow> Some e | _ \<Rightarrow> None) v"
| "settle av sec (Leaving r k) res v = leave_done k v"
| "settle av sec (Toggling d) res v =
     toggle_settled av sec d (case res of Failed _ e \<Rightarrow> Some e | _ \<Rightarrow> None) v"

fun voice_step :: "(string \<Rightarrow> string option) \<Rightarrow> bool \<Rightarrow> voice_event \<Rightarrow> voice \<Rightarrow> voice" where
  "voice_step av sec (Join c g) v = join c g v"
| "voice_step av sec Leave v = leave v"
| "voice_step av sec SetViewingText v = v\<lparr>viewVoiceStage := False\<rparr>"
| "voice_step av sec ShowStage v = v\<lparr>viewVoiceStage := True\<rparr>"
| "voice_step av sec (Toggle d) v = toggle_device d v"
| "voice_step av sec (Settle i res) v =
     (if i < length (vtasks v)
      then settle av sec (vtasks v ! i) res (v\<lparr>vtasks := take i (vtasks v) @ drop (Suc i) (vtasks v)\<rparr>)
      else v)"
| "voice_step av sec (RoomChanges r l) v = v\<lparr>live := (live v)(r := l)\<rparr>"
| "voice_step av sec (RoomFires r e) v =
     (if r \<in> set (listeners v)
      then (case e of MediaEvent \<Rightarrow> syncFromRoom av True v | SpeakingEvent \<Rightarrow> syncFromRoom av False v
            | DisconnectedEvent \<Rightarrow> onRoomDisconnected v)
      else v)"

end
