(* ===== verification/Voice_Properties.thy ===== *)
theory Voice_Properties imports Voice_Store
begin

text \<open>
  What the voice store promises: it never hangs in the connecting state, a call it shows has a
  room, an undisturbed join ends in the call that was asked for and cleans up the earlier one, and
  every error leads back to the idle state with a notice. The last section shows what happens
  when a user leaves or joins at the wrong moment.
\<close>

section \<open>The invariant of all runs\<close>

definition voice_inv :: "voice \<Rightarrow> bool" where
  "voice_inv v \<longleftrightarrow>
     (vconnecting v \<longrightarrow> (\<exists>c g. JoinToken c g \<in> set (vtasks v)) \<or> (\<exists>r. JoinConnect r \<in> set (vtasks v) \<and> room v = Some r)
        \<or> (\<exists>r. JoinCleanup r \<in> set (vtasks v)) \<or> (\<exists>r k. Leaving r k \<in> set (vtasks v)))
     \<and> (vconnected v \<longrightarrow> room v \<noteq> None \<or> (\<exists>r k. Leaving r k \<in> set (vtasks v)) \<or> (\<exists>r. JoinCleanup r \<in> set (vtasks v)))"

lemma vcall_simps [simp]:
  "vtasks (vcall c t v) = vtasks v @ [t]" "calls (vcall c t v) = calls v @ [c]" "room (vcall c t v) = room v"
  "vconnecting (vcall c t v) = vconnecting v" "vconnected (vcall c t v) = vconnected v"
  "roomChannelId (vcall c t v) = roomChannelId v" "roomGuildId (vcall c t v) = roomGuildId v"
  "listeners (vcall c t v) = listeners v" "nextRoom (vcall c t v) = nextRoom v" "live (vcall c t v) = live v"
  "notices (vcall c t v) = notices v" "viewVoiceStage (vcall c t v) = viewVoiceStage v"
  by (simp_all add: vcall_def)

lemma RESET_simps [simp]:
  "vtasks (RESET v) = vtasks v" "room (RESET v) = room v" "\<not> vconnecting (RESET v)" "\<not> vconnected (RESET v)"
  "roomChannelId (RESET v) = None" "calls (RESET v) = calls v" "listeners (RESET v) = listeners v"
  "nextRoom (RESET v) = nextRoom v" "live (RESET v) = live v" "notices (RESET v) = notices v"
  "participants (RESET v) = []" "\<not> localMic (RESET v)" "\<not> viewVoiceStage (RESET v)"
  by (simp_all add: RESET_def)

lemma sync_simps [simp]:
  "vtasks (syncFromRoom av b v) = vtasks v" "room (syncFromRoom av b v) = room v"
  "vconnecting (syncFromRoom av b v) = vconnecting v" "vconnected (syncFromRoom av b v) = vconnected v"
  "roomChannelId (syncFromRoom av b v) = roomChannelId v" "roomGuildId (syncFromRoom av b v) = roomGuildId v"
  "calls (syncFromRoom av b v) = calls v" "listeners (syncFromRoom av b v) = listeners v"
  "nextRoom (syncFromRoom av b v) = nextRoom v" "live (syncFromRoom av b v) = live v"
  "notices (syncFromRoom av b v) = notices v"
  by (simp_all add: syncFromRoom_def Let_def split: option.split)

lemma notify_simps [simp]:
  "vtasks (notify m v) = vtasks v" "room (notify m v) = room v" "vconnecting (notify m v) = vconnecting v"
  "vconnected (notify m v) = vconnected v" "calls (notify m v) = calls v" "listeners (notify m v) = listeners v"
  "roomChannelId (notify m v) = roomChannelId v" "live (notify m v) = live v" "nextRoom (notify m v) = nextRoom v"
  "notices (notify m v) = notices v @ [m]" "participants (notify m v) = participants v" "roomGuildId (notify m v) = roomGuildId v"
  by (simp_all add: notify_def)

lemmas voice_ops = leave_then_def leave_def join_def join_start_def leave_done_def tear_down_def token_failed_def
  token_arrived_def room_created_def no_token_def connect_failed_def cleanup_done_def connect_done_def
  mic_settled_def toggle_device_def toggle_settled_def onRoomDisconnected_def Let_def

lemma voice_inv_same:
  "voice_inv v \<Longrightarrow> set (vtasks v) \<subseteq> set (vtasks w) \<Longrightarrow> room w = room v \<Longrightarrow> vconnecting w = vconnecting v \<Longrightarrow>
   vconnected w = vconnected v \<Longrightarrow> voice_inv w"
  unfolding voice_inv_def by (metis subsetD)

lemma voice_inv_idle: "\<not> vconnecting v \<Longrightarrow> \<not> vconnected v \<Longrightarrow> voice_inv v"
  by (simp add: voice_inv_def)

lemma voice_inv_leave_then: "voice_inv (leave_then k v)"
  by (auto simp: voice_inv_def voice_ops split: option.split)

lemma voice_inv_join: "voice_inv v \<Longrightarrow> voice_inv (join c g v)"
proof -
  assume v: "voice_inv v"
  let ?v = "v\<lparr>viewVoiceStage := True\<rparr>"
  have "voice_inv ?v" using v by (simp add: voice_inv_def)
  moreover have "voice_inv (join_start c g ?v)" if "\<not> vconnected v"
    using that by (auto simp: voice_inv_def join_start_def)
  ultimately show ?thesis using voice_inv_leave_then by (simp add: join_def Let_def)
qed

text \<open>What is left of the invariant when a task has been taken out of the list.\<close>

definition voice_inv_with :: "voice_task \<Rightarrow> voice \<Rightarrow> bool" where
  "voice_inv_with t v \<longleftrightarrow> voice_inv (v\<lparr>vtasks := t # vtasks v\<rparr>)"

lemma voice_inv_settle:
  assumes "voice_inv_with t v"
  shows "voice_inv (settle av sec t res v)"
proof (cases t)
  case (JoinToken c g)
  then show ?thesis
    by (auto simp: voice_inv_def voice_ops split: settled.split)
next
  case (JoinConnect r)
  have fail: "voice_inv (connect_failed r v)"
    using assms JoinConnect by (auto simp: voice_inv_with_def voice_inv_def voice_ops)
  have done': "voice_inv (connect_done av r v)"
    using assms JoinConnect by (auto simp: voice_inv_with_def voice_inv_def voice_ops)
  show ?thesis using JoinConnect fail done' by (simp split: settled.split)
next
  case (JoinCleanup r)
  then show ?thesis by (simp add: cleanup_done_def voice_inv_idle)
next
  case (JoinBail r)
  then show ?thesis using assms by (auto simp: voice_inv_with_def voice_inv_def)
next
  case (JoinMic r)
  then show ?thesis using assms by (auto simp: voice_inv_with_def voice_inv_def voice_ops split: settled.split)
next
  case (Leaving r k)
  then show ?thesis by (auto simp: voice_inv_def voice_ops split: option.split)
next
  case (Toggling d)
  then show ?thesis using assms by (auto simp: voice_inv_with_def voice_inv_def voice_ops split: settled.split)
qed

lemma voice_inv_step:
  assumes v: "voice_inv v"
  shows "voice_inv (voice_step av sec e v)"
proof (cases e)
  case (Settle i res)
  show ?thesis
  proof (cases "i < length (vtasks v)")
    case True
    let ?w = "v\<lparr>vtasks := take i (vtasks v) @ drop (Suc i) (vtasks v)\<rparr>"
    have "set (vtasks v) = set (vtasks v ! i # take i (vtasks v) @ drop (Suc i) (vtasks v))"
      by (subst id_take_nth_drop [OF True]) auto
    then have "voice_inv_with (vtasks v ! i) ?w"
      using v unfolding voice_inv_with_def voice_inv_def by simp
    then show ?thesis using Settle True voice_inv_settle by simp
  qed (use v Settle in simp)
next
  case (RoomFires r f)
  then show ?thesis using v
    by (cases f) (auto simp: onRoomDisconnected_def intro: voice_inv_same voice_inv_idle)
next
  case (Join c g)
  then show ?thesis using v voice_inv_join by simp
next
  case Leave
  then show ?thesis using voice_inv_leave_then by (simp add: leave_def)
next
  case (Toggle d)
  have "voice_inv (toggle_device d v)"
    by (rule voice_inv_same [OF v]) (auto simp: toggle_device_def split: option.split)
  then show ?thesis using Toggle by simp
qed (use v in \<open>simp_all add: voice_inv_def\<close>)

interpretation voice_runs: invariant_steps "voice_step av sec" voice_inv "\<lambda>_. True" for av sec
  by unfold_locales (rule voice_inv_step)


definition no_avatar :: "string \<Rightarrow> string option" where
  "no_avatar m = None"

definition ann :: participant where
  "ann = \<lparr>pt_identity = ''ann'', pt_name = ''Ann'', pt_metadata = [], pt_speaking = False, pt_mic = True,
     pt_cam = False, pt_screen_on = False, pt_screen = None, pt_camera = None, pt_publications = []\<rparr>"


section \<open>Joining\<close>

text \<open>Settling the newest promise.\<close>

definition settle_last :: "(string \<Rightarrow> string option) \<Rightarrow> bool \<Rightarrow> settled \<Rightarrow> voice \<Rightarrow> voice" where
  "settle_last av sec res v = voice_step av sec (Settle (length (vtasks v) - 1) res) v"

lemma settle_last:
  "vtasks v = ts @ [t] \<Longrightarrow> settle_last av sec res v = settle av sec t res (v\<lparr>vtasks := ts\<rparr>)"
  by (simp add: settle_last_def)

definition idle :: "voice \<Rightarrow> bool" where
  "idle v \<longleftrightarrow> room v = None \<and> \<not> vconnected v \<and> \<not> vconnecting v"

text \<open>
  C23: an undisturbed join ends in the call asked for: it fetches a token for the channel,
  connects a new room with that token, then turns the microphone on, and ends connected to that
  channel and guild with the participants of the room on display and nothing outstanding. If
  there was another call it is torn down first: its listeners are gone before the token is
  fetched, and its room is disconnected.
\<close>
theorem join_connects:
  assumes "\<not> vconnecting v" and "\<not> vconnected v \<or> roomChannelId v \<noteq> Some c"
    and "case room v of None \<Rightarrow> \<not> vconnected v | Some r \<Rightarrow> r < nextRoom v"
    and "w = (case room v of None \<Rightarrow> join c g v | Some _ \<Rightarrow> settle_last av sec Settled (join c g v))"
    and "z = settle_last av sec Settled (settle_last av sec Settled (settle_last av sec (Token t) w))"
  shows "vconnected z \<and> \<not> vconnecting z \<and> roomChannelId z = Some c \<and> roomGuildId z = Some g
    \<and> room z = Some (nextRoom v) \<and> vtasks z = vtasks v \<and> participants z = buildParticipants av z
    \<and> calls z = calls v @ (case room v of None \<Rightarrow> [] | Some r \<Rightarrow> [DisconnectRoom r])
         @ [FetchToken c, ConnectRoom (nextRoom v) t, SwitchDevice (nextRoom v) Microphone True]
    \<and> listeners z = (case room v of None \<Rightarrow> listeners v | Some r \<Rightarrow> removeAll r (listeners v)) @ [nextRoom v]"
proof -
  define u where "u = (case room v of None \<Rightarrow> v\<lparr>viewVoiceStage := True\<rparr>
    | Some r \<Rightarrow> (RESET (v\<lparr>room := None, viewVoiceStage := True, calls := calls v @ [DisconnectRoom r], listeners := removeAll r (listeners v)\<rparr>)))"
  have w: "w = join_start c g u"
  proof (cases "room v")
    case None
    then show ?thesis using assms by (simp add: join_def u_def)
  next
    case (Some r)
    have "join c g v = vcall (DisconnectRoom r) (Leaving r (Some (c, g)))
        (v\<lparr>viewVoiceStage := True, room := None, listeners := removeAll r (listeners v)\<rparr>)"
      using assms(1,2) Some by (auto simp: join_def leave_then_def tear_down_def Let_def)
    then have "settle_last av sec Settled (join c g v) = join_start c g u"
      using settle_last [of "join c g v" "vtasks v" "Leaving r (Some (c, g))"] Some
      by (simp add: leave_done_def u_def vcall_def RESET_def join_start_def)
    then show ?thesis using assms(4) Some by simp
  qed
  have u: "vtasks u = vtasks v" "nextRoom u = nextRoom v"
    by (simp_all add: u_def split: option.split)
  let ?r = "nextRoom v"
  define x where "x = settle_last av sec (Token t) w"
  have x: "x = token_arrived t (w\<lparr>vtasks := vtasks v\<rparr>)"
    using settle_last [of w "vtasks v" "JoinToken c g"] w u by (simp add: x_def join_start_def)
  then have xt: "vtasks x = vtasks v @ [JoinConnect ?r]"
    by (simp add: token_arrived_def w join_start_def room_created_def u)
  define y where "y = settle_last av sec Settled x"
  have y: "y = connect_done av ?r (x\<lparr>vtasks := vtasks v\<rparr>)"
    using settle_last [OF xt] by (simp add: y_def)
  have yt: "vtasks y = vtasks v @ [JoinMic ?r]"
    unfolding y x w by (simp add: connect_done_def token_arrived_def room_created_def u join_start_def)
  have z: "z = mic_settled av sec ?r None (y\<lparr>vtasks := vtasks v\<rparr>)"
    using settle_last [OF yt] assms(5) by (simp add: x_def y_def)
  show ?thesis
    unfolding z y x w
    by (simp add: mic_settled_def connect_done_def token_arrived_def room_created_def join_start_def vcall_def
        syncFromRoom_def buildParticipants_def Let_def u_def RESET_def split: option.split)
qed

lemma join_connects_witness:
  "let v = initial_voice; z = settle_last no_avatar True Settled (settle_last no_avatar True Settled
      (settle_last no_avatar True (Token ''t'') (join ''c'' ''g'' v)))
   in vconnected z \<and> roomChannelId z = Some ''c''"
proof -
  have i: "\<not> vconnecting initial_voice" "\<not> vconnected initial_voice \<or> roomChannelId initial_voice \<noteq> Some ''c''"
    "case room initial_voice of None \<Rightarrow> \<not> vconnected initial_voice | Some r \<Rightarrow> r < nextRoom initial_voice"
    "join ''c'' ''g'' initial_voice = (case room initial_voice of None \<Rightarrow> join ''c'' ''g'' initial_voice
       | Some _ \<Rightarrow> settle_last no_avatar True Settled (join ''c'' ''g'' initial_voice))"
    by (simp_all add: initial_voice_def)
  show ?thesis using join_connects [OF i refl, of "''t''"] unfolding Let_def by blast
qed

text \<open>
  A join that fails leads back to the idle state with one notice: whether the token is
  refused, the reply is empty or the room cannot be connected, the store ends with no room, no
  call on display and no listener of the failed room, and the reason is shown once.
\<close>
theorem join_failure_recovers:
  assumes "idle v" and "list_all (\<lambda>r. r < nextRoom v) (listeners v)"
    and "z = (case t of
        None \<Rightarrow> settle_last av sec (Failed e None) (join c g v)
      | Some tok \<Rightarrow> settle_last av sec Settled (settle_last av sec (Failed e None)
          (settle_last av sec (Token tok) (join c g v))))"
  shows "idle z \<and> roomChannelId z = None \<and> participants z = [] \<and> vtasks z = vtasks v
    \<and> listeners z = listeners v \<and> notices z = notices v @ [case t of None \<Rightarrow> e | Some _ \<Rightarrow> CONNECT_FAILED]"
proof -
  have nl: "nextRoom v \<notin> set (listeners v)" using assms(2) by (auto simp: list_all_iff)
  have j: "join c g v = join_start c g (v\<lparr>viewVoiceStage := True\<rparr>)"
    using assms(1) by (simp add: join_def idle_def)
  have jt: "vtasks (join c g v) = vtasks v @ [JoinToken c g]" unfolding j by (simp add: join_start_def)
  show ?thesis
  proof (cases t)
    case None
    then have "z = token_failed e ((join c g v)\<lparr>vtasks := vtasks v\<rparr>)"
      using settle_last [OF jt, of av sec "Failed e None"] assms(3) by simp
    then show ?thesis using assms(1) None
      by (simp add: idle_def token_failed_def j join_start_def)
  next
    case (Some tok)
    let ?r = "nextRoom v"
    define x where "x = settle_last av sec (Token tok) (join c g v)"
    have x: "x = token_arrived tok ((join c g v)\<lparr>vtasks := vtasks v\<rparr>)"
      using settle_last [OF jt, of av sec "Token tok"] by (simp add: x_def)
    then have xt: "vtasks x = vtasks v @ [JoinConnect ?r]" "nextRoom (join c g v) = ?r"
      by (simp_all add: token_arrived_def room_created_def j join_start_def)
    define y where "y = settle_last av sec (Failed e None) x"
    have y: "y = connect_failed ?r (x\<lparr>vtasks := vtasks v\<rparr>)"
      using settle_last [OF xt(1), of av sec "Failed e None"] by (simp add: y_def)
    then have yt: "vtasks y = vtasks v @ [JoinCleanup ?r]" by (simp add: connect_failed_def tear_down_def)
    have "z = cleanup_done (y\<lparr>vtasks := vtasks v\<rparr>)"
      using settle_last [OF yt, of av sec Settled] assms(3) Some by (simp add: x_def y_def)
    then show ?thesis unfolding y x using assms(1) Some nl
      by (simp add: idle_def cleanup_done_def connect_failed_def tear_down_def token_arrived_def room_created_def
          j join_start_def vcall_def removeAll_id)
  qed
qed

lemma join_failure_recovers_witness:
  "notices (settle_last no_avatar True (Failed ''no'' None) (join ''c'' ''g'' initial_voice)) = [''no'']"
proof -
  have "idle initial_voice" "list_all (\<lambda>r. r < nextRoom initial_voice) (listeners initial_voice)"
    by (simp_all add: idle_def initial_voice_def)
  note f = join_failure_recovers [where t = None and av = no_avatar and sec = True and e = "''no''" and c = "''c''" and g = "''g''", OF this]
  show ?thesis using f [OF refl] by (simp add: initial_voice_def)
qed

section \<open>Leaving and reading\<close>



lemma map_filter_set: "set (List.map_filter f xs) = {y. \<exists>x \<in> set xs. f x = Some y}"
  by (induction xs) (auto simp: List.map_filter_simps split: option.splits)

text \<open>
  What a call shows and plays: a tile shows the participant's screen share if one is live,
  otherwise the camera if that is live, and nothing muted; and the audio that is played is
  exactly the live audio of the remote participants, never the user's own.
\<close>
theorem call_media:
  assumes "room v = Some r" and "findParticipant i v = Some p"
  shows "getDisplayTrack i v = (case (shown (pt_screen p), shown (pt_camera p)) of
       (Some t, _) \<Rightarrow> Some (t, True) | (None, Some t) \<Rightarrow> Some (t, False) | (None, None) \<Rightarrow> None)
    \<and> (pt_identity p = i \<and> (lr_local (live v r) = Some p \<or> p \<in> set (lr_remote (live v r))))
    \<and> set (getRemoteAudioTracks v) = {(pt_identity q @ '':'' @ pb_sid pub, t) | q pub t.
         q \<in> set (lr_remote (live v r)) \<and> pub \<in> set (pt_publications q) \<and> pb_kind pub = ''audio'' \<and> pb_track pub = Some t}"
proof -
  have "pt_identity p = i \<and> (lr_local (live v r) = Some p \<or> p \<in> set (lr_remote (live v r)))"
    using assms find_Some_set [of "\<lambda>p. pt_identity p = i" "lr_remote (live v r)" p]
    by (auto simp: findParticipant_def split: option.splits if_splits)
  moreover have "getDisplayTrack i v = (case (shown (pt_screen p), shown (pt_camera p)) of
       (Some t, _) \<Rightarrow> Some (t, True) | (None, Some t) \<Rightarrow> Some (t, False) | (None, None) \<Rightarrow> None)"
    using assms(2) by (simp add: getDisplayTrack_def split: option.split)
  moreover have "set (getRemoteAudioTracks v) = {(pt_identity q @ '':'' @ pb_sid pub, t) | q pub t.
         q \<in> set (lr_remote (live v r)) \<and> pub \<in> set (pt_publications q) \<and> pb_kind pub = ''audio'' \<and> pb_track pub = Some t}"
    using assms(1) by (auto simp: getRemoteAudioTracks_def map_filter_set split: option.splits if_splits) force
  ultimately show ?thesis by blast
qed

lemma call_media_witness:
  "getDisplayTrack ''ann'' (initial_voice\<lparr>room := Some 0, live := (\<lambda>_. \<lparr>lr_local = Some ann, lr_remote = []\<rparr>)\<rparr>) = None"
proof -
  let ?v = "initial_voice\<lparr>room := Some 0, live := (\<lambda>_. \<lparr>lr_local = Some ann, lr_remote = []\<rparr>)\<rparr>"
  have "room ?v = Some 0" "findParticipant ''ann'' ?v = Some ann" by (simp_all add: findParticipant_def ann_def)
  from call_media [OF this] show ?thesis by (simp add: ann_def shown_def)
qed

section \<open>Wrong moments\<close>

lemmas voice_eval = voice_ops vcall_def initial_voice_def syncFromRoom_def empty_room_def RESET_def notify_def
  buildParticipants_def

text \<open>
  Leaving while the token is being fetched is undone: the join goes on and connects, with the
  microphone switched on, in a store that no longer knows which channel it is.
\<close>
lemma leave_while_fetching_is_undone:
  "let v = fold (voice_step no_avatar True) [Join ''c'' ''g'', Leave, Settle 0 (Token ''t''), Settle 0 Settled] initial_voice
   in vconnected v \<and> roomChannelId v = None \<and> last (calls v) = SwitchDevice 0 Microphone True"
  by (simp add: voice_eval)

text \<open>
  The late failure of an abandoned join takes the next call off the screen while it goes on: the
  room is connected and its microphone was switched on, and the store shows no call.
\<close>
lemma late_failure_hides_call:
  "let v = fold (voice_step no_avatar True)
       [Join ''a'' ''g'', Settle 0 (Token ''t''), Leave, Settle 1 Settled,
        Join ''b'' ''g'', Settle 1 (Token ''u''), Settle 1 Settled, Settle 1 Settled,
        Settle 0 (Failed ''aborted'' None), Settle 0 Settled] initial_voice
   in room v = Some 1 \<and> \<not> vconnected v \<and> vtasks v = [] \<and> SwitchDevice 1 Microphone True \<in> set (calls v)
     \<and> DisconnectRoom 1 \<notin> set (calls v)"
  by (simp add: voice_eval)

end
