(* ===== verification/Js_Text.thy ===== *)
theory Js_Text imports Prelude "HOL-Library.Word"
begin

text \<open>
  Text the user types. Its length, its caret positions and its limits count UTF-16 code units, so
  it is the list of its code units; the rest of the development only moves text and keeps it as
  bytes. \<open>trim\<close> removes the white space and the line terminators of ECMAScript at both ends.
\<close>

type_synonym text16 = "16 word list"

definition white_space :: "16 word list" where
  "white_space = [9, 10, 11, 12, 13, 32, 160, 0x1680, 0x2000, 0x2001, 0x2002, 0x2003, 0x2004,
     0x2005, 0x2006, 0x2007, 0x2008, 0x2009, 0x200A, 0x2028, 0x2029, 0x202F, 0x205F, 0x3000, 0xFEFF]"

definition isSpace :: "16 word \<Rightarrow> bool" where
  "isSpace c \<longleftrightarrow> c \<in> set white_space"

definition trim :: "text16 \<Rightarrow> text16" where
  "trim s = rev (dropWhile isSpace (rev (dropWhile isSpace s)))"

definition slice :: "nat \<Rightarrow> nat \<Rightarrow> 'a list \<Rightarrow> 'a list" where
  "slice a b xs = drop a (take b xs)"

text \<open>ASCII text as code units, for constants and for examples.\<close>

definition ascii16 :: "string \<Rightarrow> text16" where
  "ascii16 s = map (\<lambda>c. word_of_nat (of_char c)) s"

text \<open>
  Text as the UTF-8 bytes the rest of the development uses; a surrogate without its partner is
  sent as U+FFFD.
\<close>

definition is_high :: "nat \<Rightarrow> bool" where
  "is_high n \<longleftrightarrow> 0xD800 \<le> n \<and> n < 0xDC00"

definition is_low :: "nat \<Rightarrow> bool" where
  "is_low n \<longleftrightarrow> 0xDC00 \<le> n \<and> n < 0xE000"

definition utf8_bytes :: "nat \<Rightarrow> string" where
  "utf8_bytes n =
     (if n < 0x80 then [char_of n]
      else if n < 0x800 then [char_of (0xC0 + n div 64), char_of (0x80 + n mod 64)]
      else if n < 0x10000
      then [char_of (0xE0 + n div 4096), char_of (0x80 + n div 64 mod 64), char_of (0x80 + n mod 64)]
      else [char_of (0xF0 + n div 262144), char_of (0x80 + n div 4096 mod 64),
            char_of (0x80 + n div 64 mod 64), char_of (0x80 + n mod 64)])"

fun utf8 :: "text16 \<Rightarrow> string" where
  "utf8 [] = []"
| "utf8 [c] = utf8_bytes (if is_high (unat c) \<or> is_low (unat c) then 0xFFFD else unat c)"
| "utf8 (c # d # cs) =
     (if is_high (unat c) \<and> is_low (unat d)
      then utf8_bytes (0x10000 + (unat c - 0xD800) * 1024 + (unat d - 0xDC00)) @ utf8 cs
      else utf8_bytes (if is_high (unat c) \<or> is_low (unat c) then 0xFFFD else unat c) @ utf8 (d # cs))"

lemma utf8_bytes_ne: "utf8_bytes n \<noteq> []"
  by (simp add: utf8_bytes_def)

lemma utf8_Nil_iff [simp]: "utf8 s = [] \<longleftrightarrow> s = []"
  by (induction s rule: utf8.induct) (simp_all add: utf8_bytes_ne)

lemma length_trim: "length (trim s) \<le> length s"
  unfolding trim_def by (metis length_rev le_trans length_dropWhile_le)

lemma trim_shape: "\<exists>a b. s = a @ trim s @ b \<and> list_all isSpace a \<and> list_all isSpace b"
proof -
  define m where "m = dropWhile isSpace s"
  have s: "s = takeWhile isSpace s @ m" by (simp add: m_def)
  have "rev m = takeWhile isSpace (rev m) @ dropWhile isSpace (rev m)" by simp
  then have "m = trim s @ rev (takeWhile isSpace (rev m))"
    by (metis m_def rev_append rev_rev_ident trim_def)
  moreover have "list_all isSpace (rev (takeWhile isSpace (rev m)))"
    "list_all isSpace (takeWhile isSpace s)"
    by (auto simp: list_all_iff dest: set_takeWhileD)
  ultimately show ?thesis using s by metis
qed

lemma trim_ends:
  "trim s \<noteq> [] \<Longrightarrow> \<not> isSpace (hd (trim s)) \<and> \<not> isSpace (last (trim s))"
proof -
  assume ne: "trim s \<noteq> []"
  define m where "m = dropWhile isSpace s"
  have t: "trim s = rev (dropWhile isSpace (rev m))" by (simp add: trim_def m_def)
  have l: "dropWhile isSpace (rev m) \<noteq> []" using ne t by simp
  then have "\<not> isSpace (hd (dropWhile isSpace (rev m)))" by (rule hd_dropWhile)
  then have last: "\<not> isSpace (last (trim s))" using l by (simp add: t last_rev)
  obtain b where mb: "m = trim s @ b"
    by (metis t rev_append rev_rev_ident takeWhile_dropWhile_id)
  then have "m \<noteq> []" using ne by simp
  then have "\<not> isSpace (hd m)" unfolding m_def by (rule hd_dropWhile)
  then have "\<not> isSpace (hd (trim s))" using mb ne by simp
  with last show ?thesis by simp
qed

lemma trim_id: "s = [] \<or> (\<not> isSpace (hd s) \<and> \<not> isSpace (last s)) \<Longrightarrow> trim s = s"
proof (cases "s = []")
  case False
  assume "s = [] \<or> (\<not> isSpace (hd s) \<and> \<not> isSpace (last s))"
  with False have h: "\<not> isSpace (hd s)" and l: "\<not> isSpace (last s)" by auto
  have "dropWhile isSpace s = s" using False h by (cases s) auto
  moreover have "dropWhile isSpace (rev s) = rev s"
    using False l by (cases "rev s") (auto simp: last_rev [symmetric] hd_rev)
  ultimately show ?thesis by (simp add: trim_def)
qed (simp add: trim_def)

lemma trim_trim [simp]: "trim (trim s) = trim s"
  using trim_ends by (intro trim_id) blast

lemma trim_Nil_iff: "trim s = [] \<longleftrightarrow> list_all isSpace s"
proof
  assume "trim s = []"
  then show "list_all isSpace s" using trim_shape [of s] by auto
next
  assume "list_all isSpace s"
  then have "dropWhile isSpace s = []" by (simp add: dropWhile_eq_Nil_conv list_all_iff)
  then show "trim s = []" by (simp only: trim_def rev.simps dropWhile.simps)
qed

lemma slice_insert_length:
  "a \<le> b \<Longrightarrow> b \<le> length s \<Longrightarrow> length (slice 0 a s @ x @ drop b s) = length s - (b - a) + length x"
  by (simp add: slice_def)

end
