(* ===== verification/Gif_Store.thy ===== *)
theory Gif_Store imports Prelude
begin

text \<open>
  \<open>gifStore.js\<close>: whether the GIF feature is offered. The module variable \<open>probed\<close> makes the probe
  of \<open>/gifs/trending\<close> happen once per page; \<open>g_probes\<close> counts the requests sent and \<open>g_waiting\<close> those
  not answered. An error carries the status of the response, if it has one.
\<close>

record gif_store =
  available :: "bool option"
  probed :: bool
  g_probes :: nat
  g_waiting :: nat

definition initial_gifs :: gif_store where
  "initial_gifs = \<lparr>available = None, probed = False, g_probes = 0, g_waiting = 0\<rparr>"

definition probe :: "gif_store \<Rightarrow> gif_store" where
  "probe s = (if probed s then s
     else s\<lparr>probed := True, g_probes := g_probes s + 1, g_waiting := g_waiting s + 1\<rparr>)"

datatype probe_reply = Trending | Thrown "int option"

definition probe_settles :: "probe_reply \<Rightarrow> gif_store \<Rightarrow> gif_store" where
  "probe_settles r s =
     (if g_waiting s = 0 then s
      else (case r of
              Trending \<Rightarrow> s\<lparr>available := Some True, g_waiting := g_waiting s - 1\<rparr>
            | Thrown status \<Rightarrow>
                s\<lparr>available := Some (\<not> status = Some 502), g_waiting := g_waiting s - 1\<rparr>))"

text \<open>The composer's test for drawing the GIF button, \<open>gifAvailable !== false\<close>.\<close>

definition gif_button :: "gif_store \<Rightarrow> bool" where
  "gif_button s \<longleftrightarrow> available s \<noteq> Some False"

datatype gif_event = Probe | ProbeSettles probe_reply

fun gif_step :: "gif_event \<Rightarrow> gif_store \<Rightarrow> gif_store" where
  "gif_step Probe s = probe s"
| "gif_step (ProbeSettles r) s = probe_settles r s"

definition gif_inv :: "gif_store \<Rightarrow> bool" where
  "gif_inv s \<longleftrightarrow> g_probes s = (if probed s then 1 else 0) \<and> g_waiting s \<le> g_probes s
     \<and> (g_waiting s = 1 \<longrightarrow> available s = None) \<and> (\<not> probed s \<longrightarrow> available s = None)
     \<and> (probed s \<and> g_waiting s = 0 \<longrightarrow> available s \<noteq> None)"

lemma gif_inv_step: "gif_inv s \<Longrightarrow> gif_inv (gif_step e s)"
  by (cases e) (auto simp: gif_inv_def probe_def probe_settles_def split: probe_reply.splits if_splits)

interpretation gif_runs: invariant_steps gif_step gif_inv "\<lambda>_. True"
  by unfold_locales (rule gif_inv_step)

lemma gif_inv_initial: "gif_inv initial_gifs"
  by (simp add: gif_inv_def initial_gifs_def)

text \<open>However often the composer mounts, one request is sent and its answer decides for good.\<close>

lemma probe_once: "g_probes (fold gif_step es initial_gifs) \<le> 1"
  using gif_runs.run [OF gif_inv_initial, of es] by (simp add: gif_inv_def split: if_splits)

lemma gif_decided_step:
  "gif_inv s \<Longrightarrow> available s = Some b \<Longrightarrow> gif_step e s = s"
  by (cases e) (auto simp: gif_inv_def probe_def probe_settles_def split: if_splits)

lemma probe_decides:
  "gif_inv s \<Longrightarrow> available s = Some b \<Longrightarrow> fold gif_step es s = s"
  by (induction es) (simp_all add: gif_decided_step)

end
