(* ===== verification/Composer.thy ===== *)
theory Composer imports Js_Text Chat_Async Gif_Store
begin

text \<open>
  \<open>MessageInput.jsx\<close>: the message composer of a channel. Its calls on the rest of the program are
  values of \<open>composer_out\<close>, kept in order in \<open>c_out\<close>; \<open>perform\<close> carries them out on the chat
  store. The invariant says that only valid messages are sent, that at most ten files are attached,
  and that typing notices between two sends are more than eight seconds apart.
\<close>

definition MAX_LEN :: nat where "MAX_LEN = 4000"
definition COUNTER_THRESHOLD :: nat where "COUNTER_THRESHOLD = MAX_LEN - 400"
definition TYPING_THROTTLE_MS :: int where "TYPING_THROTTLE_MS = 8000"
definition MAX_FILES :: nat where "MAX_FILES = 10"

datatype panel = EmojiPanel | GifPanel | FxPanel

datatype composer_out =
    TypingPost int
  | SendMsg text16 "upload_file list"
  | SendGifMsg gif
  | TriggerEffect string

record composer =
  c_text :: text16
  c_files :: "upload_file list"
  c_panel :: "panel option"
  c_lastTyping :: int
  c_caret :: "nat option"
  c_out :: "composer_out list"

definition initial_composer :: composer where
  "initial_composer = \<lparr>c_text = [], c_files = [], c_panel = None, c_lastTyping = 0, c_caret = None, c_out = []\<rparr>"

section \<open>Operations\<close>

definition onChange :: "text16 \<Rightarrow> int \<Rightarrow> composer \<Rightarrow> composer" where
  "onChange v now c =
     (let c1 = c\<lparr>c_text := v\<rparr>
      in if trim v \<noteq> [] \<and> TYPING_THROTTLE_MS < now - c_lastTyping c1
         then c1\<lparr>c_lastTyping := now, c_out := c_out c1 @ [TypingPost now]\<rparr>
         else c1)"

definition canSend :: "composer \<Rightarrow> bool" where
  "canSend c \<longleftrightarrow> (0 < length (trim (c_text c)) \<or> 0 < length (c_files c)) \<and> length (c_text c) \<le> MAX_LEN"

definition send :: "composer \<Rightarrow> composer" where
  "send c =
     (if \<not> canSend c then c
      else c\<lparr>c_text := [], c_files := [], c_lastTyping := 0,
             c_out := c_out c @ [SendMsg (trim (c_text c)) (c_files c)]\<rparr>)"

definition onKeyDown :: "string \<Rightarrow> bool \<Rightarrow> composer \<Rightarrow> composer" where
  "onKeyDown key shift c = (if key = ''Enter'' \<and> \<not> shift then send c else c)"

definition onPickFiles :: "upload_file list \<Rightarrow> composer \<Rightarrow> composer" where
  "onPickFiles picked c =
     (if 0 < length picked then c\<lparr>c_files := take MAX_FILES (c_files c @ picked)\<rparr> else c)"

definition removeFile :: "nat \<Rightarrow> composer \<Rightarrow> composer" where
  "removeFile i c = c\<lparr>c_files := map fst (filter (\<lambda>(f, j). j \<noteq> i) (zip (c_files c) [0..<length (c_files c)]))\<rparr>"

text \<open>
  The emoji replaces the selection from \<open>a\<close> to \<open>b\<close>, the caret goes behind it. Without a text area the
  selection is the end of the text.
\<close>

definition insertEmoji :: "text16 \<Rightarrow> (nat \<times> nat) option \<Rightarrow> composer \<Rightarrow> composer" where
  "insertEmoji native sel c =
     (let cur = c_text c;
          a = (case sel of None \<Rightarrow> length cur | Some (x, y) \<Rightarrow> x);
          b = (case sel of None \<Rightarrow> length cur | Some (x, y) \<Rightarrow> y)
      in c\<lparr>c_text := take a cur @ native @ drop b cur,
           c_caret := (case sel of None \<Rightarrow> c_caret c | Some s \<Rightarrow> Some (a + length native))\<rparr>)"

definition togglePanel :: "panel \<Rightarrow> composer \<Rightarrow> composer" where
  "togglePanel p c = c\<lparr>c_panel := (if c_panel c = Some p then None else Some p)\<rparr>"

definition closePanel :: "composer \<Rightarrow> composer" where
  "closePanel c = c\<lparr>c_panel := None\<rparr>"

definition composer_onDown :: "bool \<Rightarrow> composer \<Rightarrow> composer" where
  "composer_onDown inside c = (if c_panel c \<noteq> None \<and> \<not> inside then closePanel c else c)"

definition onPickGif :: "gif \<Rightarrow> composer \<Rightarrow> composer" where
  "onPickGif g c = (closePanel c)\<lparr>c_out := c_out c @ [SendGifMsg g]\<rparr>"

definition fireEffect :: "string \<Rightarrow> composer \<Rightarrow> composer" where
  "fireEffect kind c = closePanel (c\<lparr>c_out := c_out c @ [TriggerEffect kind]\<rparr>)"

text \<open>The counter: shown near the limit, negative beyond it.\<close>

definition char_counter :: "composer \<Rightarrow> int option" where
  "char_counter c =
     (if COUNTER_THRESHOLD \<le> length (c_text c) then Some (int MAX_LEN - int (length (c_text c))) else None)"

text \<open>What a call does to the client; a typing notice is a request whose outcome is ignored.\<close>

definition perform :: "string \<Rightarrow> string \<Rightarrow> nat \<Rightarrow> composer_out \<Rightarrow> client \<Rightarrow> client" where
  "perform ch g now x a = (case x of
     TypingPost t \<Rightarrow> a\<lparr>sent := sent a @ [\<lparr>rq_method = ''POST'',
         rq_path = ''/channels/'' @ ch @ ''/typing'', rq_body = NoBody\<rparr>]\<rparr>
   | SendMsg content fs \<Rightarrow> sendMessage ch g (utf8 content) fs now a
   | SendGifMsg gf \<Rightarrow> sendGif ch g gf now a
   | TriggerEffect kind \<Rightarrow> trigger kind a)"

section \<open>Runs\<close>

datatype composer_event =
    Change text16 int | KeyDown string bool | PickFiles "upload_file list" | RemoveFile nat
  | InsertEmoji text16 "(nat \<times> nat) option" | TogglePanel panel | PressOutside bool
  | PickGif gif | FireEffect string

fun composer_step :: "composer_event \<Rightarrow> composer \<Rightarrow> composer" where
  "composer_step (Change v now) c = onChange v now c"
| "composer_step (KeyDown k sh) c = onKeyDown k sh c"
| "composer_step (PickFiles fs) c = onPickFiles fs c"
| "composer_step (RemoveFile i) c = removeFile i c"
| "composer_step (InsertEmoji e sel) c = insertEmoji e sel c"
| "composer_step (TogglePanel p) c = togglePanel p c"
| "composer_step (PressOutside inside) c = composer_onDown inside c"
| "composer_step (PickGif g) c = onPickGif g c"
| "composer_step (FireEffect k) c = fireEffect k c"

text \<open>A call the chat store can accept: a trimmed message within the limits that is not empty.\<close>

fun valid_out :: "composer_out \<Rightarrow> bool" where
  "valid_out (SendMsg content fs) \<longleftrightarrow>
     trim content = content \<and> (content \<noteq> [] \<or> fs \<noteq> []) \<and> length content \<le> MAX_LEN \<and> length fs \<le> MAX_FILES"
| "valid_out _ = True"

text \<open>The typing notices since the last send: when the last one was, and whether they are spaced.\<close>

fun last_notice :: "int option \<Rightarrow> composer_out list \<Rightarrow> int option" where
  "last_notice l [] = l"
| "last_notice l (TypingPost t # xs) = last_notice (Some t) xs"
| "last_notice l (SendMsg content fs # xs) = last_notice None xs"
| "last_notice l (x # xs) = last_notice l xs"

fun spaced :: "int option \<Rightarrow> composer_out list \<Rightarrow> bool" where
  "spaced l [] = True"
| "spaced l (TypingPost t # xs) \<longleftrightarrow> (case l of None \<Rightarrow> True | Some t' \<Rightarrow> 8000 < t - t') \<and> spaced (Some t) xs"
| "spaced l (SendMsg content fs # xs) = spaced None xs"
| "spaced l (x # xs) = spaced l xs"

lemma last_notice_append: "last_notice l (xs @ ys) = last_notice (last_notice l xs) ys"
  by (induction l xs rule: last_notice.induct) simp_all

lemma spaced_append: "spaced l (xs @ ys) \<longleftrightarrow> spaced l xs \<and> spaced (last_notice l xs) ys"
  by (induction l xs rule: spaced.induct) auto

definition composer_inv :: "composer \<Rightarrow> bool" where
  "composer_inv c \<longleftrightarrow>
     length (c_files c) \<le> MAX_FILES \<and> list_all valid_out (c_out c) \<and> spaced None (c_out c)
     \<and> (case last_notice None (c_out c) of None \<Rightarrow> True | Some t \<Rightarrow> c_lastTyping c = t)"

lemmas composer_defs = onChange_def canSend_def send_def onKeyDown_def onPickFiles_def
  insertEmoji_def togglePanel_def closePanel_def composer_onDown_def onPickGif_def fireEffect_def

lemma length_removeFile: "length (c_files (removeFile i c)) \<le> length (c_files c)"
proof -
  have "length (filter p (zip xs [0..<length xs])) \<le> length xs" for p and xs :: "upload_file list"
    by (rule le_trans [OF length_filter_le]) simp
  then show ?thesis by (simp add: removeFile_def)
qed

lemma composer_inv_send: "composer_inv c \<Longrightarrow> composer_inv (send c)"
  using length_trim [of "c_text c"]
  by (auto simp: composer_inv_def send_def canSend_def spaced_append last_notice_append)

lemma composer_inv_change: "composer_inv c \<Longrightarrow> composer_inv (onChange v now c)"
  by (auto simp: composer_inv_def onChange_def Let_def spaced_append last_notice_append
      TYPING_THROTTLE_MS_def split: option.splits)

lemma composer_inv_removeFile: "composer_inv c \<Longrightarrow> composer_inv (removeFile i c)"
  using length_removeFile [of i c] by (simp add: composer_inv_def removeFile_def split: option.splits)

lemma length_take_le: "length (take n xs) \<le> n"
  by simp

lemma composer_inv_pick: "composer_inv c \<Longrightarrow> composer_inv (onPickFiles fs c)"
  by (simp add: composer_inv_def onPickFiles_def length_take_le del: length_take take_append split: option.splits)

lemma composer_inv_step: "composer_inv c \<Longrightarrow> composer_inv (composer_step e c)"
proof (cases e)
  case (PickGif g)
  then show "composer_inv c \<Longrightarrow> ?thesis"
    by (simp add: composer_inv_def onPickGif_def closePanel_def spaced_append last_notice_append
          split: option.splits)
next
  case (FireEffect k)
  then show "composer_inv c \<Longrightarrow> ?thesis"
    by (simp add: composer_inv_def fireEffect_def closePanel_def spaced_append last_notice_append
          split: option.splits)
qed (simp_all add: composer_inv_change composer_inv_send composer_inv_removeFile composer_inv_pick onKeyDown_def,
     simp_all add: composer_inv_def composer_defs Let_def split: option.splits)

interpretation composer_runs: invariant_steps composer_step composer_inv "\<lambda>_. True"
  by unfold_locales (rule composer_inv_step)

lemma composer_inv_initial: "composer_inv initial_composer"
  by (simp add: composer_inv_def initial_composer_def)

section \<open>Facts on single operations\<close>

text \<open>A key press that sends empties the draft, and a second one in a row sends nothing.\<close>

lemma trim_Nil [simp]: "trim [] = []"
  by (simp add: trim_def)

lemma send_once: "send (send c) = send c"
  by (simp add: send_def canSend_def)

text \<open>An emoji put at the caret keeps the text around it, and the caret goes behind it.\<close>

lemma insert_at_caret:
  "a \<le> length (c_text c) \<Longrightarrow>
   c_text (insertEmoji e (Some (a, a)) c) = take a (c_text c) @ e @ drop a (c_text c)
   \<and> take (the (c_caret (insertEmoji e (Some (a, a)) c))) (c_text (insertEmoji e (Some (a, a)) c))
       = take a (c_text c) @ e"
  by (simp add: insertEmoji_def Let_def)

lemma removeFile_nth: "i < length (c_files c) \<Longrightarrow> c_files (removeFile i c) = take i (c_files c) @ drop (Suc i) (c_files c)"
proof -
  assume i: "i < length (c_files c)"
  have gen: "map fst (filter (\<lambda>(f, j). j \<noteq> i) (zip xs [0..<length xs])) = take i xs @ drop (Suc i) xs"
    if "i < length xs" for xs :: "upload_file list"
  proof -
    have split: "zip xs [0..<length xs]
        = zip (take i xs) [0..<i] @ (xs ! i, i) # zip (drop (Suc i) xs) [Suc i..<length xs]"
    proof -
      have "[0..<length xs] = [0..<i] @ i # [Suc i..<length xs]"
        using that upt_add_eq_append [of 0 i "length xs - i"] by (simp add: upt_conv_Cons)
      moreover have "xs = take i xs @ xs ! i # drop (Suc i) xs"
        using that by (rule id_take_nth_drop)
      moreover have "length (take i xs) = length [0..<i]" using that by simp
      ultimately show ?thesis by (metis zip_append zip_Cons_Cons)
    qed
    have l: "filter (\<lambda>(f, j). j \<noteq> i) (zip (take i xs) [0..<i]) = zip (take i xs) [0..<i]"
      by (rule filter_True) (auto dest: set_zip_rightD)
    have r: "filter (\<lambda>(f, j). j \<noteq> i) (zip (drop (Suc i) xs) [Suc i..<length xs])
        = zip (drop (Suc i) xs) [Suc i..<length xs]"
      by (rule filter_True) (auto dest: set_zip_rightD)
    show ?thesis using that by (simp add: split l r)
  qed
  show ?thesis using gen [OF i] by (simp add: removeFile_def)
qed

end
