(* ===== verification/Profile_Store.thy ===== *)
theory Profile_Store imports Wire_Types Complex_Main
begin

text \<open>
  \<open>profileStore.js\<close>: the cache of public profiles and the one profile card of the application.
  \<open>p_requests\<close> holds the user ids of the \<open>GET /users/{id}\<close> calls that have not been answered; the
  environment answers them in any order. The invariants say that no profile is stuck loading, that
  an unforced fetch is sent once, and that an open card always has something to show.
\<close>

record rect =
  r_top :: real
  r_bottom :: real
  r_left :: real
  r_right :: real

record profile_store =
  profiles :: "user obj"
  p_loading :: "bool obj"
  p_errored :: "bool obj"
  p_open :: "(string \<times> rect) option"
  p_requests :: "string list"

definition initial_profiles :: profile_store where
  "initial_profiles = \<lparr>profiles = [], p_loading = [], p_errored = [], p_open = None, p_requests = []\<rparr>"

text \<open>A flag read from an object, \<open>undefined\<close> being false.\<close>

definition flag :: "bool obj \<Rightarrow> string \<Rightarrow> bool" where
  "flag ob k = (oget ob k = Some True)"

text \<open>What a call of \<open>fetch\<close> evaluates to: a value at once, or a request to wait for.\<close>

datatype fetched = Returned "user option" | Requested string

definition fetch_profile :: "string option \<Rightarrow> bool \<Rightarrow> profile_store \<Rightarrow> fetched \<times> profile_store" where
  "fetch_profile uid force st =
     (case uid of
        None \<Rightarrow> (Returned None, st)
      | Some u \<Rightarrow>
          if u = [] then (Returned None, st)
          else if \<not> force \<and> (oget (profiles st) u \<noteq> None \<or> flag (p_loading st) u)
          then (Returned (oget (profiles st) u), st)
          else (Requested u,
                st\<lparr>p_loading := oput u True (p_loading st), p_errored := oput u False (p_errored st),
                   p_requests := p_requests st @ [u]\<rparr>))"

definition fetch_ok :: "string \<Rightarrow> user \<Rightarrow> profile_store \<Rightarrow> profile_store" where
  "fetch_ok u p st =
     st\<lparr>profiles := oput u p (profiles st), p_loading := oput u False (p_loading st)\<rparr>"

definition fetch_err :: "string \<Rightarrow> profile_store \<Rightarrow> profile_store" where
  "fetch_err u st =
     st\<lparr>p_loading := oput u False (p_loading st), p_errored := oput u True (p_errored st)\<rparr>"

definition openCard :: "string option \<Rightarrow> rect \<Rightarrow> profile_store \<Rightarrow> profile_store" where
  "openCard uid r st =
     (case uid of
        None \<Rightarrow> st
      | Some u \<Rightarrow> if u = [] then st
          else snd (fetch_profile uid False (st\<lparr>p_open := Some (u, r)\<rparr>)))"

definition closeCard :: "profile_store \<Rightarrow> profile_store" where
  "closeCard st = st\<lparr>p_open := None\<rparr>"

definition setProfile :: "user option \<Rightarrow> profile_store \<Rightarrow> profile_store" where
  "setProfile p st =
     (case p of
        None \<Rightarrow> st
      | Some v \<Rightarrow> if u_id v = [] then st else st\<lparr>profiles := oput (u_id v) v (profiles st)\<rparr>)"

text \<open>
  A click: the event is kept from its default action and from bubbling, and the card opens at the
  element's rectangle. The first component says whether the event was consumed.
\<close>

definition openProfileFromEvent :: "rect \<Rightarrow> string option \<Rightarrow> profile_store \<Rightarrow> bool \<times> profile_store" where
  "openProfileFromEvent r uid st =
     (if \<not> truthy uid then (False, st) else (True, openCard uid r st))"

section \<open>Runs\<close>

datatype profile_event =
    OpenCard "string option" rect
  | CloseCard
  | Click rect "string option"
  | Fetch "string option" bool
  | ProfileReply nat "user option"
  | SetProfile "user option"

definition answer :: "nat \<Rightarrow> user option \<Rightarrow> profile_store \<Rightarrow> profile_store" where
  "answer i r st =
     (if i < length (p_requests st)
      then (let u = p_requests st ! i;
                st' = st\<lparr>p_requests := take i (p_requests st) @ drop (Suc i) (p_requests st)\<rparr>
            in case r of None \<Rightarrow> fetch_err u st' | Some p \<Rightarrow> fetch_ok u p st')
      else st)"

fun profile_step :: "profile_event \<Rightarrow> profile_store \<Rightarrow> profile_store" where
  "profile_step (OpenCard uid r) st = openCard uid r st"
| "profile_step CloseCard st = closeCard st"
| "profile_step (Click r uid) st = snd (openProfileFromEvent r uid st)"
| "profile_step (Fetch uid force) st = snd (fetch_profile uid force st)"
| "profile_step (ProfileReply i r) st = answer i r st"
| "profile_step (SetProfile p) st = setProfile p st"

text \<open>No user interface code forces a fetch; \<open>unforced\<close> are the runs of this client.\<close>

fun unforced :: "profile_event \<Rightarrow> bool" where
  "unforced (Fetch uid force) = (\<not> force)"
| "unforced _ = True"

text \<open>
  The invariant: the outstanding requests are exactly those of the ids marked as loading, each
  sent once; an id that is loading is not marked as failed; a card that is open shows a profile,
  is loading, or has failed.
\<close>

definition profile_inv :: "profile_store \<Rightarrow> bool" where
  "profile_inv st \<longleftrightarrow>
     distinct (p_requests st) \<and> (\<forall>u. flag (p_loading st) u \<longleftrightarrow> u \<in> set (p_requests st))
     \<and> (\<forall>u. flag (p_loading st) u \<longrightarrow> \<not> flag (p_errored st) u)
     \<and> (\<forall>u r. p_open st = Some (u, r) \<longrightarrow>
          oget (profiles st) u \<noteq> None \<or> flag (p_loading st) u \<or> flag (p_errored st) u)"

lemma flag_simps [simp]:
  "flag (oput k b ob) k' = (if k = k' then b else flag ob k')" "\<not> flag [] k"
  by (simp_all add: flag_def)

lemma profile_inv_initial: "profile_inv initial_profiles"
  by (simp add: profile_inv_def initial_profiles_def)

lemma profile_inv_fetch:
  assumes "profile_inv st"
  shows "profile_inv (snd (fetch_profile uid False st))"
  using assms by (auto simp: profile_inv_def fetch_profile_def split: option.splits)

text \<open>Opening the card first points it at the user and then fetches.\<close>

lemma profile_inv_openCard: "profile_inv st \<Longrightarrow> profile_inv (openCard uid r st)"
  by (auto simp: profile_inv_def openCard_def fetch_profile_def split: option.splits)

lemma profile_inv_answer:
  assumes inv: "profile_inv st"
  shows "profile_inv (answer i r st)"
proof (cases "i < length (p_requests st)")
  case True
  have d: "distinct (p_requests st)" using inv by (simp add: profile_inv_def)
  note s = set_drop_nth [OF d True]
  have rest: "\<And>u. u \<in> set (take i (p_requests st)) \<or> u \<in> set (drop (Suc i) (p_requests st))
      \<longleftrightarrow> flag (p_loading st) u \<and> u \<noteq> p_requests st ! i"
    using s(1) inv by (auto simp: profile_inv_def)
  show ?thesis
  proof (cases r)
    case None
    then show ?thesis using True inv s(2) rest
      by (auto simp: profile_inv_def answer_def fetch_err_def Let_def)
  next
    case (Some p)
    then show ?thesis using True inv s(2) rest
      by (auto simp: profile_inv_def answer_def fetch_ok_def Let_def)
  qed
qed (use inv in \<open>simp add: answer_def\<close>)

lemma profile_inv_step: "profile_inv st \<Longrightarrow> unforced e \<Longrightarrow> profile_inv (profile_step e st)"
proof (cases e)
  case (OpenCard uid r)
  then show "profile_inv st \<Longrightarrow> ?thesis" by (simp add: profile_inv_openCard)
next
  case CloseCard
  then show "profile_inv st \<Longrightarrow> ?thesis" by (simp add: closeCard_def profile_inv_def)
next
  case (Click r uid)
  then show "profile_inv st \<Longrightarrow> ?thesis"
    by (simp add: openProfileFromEvent_def profile_inv_openCard)
next
  case (Fetch uid force)
  then show "profile_inv st \<Longrightarrow> unforced e \<Longrightarrow> ?thesis" by (simp add: profile_inv_fetch)
next
  case (ProfileReply i r)
  then show "profile_inv st \<Longrightarrow> ?thesis" by (simp add: profile_inv_answer)
next
  case (SetProfile p)
  then show "profile_inv st \<Longrightarrow> ?thesis"
    by (auto simp: setProfile_def profile_inv_def split: option.splits)
qed

interpretation profile_runs: invariant_steps profile_step profile_inv unforced
  by unfold_locales (rule profile_inv_step)

text \<open>
  With forced fetches too, whatever is marked as loading has a request outstanding.
\<close>

definition loading_requested :: "profile_store \<Rightarrow> bool" where
  "loading_requested st \<longleftrightarrow> (\<forall>u. flag (p_loading st) u \<longrightarrow> u \<in> set (p_requests st))"

lemma loading_requested_step: "loading_requested st \<Longrightarrow> loading_requested (profile_step e st)"
proof (cases e)
  case (ProfileReply i r)
  assume l: "loading_requested st"
  show ?thesis
  proof (cases "i < length (p_requests st)")
    case True
    have e: "p_requests st = take i (p_requests st) @ p_requests st ! i # drop (Suc i) (p_requests st)"
      using True by (rule id_take_nth_drop)
    have "u \<in> set (take i (p_requests st)) \<or> u \<in> set (drop (Suc i) (p_requests st))"
      if "flag (p_loading st) u" "u \<noteq> p_requests st ! i" for u
    proof -
      have "u \<in> set (p_requests st)" using l that by (simp add: loading_requested_def)
      then have "u \<in> set (take i (p_requests st) @ p_requests st ! i # drop (Suc i) (p_requests st))"
        using e by simp
      then show ?thesis using that(2) by simp
    qed
    then show ?thesis using ProfileReply True
      by (auto simp: loading_requested_def answer_def fetch_ok_def fetch_err_def Let_def split: option.splits)
  qed (use l ProfileReply in \<open>simp add: answer_def\<close>)
qed (auto simp: loading_requested_def openCard_def closeCard_def openProfileFromEvent_def
       fetch_profile_def setProfile_def split: option.splits)

interpretation forced_runs: invariant_steps profile_step loading_requested "\<lambda>_. True"
  by unfold_locales (rule loading_requested_step)

end
