(* ===== verification/Format.thy ===== *)
theory Format imports Prelude "HOL-Library.Word"
begin

text \<open>
  \<open>format.js\<close>: sizes, avatar colours and timestamps as the user reads them. A byte count is an
  integer that a double represents exactly, so \<open>toFixed(1)\<close> of the quotient by a power of 1024 is
  the exact rounding below. The string hashed by \<open>avatarColor\<close> is its list of UTF-16 code units.
\<close>

section \<open>Sizes\<close>

definition showInt :: "int \<Rightarrow> string" where
  "showInt i = (if i < 0 then CHR ''-'' # showNat (nat (- i)) else showNat (nat i))"

text \<open>
  \<open>(n / u).toFixed(1)\<close> for \<open>0 \<le> n\<close>: the integer nearest to \<open>10 n / u\<close> (the larger of two), printed
  with its last digit after the point.
\<close>

definition tenths :: "int \<Rightarrow> int \<Rightarrow> int" where
  "tenths n u = (20 * n + u) div (2 * u)"

definition toFixed1 :: "int \<Rightarrow> int \<Rightarrow> string" where
  "toFixed1 n u = (let t = tenths n u in showNat (nat (t div 10)) @ ''.'' @ showNat (nat (t mod 10)))"

text \<open>\<open>None\<close> is an argument that is not a number.\<close>

definition formatBytes :: "int option \<Rightarrow> string" where
  "formatBytes sz = (case sz of
     None \<Rightarrow> ''''
   | Some n \<Rightarrow>
       if n < 1024 then showInt n @ '' B''
       else if n < 1024 * 1024 then toFixed1 n 1024 @ '' KB''
       else if n < 1024 * 1024 * 1024 then toFixed1 n (1024 * 1024) @ '' MB''
       else toFixed1 n (1024 * 1024 * 1024) @ '' GB'')"

text \<open>The printed number is within a twentieth of the unit.\<close>

lemma tenths_close: "0 < u \<Longrightarrow> \<bar>2 * (tenths n u * u - 10 * n)\<bar> \<le> u"
proof -
  assume "0 < u"
  define q where "q = (20 * n + u) div (2 * u)"
  define r where "r = (20 * n + u) mod (2 * u)"
  have e: "20 * n + u = 2 * u * q + r" by (simp add: q_def r_def)
  have "0 \<le> r" "r < 2 * u" using \<open>0 < u\<close> by (simp_all add: r_def)
  then have "- u \<le> 2 * (q * u - 10 * n)" "2 * (q * u - 10 * n) \<le> u"
    using e by (simp_all add: algebra_simps)
  then show ?thesis by (simp add: tenths_def q_def [symmetric] abs_le_iff)
qed

lemma tenths_mono: "0 < u \<Longrightarrow> m \<le> n \<Longrightarrow> tenths m u \<le> tenths n u"
  by (simp add: tenths_def zdiv_mono1)

text \<open>
  Within a unit the printed number has at most four digits before the point: it starts at 1.0
  and is never above 1024.0.
\<close>

lemma tenths_range:
  "0 < u \<Longrightarrow> u \<le> n \<Longrightarrow> n < 1024 * u \<Longrightarrow> 10 \<le> tenths n u \<and> tenths n u \<le> 10240"
proof -
  assume a: "0 < u" "u \<le> n" "n < 1024 * u"
  have "tenths u u = 10"
  proof -
    have "20 * u + u = 2 * u * 10 + u" by simp
    then have "(20 * u + u) div (2 * u) = 10 + u div (2 * u)"
      using a(1) by (metis add.commute div_mult_self2 less_irrefl mult_eq_0_iff zero_neq_numeral)
    then show ?thesis using a(1) by (simp add: tenths_def)
  qed
  moreover have "tenths n u \<le> tenths (1024 * u) u" using a by (intro tenths_mono) auto
  moreover have "tenths (1024 * u) u = 10240"
  proof -
    have "20 * (1024 * u) + u = 2 * u * 10240 + u" by simp
    then have "(20 * (1024 * u) + u) div (2 * u) = 10240 + u div (2 * u)"
      using a(1) by (metis add.commute div_mult_self2 less_irrefl mult_eq_0_iff zero_neq_numeral)
    then show ?thesis using a(1) by (simp add: tenths_def)
  qed
  ultimately show ?thesis using tenths_mono [OF a(1,2)] by simp
qed

text \<open>Just below a megabyte the kilobytes read 1024.0, not 1.0 MB.\<close>

lemma formatBytes_unit_edge: "formatBytes (Some 1048575) = ''1024.0 KB''"
  by (simp add: formatBytes_def toFixed1_def tenths_def Let_def showNat.simps digitChar_def char_of_def bit_0)

section \<open>Avatar colours\<close>

definition AVATAR_COLORS :: "string list" where
  "AVATAR_COLORS = [''#5865f2'', ''#3ba55c'', ''#faa61a'', ''#ed4245'', ''#eb459e'', ''#9b59b6'', ''#3498db'', ''#e67e22'']"

text \<open>\<open>h = (h * 31 + c) >>> 0\<close>: 32-bit arithmetic that wraps.\<close>

definition name_hash :: "16 word list \<Rightarrow> 32 word" where
  "name_hash cs = foldl (\<lambda>h c. h * 31 + ucast c) 0 cs"

definition avatarColor :: "16 word list option \<Rightarrow> string" where
  "avatarColor nm =
     (let cs = (case nm of None \<Rightarrow> [] | Some cs \<Rightarrow> cs)
      in AVATAR_COLORS ! (unat (name_hash cs) mod length AVATAR_COLORS))"

text \<open>The reference: the polynomial hash of the code units over the natural numbers.\<close>

fun poly_hash :: "nat list \<Rightarrow> nat" where
  "poly_hash [] = 0"
| "poly_hash (c # cs) = c * 31 ^ length cs + poly_hash cs"

lemma foldl_poly: "foldl (\<lambda>h c. h * 31 + c) a cs = a * 31 ^ length cs + poly_hash cs"
  by (induction cs arbitrary: a) (simp_all add: algebra_simps)

lemma name_hash_fold:
  "unat (foldl (\<lambda>h c. h * 31 + ucast c) (a :: 32 word) cs)
     = foldl (\<lambda>h c. h * 31 + c) (unat a) (map unat (cs :: 16 word list)) mod 2 ^ 32"
proof (induction cs arbitrary: a)
  case Nil
  then show ?case using unsigned_less [where 'a = nat, of a] by simp
next
  case (Cons c cs)
  have w: "unat (a * 31 + ucast c) = (unat a * 31 + unat c) mod 2 ^ 32"
  proof -
    have "unat c < 2 ^ 16" using unsigned_less [where 'a = nat, of c] by simp
    then have "unat (ucast c :: 32 word) = unat c"
      by (simp add: unsigned_ucast_eq take_bit_nat_eq_self)
    then show ?thesis
      by (simp add: unat_word_ariths mod_simps)
  qed
  have m: "((x mod k) * p + q) mod k = (x * p + q) mod k" for x p q k :: nat
    by (metis mod_add_left_eq mod_mult_left_eq)
  show ?case
    by (simp only: foldl_Cons list.map Cons.IH w foldl_poly m) (simp add: algebra_simps)
qed

lemma name_hash_poly: "unat (name_hash cs) = poly_hash (map unat cs) mod 2 ^ 32"
  by (simp add: name_hash_def name_hash_fold foldl_poly)

lemma avatarColor_poly:
  "avatarColor (Some cs) = AVATAR_COLORS ! (poly_hash (map unat cs) mod 8)"
proof -
  have "(8 :: nat) dvd 2 ^ 32" by simp
  then show ?thesis
    by (simp add: avatarColor_def name_hash_poly Let_def AVATAR_COLORS_def mod_mod_cancel)
qed

section \<open>Timestamps\<close>

text \<open>
  The fields of a date in the local time zone; the two renderings by the locale are parameters.
\<close>

record local_date =
  fullYear :: int
  month :: nat
  day :: nat
  clock :: "nat \<times> nat"

definition formatTime :: "(local_date \<Rightarrow> string) \<Rightarrow> local_date \<Rightarrow> string" where
  "formatTime toLocaleTime d = toLocaleTime d"

definition formatTimestamp ::
  "(local_date \<Rightarrow> string) \<Rightarrow> (local_date \<Rightarrow> string) \<Rightarrow> local_date \<Rightarrow> local_date \<Rightarrow> string" where
  "formatTimestamp toLocaleTime toLocaleDate now d =
     (let sameDay = fullYear d = fullYear now \<and> month d = month now \<and> day d = day now
      in if sameDay then formatTime toLocaleTime d else toLocaleDate d)"

end
