(* ===== verification/Message_View.thy ===== *)
theory Message_View imports Js_Text Chat_Async Profile_Store Format
begin

text \<open>
  \<open>MessageItem.jsx\<close> and \<open>MessagePane.jsx\<close>: what a message shows and allows, the in-place editor,
  the label under a reaction, which attachment URLs become links, how messages are grouped, and
  where the list is scrolled to. \<open>parse_url\<close> is the \<open>URL\<close> constructor: the protocol and the host name
  of a text, \<open>None\<close> where it throws.
\<close>

section \<open>Permissions and classes\<close>

definition isOwn :: "user option \<Rightarrow> msg \<Rightarrow> bool" where
  "isOwn me m = is_me me (a_id (m_author m))"

definition canEdit :: "user option \<Rightarrow> msg \<Rightarrow> bool" where
  "canEdit me m \<longleftrightarrow> isOwn me m \<and> \<not> m_optimistic m"

definition canDelete :: "user option \<Rightarrow> string \<Rightarrow> msg \<Rightarrow> bool" where
  "canDelete me guildOwnerId m \<longleftrightarrow> (isOwn me m \<or> is_me me guildOwnerId) \<and> \<not> m_optimistic m"

definition canReact :: "msg \<Rightarrow> bool" where
  "canReact m \<longleftrightarrow> \<not> m_optimistic m \<and> \<not> m_failed m"

definition message_class :: "bool \<Rightarrow> msg \<Rightarrow> string list" where
  "message_class grouped m = filter (\<lambda>s. s \<noteq> [])
     [''message'', if grouped then ''grouped'' else ''first'',
      if m_optimistic m then ''pending'' else '''', if m_failed m then ''failed'' else '''']"

section \<open>The editor\<close>

record editor =
  e_editing :: bool
  e_draft :: text16
  e_busy :: bool

datatype edit_call = NoCall | CallEdit string string string

definition startEdit :: "text16 \<Rightarrow> editor \<Rightarrow> editor" where
  "startEdit content ed = ed\<lparr>e_draft := content, e_editing := True\<rparr>"

definition saveEdit :: "string \<Rightarrow> msg \<Rightarrow> editor \<Rightarrow> edit_call \<times> editor" where
  "saveEdit channelId m ed =
     (let content = trim (e_draft ed)
      in if content = [] \<or> utf8 content = m_content m then (NoCall, ed\<lparr>e_editing := False\<rparr>)
         else if 4000 < length content then (NoCall, ed)
         else (CallEdit channelId (m_id m) (utf8 content), ed\<lparr>e_busy := True\<rparr>))"

text \<open>The two outcomes of the call; a failure is also a toast.\<close>

definition edit_saved :: "editor \<Rightarrow> editor" where
  "edit_saved ed = ed\<lparr>e_editing := False, e_busy := False\<rparr>"

definition edit_failed :: "string \<Rightarrow> client \<times> editor \<Rightarrow> client \<times> editor" where
  "edit_failed message p = (toastc message (fst p), (snd p)\<lparr>e_busy := False\<rparr>)"

definition onEditKey :: "string \<Rightarrow> bool \<Rightarrow> string \<Rightarrow> msg \<Rightarrow> editor \<Rightarrow> edit_call \<times> editor" where
  "onEditKey key shift channelId m ed =
     (if key = ''Enter'' \<and> \<not> shift then saveEdit channelId m ed
      else if key = ''Escape'' then (NoCall, ed\<lparr>e_editing := False\<rparr>)
      else (NoCall, ed))"

definition remove_message :: "bool \<Rightarrow> string \<Rightarrow> string \<Rightarrow> client \<Rightarrow> client" where
  "remove_message confirmed channelId i a = (if \<not> confirmed then a else deleteMessage channelId i a)"

definition onPickReaction :: "string \<Rightarrow> string \<Rightarrow> string \<Rightarrow> bool \<times> client \<Rightarrow> bool \<times> client" where
  "onPickReaction channelId i native p = (False, toggleReaction channelId i native (snd p))"

text \<open>An edit is sent only if it is not empty, differs from the message, and fits.\<close>

lemma saveEdit_sends:
  "saveEdit ch m ed = (CallEdit ch' i c, ed') \<Longrightarrow>
   ch' = ch \<and> i = m_id m \<and> c = utf8 (trim (e_draft ed)) \<and> trim (e_draft ed) \<noteq> []
   \<and> c \<noteq> m_content m \<and> length (trim (e_draft ed)) \<le> 4000 \<and> e_busy ed'"
  by (auto simp: saveEdit_def Let_def split: if_splits)

section \<open>Who reacted\<close>

text \<open>\<open>nameFor\<close>: later members of a list win, as in a \<open>Map\<close> filled in order.\<close>

definition nameFor :: "user option \<Rightarrow> gmember list \<Rightarrow> user obj \<Rightarrow> string \<Rightarrow> string option" where
  "nameFor me ms ps uid =
     (if is_me me uid then Some ''You''
      else case map_of (rev (map (\<lambda>m. (mb_user_id m, mb_username m)) ms)) uid of
             Some n \<Rightarrow> Some n
           | None \<Rightarrow> map_option u_username (oget ps uid))"

fun join_names :: "string list \<Rightarrow> string" where
  "join_names [] = ''''"
| "join_names [n] = n"
| "join_names (n # ns) = n @ '', '' @ join_names ns"

definition named_reactors :: "reaction \<Rightarrow> (string \<Rightarrow> string option) \<Rightarrow> string list" where
  "named_reactors r name = filter (\<lambda>n. n \<noteq> []) (List.map_filter name (or_empty (r_users r)))"

definition reactorsLabel :: "reaction \<Rightarrow> (string \<Rightarrow> string option) \<Rightarrow> string" where
  "reactorsLabel r name =
     (let names = named_reactors r name;
          k = length names
      in if k = 0
         then showInt (r_count r) @ '' '' @ (if r_count r = 1 then ''reaction'' else ''reactions'')
         else (let unknown = max 0 (r_count r - int k);
                   who = (if k = 1 then names ! 0
                          else if k = 2 then names ! 0 @ '' and '' @ names ! 1
                          else join_names (butlast names) @ '' and '' @ names ! (k - 1));
                   who' = (if 0 < unknown
                           then who @ '' and '' @ showInt unknown @ '' other'' @ (if unknown = 1 then '''' else ''s'')
                           else who)
               in who' @ '' reacted with '' @ r_emoji r))"

text \<open>Named and unnamed reactors add up to the count when it covers the named ones.\<close>

lemma reactors_add_up:
  "int (length (named_reactors r name)) \<le> r_count r \<Longrightarrow>
   int (length (named_reactors r name)) + max 0 (r_count r - int (length (named_reactors r name))) = r_count r"
  by simp

lemma reactorsLabel_example:
  "reactorsLabel \<lparr>r_emoji = ''+'', r_count = 4, r_me = True, r_users = Some [''a'', ''b'', ''x'']\<rparr>
     (nameFor (Some \<lparr>u_id = ''a'', u_username = ''ann'', u_email = None, u_avatar_url = None,
        u_bio = None, u_pronouns = None, u_accent_color = None, u_created_at = None\<rparr>)
       [\<lparr>mb_user_id = ''b'', mb_username = ''bob'', mb_avatar_url = '''', mb_status = '''',
         mb_is_owner = False, mb_guild_id = None\<rparr>] [])
   = ''You and bob and 2 others reacted with +''"
  by (simp add: reactorsLabel_def named_reactors_def nameFor_def List.map_filter_def Let_def showInt_def
      showNat.simps digitChar_def char_of_def bit_0)

section \<open>Attachment links\<close>

fun includesText :: "string \<Rightarrow> string \<Rightarrow> bool" where
  "includesText w [] = (w = [])"
| "includesText w (c # s) \<longleftrightarrow> take (length w) (c # s) = w \<or> includesText w s"

definition startsWith :: "string \<Rightarrow> string \<Rightarrow> bool" where
  "startsWith w s \<longleftrightarrow> take (length w) s = w"

definition lower :: "char \<Rightarrow> char" where
  "lower c = (let n = of_char c :: nat in if 65 \<le> n \<and> n \<le> 90 then char_of (n + 32) else c)"

text \<open>\<open>/(^|\.)(tenor\.com|giphy\.com)$/i\<close>.\<close>

definition endsWith :: "string \<Rightarrow> string \<Rightarrow> bool" where
  "endsWith w s \<longleftrightarrow> length w \<le> length s \<and> drop (length s - length w) s = w"

definition GIF_HOST_RE :: "string \<Rightarrow> bool" where
  "GIF_HOST_RE host =
     list_ex (\<lambda>d. map lower host = d \<or> endsWith (''.'' @ d) (map lower host)) [''tenor.com'', ''giphy.com'']"

definition safeAttachmentURL :: "(string \<Rightarrow> (string \<times> string) option) \<Rightarrow> attachment \<Rightarrow> string option" where
  "safeAttachmentURL parse_url att =
     (let url = at_url att
      in if startsWith ''/files/'' url \<and> \<not> includesText ''..'' url then Some url
         else if at_content_type att = ''image/gif''
         then (case parse_url url of
                 None \<Rightarrow> None
               | Some (protocol, host) \<Rightarrow>
                   if protocol = ''https:'' \<and> GIF_HOST_RE host then Some url else None)
         else None)"

text \<open>What an attachment becomes: an image in a link, a file in a link, or text without a link.\<close>

datatype attachment_view = ImageLink string | FileLink string string | FileText string

definition file_size_text :: "bool \<Rightarrow> string option \<Rightarrow> attachment \<Rightarrow> string" where
  "file_size_text is_pending url att =
     (if is_pending \<and> url = None then ''Uploading'' @ [CHR 0xE2, CHR 0x80, CHR 0xA6] else formatBytes (Some (at_size att)))"

definition attachmentView :: "(string \<Rightarrow> (string \<times> string) option) \<Rightarrow> bool \<Rightarrow> attachment \<Rightarrow> attachment_view" where
  "attachmentView parse_url is_pending att =
     (let url = safeAttachmentURL parse_url att
      in case url of
           None \<Rightarrow> FileText (file_size_text is_pending url att)
         | Some u \<Rightarrow> if startsWith ''image/'' (at_content_type att) then ImageLink u
                     else FileLink u (file_size_text is_pending url att))"

fun view_link :: "attachment_view \<Rightarrow> string option" where
  "view_link (ImageLink u) = Some u"
| "view_link (FileLink u s) = Some u"
| "view_link (FileText s) = None"

lemma view_link_safe: "view_link (attachmentView p b att) = safeAttachmentURL p att"
  by (simp add: attachmentView_def Let_def split: option.splits)

lemma tenor_host: "GIF_HOST_RE ''media.tenor.com''"
proof -
  have "map lower ''media.tenor.com'' = ''media.tenor.com''" by (simp add: lower_def)
  then show ?thesis by (simp add: GIF_HOST_RE_def endsWith_def)
qed

lemma endsWith_append: "endsWith w s \<longleftrightarrow> (\<exists>x. s = x @ w)"
  unfolding endsWith_def by (metis append_take_drop_id append_eq_conv_conj diff_diff_cancel
      length_append length_drop add_diff_cancel_right' le_add2)

lemma startsWith_append: "startsWith w s \<longleftrightarrow> (\<exists>x. s = w @ x)"
  unfolding startsWith_def by (metis append_eq_conv_conj append_take_drop_id)

lemma includes_append: "includesText w s \<longleftrightarrow> (\<exists>a b. s = a @ w @ b)"
proof (induction s)
  case Nil
  then show ?case by auto
next
  case (Cons c s)
  show ?case
  proof
    assume "includesText w (c # s)"
    then consider "startsWith w (c # s)" | "includesText w s" by (auto simp: startsWith_def)
    then show "\<exists>a b. c # s = a @ w @ b"
    proof cases
      case 1
      then obtain x where "c # s = w @ x" by (auto simp: startsWith_append)
      then have "c # s = [] @ w @ x" by simp
      then show ?thesis by blast
    next
      case 2
      then obtain a b where "s = a @ w @ b" using Cons by auto
      then show ?thesis by (intro exI [of _ "c # a"] exI [of _ b]) simp
    qed
  next
    assume "\<exists>a b. c # s = a @ w @ b"
    then obtain a b where e: "c # s = a @ w @ b" by auto
    show "includesText w (c # s)"
    proof (cases a)
      case Nil
      then have "startsWith w (c # s)" using e by (auto simp: startsWith_append)
      then show ?thesis by (simp add: startsWith_def)
    next
      case (Cons d a')
      then have "s = a' @ w @ b" using e by simp
      then show ?thesis using Cons.IH by auto
    qed
  qed
qed

text \<open>The check on dots reads the text only: encoded dots pass it, and a browser resolves them.\<close>

lemma encoded_dots_pass:
  "safeAttachmentURL p \<lparr>at_url = ''/files/%2e%2e/login'', at_filename = ''a'', at_size = 1, at_content_type = ''''\<rparr>
     = Some ''/files/%2e%2e/login''"
  by (simp add: safeAttachmentURL_def startsWith_def)

section \<open>Grouping\<close>

definition GROUP_WINDOW_MS :: int where
  "GROUP_WINDOW_MS = 5 * 60 * 1000"

text \<open>A date that does not parse is \<open>NaN\<close>, and no comparison with it holds.\<close>

definition within_window :: "int option \<Rightarrow> int option \<Rightarrow> bool" where
  "within_window t t0 = (case (t, t0) of (Some x, Some y) \<Rightarrow> x - y < GROUP_WINDOW_MS | _ \<Rightarrow> False)"

definition grouped_with :: "msg option \<Rightarrow> msg \<Rightarrow> bool" where
  "grouped_with prev m = (case prev of None \<Rightarrow> False
     | Some p \<Rightarrow> a_id (m_author p) = a_id (m_author m) \<and> \<not> m_failed p
         \<and> within_window (m_created_at m) (m_created_at p))"

fun group_rows :: "msg option \<Rightarrow> msg list \<Rightarrow> (msg \<times> bool) list" where
  "group_rows prev [] = []"
| "group_rows prev (m # ms) = (m, grouped_with prev m) # group_rows (Some m) ms"

lemma group_rows_msgs: "map fst (group_rows prev ms) = ms"
  by (induction ms arbitrary: prev) simp_all

text \<open>A grouped row has the author of the row before it, so its author is on screen above it.\<close>

lemma group_rows_author:
  "i < length ms \<Longrightarrow> snd (group_rows None ms ! i) \<Longrightarrow>
   0 < i \<and> a_id (m_author (ms ! i)) = a_id (m_author (ms ! (i - 1))) \<and> \<not> m_failed (ms ! (i - 1))"
proof -
  have gen: "i < length ms \<Longrightarrow> group_rows prev ms ! i
      = (ms ! i, grouped_with (if i = 0 then prev else Some (ms ! (i - 1))) (ms ! i))" for prev
  proof (induction ms arbitrary: prev i)
    case Nil
    then show ?case by simp
  next
    case (Cons m ms)
    then show ?case by (cases i) auto
  qed
  assume "i < length ms" "snd (group_rows None ms ! i)"
  then show ?thesis by (auto simp: gen grouped_with_def split: if_splits)
qed

section \<open>Scrolling\<close>

record pane =
  stickBottom :: bool
  prepend :: "(real \<times> real) option"
  scrollTop :: real
  scrollHeight :: real
  clientHeight :: real

definition pane_channel :: "pane \<Rightarrow> pane" where
  "pane_channel p = p\<lparr>stickBottom := True, prepend := None\<rparr>"

text \<open>The layout effect after a change of the list, which has given it the height \<open>h\<close>.\<close>

definition pane_items :: "real \<Rightarrow> pane \<Rightarrow> pane" where
  "pane_items h p =
     (let p1 = p\<lparr>scrollHeight := h\<rparr>
      in case prepend p1 of
           Some (y, h0) \<Rightarrow> p1\<lparr>prepend := None, scrollTop := y + (scrollHeight p1 - h0)\<rparr>
         | None \<Rightarrow> if stickBottom p1 then p1\<lparr>scrollTop := scrollHeight p1\<rparr> else p1)"

definition pane_onScroll :: "string \<Rightarrow> real \<Rightarrow> pane \<times> client \<Rightarrow> pane \<times> client" where
  "pane_onScroll channelId y pc =
     (let p = (fst pc)\<lparr>scrollTop := y\<rparr>;
          p1 = p\<lparr>stickBottom := scrollHeight p - scrollTop p - clientHeight p < 80\<rparr>
      in case oget (messagesByChannel (chat (snd pc))) channelId of
           None \<Rightarrow> (p1, snd pc)
         | Some cur \<Rightarrow>
             if scrollTop p1 < 150 \<and> loaded cur \<and> hasMore cur \<and> \<not> loadingOlder cur
             then (p1\<lparr>prepend := Some (scrollTop p1, scrollHeight p1)\<rparr>, loadOlder channelId (snd pc))
             else (p1, snd pc))"

text \<open>Messages added above leave the ones on screen where they are.\<close>

lemma prepend_keeps_place:
  "prepend p = Some (y, h) \<Longrightarrow> scrollTop p = y \<Longrightarrow> scrollHeight p = h \<Longrightarrow>
   scrollHeight (pane_items h' p) - scrollTop (pane_items h' p) = scrollHeight p - scrollTop p
   \<and> prepend (pane_items h' p) = None"
  by (simp add: pane_items_def Let_def)

lemma pinned_to_bottom:
  "prepend p = None \<Longrightarrow> stickBottom p \<Longrightarrow> scrollTop (pane_items h p) = h"
  by (simp add: pane_items_def Let_def)

text \<open>
  A message that arrives while the older page is loading uses up the anchor: the page itself then
  moves the messages on screen by its height \<open>d\<close>.
\<close>

lemma live_message_takes_anchor:
  "prepend p = Some (scrollTop p, scrollHeight p) \<Longrightarrow> \<not> stickBottom p \<Longrightarrow>
   scrollTop (pane_items (scrollHeight p + e + d) (pane_items (scrollHeight p + e) p))
     = scrollTop (pane_items (scrollHeight p + e) p)"
  by (simp add: pane_items_def Let_def)

end
