(* ===== verification/Gif_Picker.thy ===== *)
theory Gif_Picker imports Js_Text Chat_Async
begin

text \<open>
  \<open>GifPicker.jsx\<close>: the search panel. Each change of the query starts a new run of its effect, numbered
  by \<open>gp_run\<close>; the clean-up of the run before cancels its timer and makes its answer count for
  nothing. \<open>gp_flight\<close> holds the requests that have not been answered, with the run that sent them
  (a cancelled run's request goes on), and \<open>gp_answers\<close> the answers that have been delivered. Text
  fields deliver well-formed UTF-16, on which \<open>encodeURIComponent\<close> does not throw.
\<close>

definition DEBOUNCE_MS :: nat where "DEBOUNCE_MS = 350"

definition gif_path :: "text16 \<Rightarrow> string" where
  "gif_path query = (let q = trim query
     in if q \<noteq> [] then ''/gifs/search?q='' @ encodeURIComponent (utf8 q) else ''/gifs/trending'')"

definition gif_delay :: "text16 \<Rightarrow> nat" where
  "gif_delay query = (if trim query \<noteq> [] then DEBOUNCE_MS else 0)"

record picker =
  gp_query :: text16
  gp_results :: "gif list"
  gp_loading :: bool
  gp_error :: bool
  gp_run :: nat
  gp_timer :: "(nat \<times> string) option"
  gp_flight :: "(nat \<times> string) list"
  gp_mounted :: bool
  gp_answers :: "(nat \<times> string \<times> gif list option) list"

text \<open>The effect of a run, after the clean-up of the one before.\<close>

definition run_effect :: "picker \<Rightarrow> picker" where
  "run_effect g = g\<lparr>gp_loading := True, gp_error := False, gp_run := gp_run g + 1,
     gp_timer := Some (gif_delay (gp_query g), gif_path (gp_query g))\<rparr>"

definition open_picker :: picker where
  "open_picker = run_effect \<lparr>gp_query = [], gp_results = [], gp_loading = True, gp_error = False,
     gp_run = 0, gp_timer = None, gp_flight = [], gp_mounted = True, gp_answers = []\<rparr>"

text \<open>Typing runs the effect again unless the text is the same.\<close>

definition setQuery :: "text16 \<Rightarrow> picker \<Rightarrow> picker" where
  "setQuery q g = (if q = gp_query g then g else run_effect (g\<lparr>gp_query := q\<rparr>))"

definition timer_fires :: "picker \<Rightarrow> picker" where
  "timer_fires g = (case gp_timer g of
     None \<Rightarrow> g
   | Some (d, path) \<Rightarrow> g\<lparr>gp_timer := None, gp_flight := gp_flight g @ [(gp_run g, path)]\<rparr>)"

text \<open>The answer to the \<open>i\<close>th outstanding request; \<open>None\<close> is a rejection.\<close>

definition gif_answer :: "nat \<Rightarrow> gif list option \<Rightarrow> picker \<Rightarrow> picker" where
  "gif_answer i r g =
     (if i < length (gp_flight g)
      then (let run = fst (gp_flight g ! i); path = snd (gp_flight g ! i);
                g1 = g\<lparr>gp_flight := take i (gp_flight g) @ drop (Suc i) (gp_flight g),
                       gp_answers := gp_answers g @ [(run, path, r)]\<rparr>;
                cancelled = (run \<noteq> gp_run g \<or> \<not> gp_mounted g)
            in if cancelled then g1
               else case r of
                      Some xs \<Rightarrow> g1\<lparr>gp_results := xs, gp_loading := False\<rparr>
                    | None \<Rightarrow> g1\<lparr>gp_error := True, gp_results := [], gp_loading := False\<rparr>)
      else g)"

definition close_picker :: "picker \<Rightarrow> picker" where
  "close_picker g = g\<lparr>gp_mounted := False, gp_timer := None\<rparr>"

text \<open>What the panel draws.\<close>

datatype gif_panel = GifsLoading | GifsFailed | NoResults | GifGrid "gif list"

definition panel_shows :: "picker \<Rightarrow> gif_panel" where
  "panel_shows g =
     (if gp_loading g then GifsLoading
      else if gp_error g then GifsFailed
      else if gp_results g = [] then NoResults
      else GifGrid (gp_results g))"

section \<open>Runs\<close>

datatype picker_event = Query text16 | TimerFires | GifAnswer nat "gif list option"

fun picker_step :: "picker_event \<Rightarrow> picker \<Rightarrow> picker" where
  "picker_step (Query q) g = setQuery q g"
| "picker_step TimerFires g = timer_fires g"
| "picker_step (GifAnswer i r) g = gif_answer i r g"

text \<open>
  While the panel is open: it is loading exactly while the current run has a timer or a request; the
  current run asks for the current query; what it shows is the answer to the current run.
\<close>

definition shows_answer :: "picker \<Rightarrow> bool" where
  "shows_answer g \<longleftrightarrow>
     (\<exists>r. (gp_run g, gif_path (gp_query g), r) \<in> set (gp_answers g)
        \<and> gp_error g = (r = None) \<and> gp_results g = or_empty r)"

definition picker_inv :: "picker \<Rightarrow> bool" where
  "picker_inv g \<longleftrightarrow> gp_mounted g
     \<and> (gp_loading g \<longleftrightarrow> gp_timer g \<noteq> None \<or> gp_run g \<in> fst ` set (gp_flight g))
     \<and> (gp_timer g \<noteq> None \<longrightarrow> gp_run g \<notin> fst ` set (gp_flight g))
     \<and> distinct (map fst (gp_flight g)) \<and> list_all (\<lambda>p. fst p \<le> gp_run g) (gp_flight g)
     \<and> (case gp_timer g of None \<Rightarrow> True | Some t \<Rightarrow> t = (gif_delay (gp_query g), gif_path (gp_query g)))
     \<and> list_all (\<lambda>p. fst p = gp_run g \<longrightarrow> snd p = gif_path (gp_query g)) (gp_flight g)
     \<and> (gp_loading g \<or> shows_answer g)
     \<and> (gp_loading g \<longrightarrow> \<not> gp_error g)"

lemma run_effect_inv: "picker_inv g \<Longrightarrow> picker_inv (run_effect (g\<lparr>gp_query := q\<rparr>))"
  by (fastforce simp: picker_inv_def run_effect_def list_all_iff)

lemma timer_fires_inv: "picker_inv g \<Longrightarrow> picker_inv (timer_fires g)"
  by (auto simp: picker_inv_def timer_fires_def shows_answer_def list_all_iff split: option.splits)

lemma removed_keys:
  assumes "distinct (map fst xs)" "i < length xs"
  shows "distinct (map fst (take i xs @ drop (Suc i) xs))"
    and "fst ` set (take i xs @ drop (Suc i) xs) = fst ` set xs - {fst (xs ! i)}"
    and "set (take i xs @ drop (Suc i) xs) \<subseteq> set xs"
proof -
  have l: "i < length (map fst xs)" using assms(2) by simp
  have m: "map fst (take i xs @ drop (Suc i) xs) = take i (map fst xs) @ drop (Suc i) (map fst xs)"
    by (simp add: take_map drop_map)
  show "distinct (map fst (take i xs @ drop (Suc i) xs))"
    unfolding m by (rule set_drop_nth(2) [OF assms(1) l])
  have "set (map fst (take i xs @ drop (Suc i) xs)) = set (map fst xs) - {map fst xs ! i}"
    unfolding m by (rule set_drop_nth(1) [OF assms(1) l])
  then show "fst ` set (take i xs @ drop (Suc i) xs) = fst ` set xs - {fst (xs ! i)}"
    using assms(2) by (simp only: set_map nth_map)
  show "set (take i xs @ drop (Suc i) xs) \<subseteq> set xs"
    using set_take_subset [of i xs] set_drop_subset [of "Suc i" xs] by auto
qed

lemma gif_answer_inv:
  assumes inv: "picker_inv g"
  shows "picker_inv (gif_answer i r g)"
proof (cases "i < length (gp_flight g)")
  case True
  define rest where "rest = take i (gp_flight g) @ drop (Suc i) (gp_flight g)"
  define run where "run = fst (gp_flight g ! i)"
  have d: "distinct (map fst (gp_flight g))" using inv by (simp add: picker_inv_def)
  note k = removed_keys [OF d True, folded rest_def run_def]
  have mem: "gp_flight g ! i \<in> set (gp_flight g)" using True by simp
  have sub: "list_all P (gp_flight g) \<Longrightarrow> list_all P rest" for P
    using k(3) by (auto simp: list_all_iff)
  have runs: "run \<in> fst ` set (gp_flight g)" using mem by (auto simp: run_def)
  have path: "run = gp_run g \<Longrightarrow> snd (gp_flight g ! i) = gif_path (gp_query g)"
    using inv mem by (auto simp: picker_inv_def list_all_iff run_def)
  have timer: "run = gp_run g \<Longrightarrow> gp_timer g = None"
    using inv runs by (cases "gp_timer g") (auto simp: picker_inv_def)
  have fine: "run = gp_run g \<Longrightarrow> \<not> gp_error g"
    using inv runs by (auto simp: picker_inv_def)
  have up: "gif_answer i r' g =
      (let g1 = g\<lparr>gp_flight := rest, gp_answers := gp_answers g @ [(run, snd (gp_flight g ! i), r')]\<rparr>
       in if run \<noteq> gp_run g \<or> \<not> gp_mounted g then g1
          else case r' of Some xs \<Rightarrow> g1\<lparr>gp_results := xs, gp_loading := False\<rparr>
             | None \<Rightarrow> g1\<lparr>gp_error := True, gp_results := [], gp_loading := False\<rparr>)" for r'
    using True by (simp add: gif_answer_def rest_def run_def Let_def)
  show ?thesis
  proof (cases "run = gp_run g")
    case True
    define g' where "g' = gif_answer i r g"
    have e: "gp_error g' = (r = None)" "gp_results g' = or_empty r"
      "gp_answers g' = gp_answers g @ [(gp_run g, gif_path (gp_query g), r)]"
      "gp_run g' = gp_run g" "gp_query g' = gp_query g" "\<not> gp_loading g'" "gp_flight g' = rest"
      "gp_timer g' = None" "gp_mounted g'"
      using True inv path timer fine by (cases r; simp add: g'_def up picker_inv_def Let_def)+
    then have "shows_answer g'" by (auto simp: shows_answer_def)
    with e True inv k(1,2) sub have "picker_inv g'" by (simp add: picker_inv_def)
    then show ?thesis by (simp add: g'_def)
  next
    case False
    then show ?thesis using inv k(1,2) sub
      by (cases "gp_timer g") (auto simp: up picker_inv_def shows_answer_def Let_def)
  qed
qed (use inv in \<open>simp add: gif_answer_def\<close>)

lemma picker_inv_step: "picker_inv g \<Longrightarrow> picker_inv (picker_step e g)"
  by (cases e) (simp_all add: setQuery_def run_effect_inv timer_fires_inv gif_answer_inv)

interpretation picker_runs: invariant_steps picker_step picker_inv "\<lambda>_. True"
  by unfold_locales (rule picker_inv_step)

lemma picker_inv_open: "picker_inv open_picker"
  by (simp add: picker_inv_def open_picker_def run_effect_def)

text \<open>After the panel has closed no answer changes what it holds.\<close>

lemma closed_ignores:
  "panel_shows (gif_answer i r (close_picker g)) = panel_shows (close_picker g)"
  by (simp add: gif_answer_def close_picker_def panel_shows_def Let_def)

end
