(* ===== verification/Profile_Card.thy ===== *)
theory Profile_Card imports Profile_Store Chat_Store
begin

text \<open>
  \<open>ProfileCard.jsx\<close>: what the open profile card shows and where. \<open>card_sections\<close> lists the blocks of
  the card's body; \<open>place_card\<close> is the layout effect that puts the card beside its anchor and keeps
  it inside the viewport. Lengths are pixels, possibly fractional.
\<close>

definition CARD_W :: real where "CARD_W = 320"
definition GAP :: real where "GAP = 8"

text \<open>\<open>/^#[0-9a-fA-F]{6}$/\<close>.\<close>

definition isHexDigit :: "char \<Rightarrow> bool" where
  "isHexDigit c \<longleftrightarrow> c \<in> set ''0123456789abcdefABCDEF''"

definition HEX_RE :: "string \<Rightarrow> bool" where
  "HEX_RE s \<longleftrightarrow> (case s of [] \<Rightarrow> False | c # cs \<Rightarrow> c = CHR ''#'' \<and> length cs = 6 \<and> list_all isHexDigit cs)"

definition or_string :: "string option \<Rightarrow> string" where
  "or_string x = (case x of None \<Rightarrow> '''' | Some s \<Rightarrow> s)"

definition default_accent :: string where "default_accent = ''#5865f2''"

definition accent_of :: "user \<Rightarrow> string" where
  "accent_of p = (if HEX_RE (or_string (u_accent_color p)) then or_string (u_accent_color p) else default_accent)"

text \<open>Presence: the member lists are scanned in insertion order for the user.\<close>

fun scan_members :: "string \<Rightarrow> gmember list list \<Rightarrow> string option" where
  "scan_members u [] = None"
| "scan_members u (ms # mss) =
     (case List.find (\<lambda>m. mb_user_id m = u) ms of
        Some m \<Rightarrow> Some (if mb_status m = [] then ''offline'' else mb_status m)
      | None \<Rightarrow> scan_members u mss)"

definition card_status :: "chat \<Rightarrow> profile_store \<Rightarrow> string option" where
  "card_status s st =
     (if \<not> truthy (selectedGuildId s) then None
      else case p_open st of None \<Rightarrow> None
           | Some (u, r) \<Rightarrow> scan_members u (ovalues (membersByGuild s)))"

text \<open>The body: \<open>p = profile || (isMe ? me : null)\<close>.\<close>

definition card_profile :: "user option \<Rightarrow> profile_store \<Rightarrow> user option" where
  "card_profile me st = (case p_open st of None \<Rightarrow> None
     | Some (u, r) \<Rightarrow> (case oget (profiles st) u of
           Some p \<Rightarrow> Some p
         | None \<Rightarrow> if is_me me u then me else None))"

definition card_online :: "user option \<Rightarrow> chat \<Rightarrow> profile_store \<Rightarrow> bool" where
  "card_online me s st \<longleftrightarrow>
     (case p_open st of None \<Rightarrow> False | Some (u, r) \<Rightarrow> is_me me u) \<or> card_status s st = Some ''online''"

datatype card_section =
    LoadingLine
  | ErrorLine
  | ProfileBody user string bool bool

definition card_sections :: "user option \<Rightarrow> chat \<Rightarrow> profile_store \<Rightarrow> card_section list" where
  "card_sections me s st = (case p_open st of None \<Rightarrow> []
     | Some (u, r) \<Rightarrow>
         (let p = card_profile me st
          in (if flag (p_loading st) u \<and> p = None then [LoadingLine] else [])
             @ (if flag (p_errored st) u \<and> p = None then [ErrorLine] else [])
             @ (case p of None \<Rightarrow> []
                | Some v \<Rightarrow> [ProfileBody v (accent_of v) (card_online me s st) (is_me me u)])))"

text \<open>The card closes on a press outside it and on Escape.\<close>

definition card_onDown :: "bool \<Rightarrow> profile_store \<Rightarrow> profile_store" where
  "card_onDown inside st = (if p_open st \<noteq> None \<and> \<not> inside then closeCard st else st)"

definition card_onKey :: "string \<Rightarrow> profile_store \<Rightarrow> profile_store" where
  "card_onKey key st = (if p_open st \<noteq> None \<and> key = ''Escape'' then closeCard st else st)"

section \<open>Placement\<close>

definition place_card :: "rect \<Rightarrow> nat \<Rightarrow> real \<Rightarrow> real \<Rightarrow> real \<times> real" where
  "place_card r offsetHeight vw vh =
     (let cardH = (if offsetHeight = 0 then 320 else real offsetHeight);
          left = r_right r + GAP;
          left = (if vw - 8 < left + CARD_W then r_left r - GAP - CARD_W else left);
          left = (if left < 8 then min (r_left r) (vw - CARD_W - 8) else left);
          left = max 8 left;
          top = r_top r;
          top = (if vh - 8 < top + cardH then vh - cardH - 8 else top);
          top = max 8 top
      in (left, top))"

lemma place_card_margins: "8 \<le> fst (place_card r hgt vw vh) \<and> 8 \<le> snd (place_card r hgt vw vh)"
  by (simp add: place_card_def Let_def)

text \<open>On a viewport that has room for the card, an anchor that starts on screen keeps it inside.\<close>

lemma place_card_right:
  "336 \<le> vw \<Longrightarrow> r_left r \<le> vw \<Longrightarrow> fst (place_card r hgt vw vh) + CARD_W \<le> vw - 8"
  by (auto simp: place_card_def Let_def CARD_W_def GAP_def)

lemma place_card_bottom:
  "0 < hgt \<Longrightarrow> real hgt + 16 \<le> vh \<Longrightarrow> snd (place_card r hgt vw vh) + real hgt \<le> vh - 8"
  by (auto simp: place_card_def Let_def)

text \<open>Where there is room on a side of the anchor the card does not cover it.\<close>

lemma place_card_beside:
  "r_right r + 336 \<le> vw \<and> 0 \<le> r_right r \<or> 336 \<le> r_left r \<Longrightarrow>
   r_left r \<le> r_right r \<Longrightarrow>
   fst (place_card r hgt vw vh) + CARD_W \<le> r_left r \<or> r_right r \<le> fst (place_card r hgt vw vh)"
  by (auto simp: place_card_def Let_def CARD_W_def GAP_def)

lemma accent_safe: "HEX_RE (accent_of p)"
  by (simp add: accent_of_def default_accent_def HEX_RE_def isHexDigit_def)

lemma scan_members_Some:
  "scan_members u mss = Some x \<Longrightarrow> x \<noteq> [] \<and> (\<exists>ms \<in> set mss. \<exists>m \<in> set ms. mb_user_id m = u)"
  by (induction mss) (auto split: option.splits if_splits dest!: find_Some_set)

text \<open>The body of an open card is exactly one block, in every state the store can reach.\<close>

lemma card_one_section:
  "profile_inv st \<Longrightarrow> p_open st \<noteq> None \<Longrightarrow> length (card_sections me s st) = 1"
  by (auto simp: card_sections_def card_profile_def profile_inv_def Let_def split: option.splits)

end
