(* ===== verification/Canvas.thy ===== *)
theory Canvas imports Prelude Complex_Main "HOL-Library.State_Monad" "HOL-Library.Stream"
begin

text \<open>
  What the effects draw with: the operations of a 2D canvas context as a list of commands, and
  \<open>Math.random\<close> as a stream of numbers consumed in order through the state monad. Numbers are reals.
\<close>

section \<open>Commands\<close>

datatype canvas_op =
    Save | Restore | BeginPath | ClosePath | Fill | Stroke
  | GlobalAlpha real | FillStyle string | StrokeStyle string | LineWidth real
  | ShadowColor string | ShadowBlur real | LineCap string | LineJoin string
  | MoveTo real real | LineTo real real | BezierCurveTo real real real real real real
  | Arc real real real real real | FillRect real real real real | ClearRect real real real real
  | Translate real real | Rotate real | SetTransform real real real real real real

text \<open>The depth of the stack of saved states after a list of commands; \<open>None\<close> if it underflows.\<close>

fun stack :: "canvas_op list \<Rightarrow> nat \<Rightarrow> nat option" where
  "stack [] d = Some d"
| "stack (Save # ops) d = stack ops (d + 1)"
| "stack (Restore # ops) d = (if d = 0 then None else stack ops (d - 1))"
| "stack (x # ops) d = stack ops d"

definition balanced_ops :: "canvas_op list \<Rightarrow> bool" where
  "balanced_ops ops \<longleftrightarrow> (\<forall>d. stack ops d = Some d)"

fun flat_op :: "canvas_op \<Rightarrow> bool" where
  "flat_op Save = False"
| "flat_op Restore = False"
| "flat_op x = True"

text \<open>An alpha the canvas accepts; it ignores any other.\<close>

fun alpha_ok :: "canvas_op \<Rightarrow> bool" where
  "alpha_ok (GlobalAlpha a) \<longleftrightarrow> 0 \<le> a \<and> a \<le> 1"
| "alpha_ok x = True"

lemma stack_append: "stack (xs @ ys) d = (case stack xs d of None \<Rightarrow> None | Some d' \<Rightarrow> stack ys d')"
  by (induction xs d rule: stack.induct) simp_all

lemma balanced_Nil [simp]: "balanced_ops []"
  by (simp add: balanced_ops_def)

lemma balanced_append [intro]: "balanced_ops xs \<Longrightarrow> balanced_ops ys \<Longrightarrow> balanced_ops (xs @ ys)"
  by (simp add: balanced_ops_def stack_append)

lemma flat_stack: "list_all flat_op xs \<Longrightarrow> stack xs d = Some d"
  by (induction xs d rule: stack.induct) auto

lemma balanced_flat [intro]: "list_all flat_op xs \<Longrightarrow> balanced_ops xs"
  by (simp add: balanced_ops_def flat_stack)

lemma balanced_saved: "balanced_ops xs \<Longrightarrow> balanced_ops (Save # xs @ [Restore])"
  by (simp add: balanced_ops_def stack_append)

lemma balanced_concat: "list_all balanced_ops xss \<Longrightarrow> balanced_ops (concat xss)"
  by (induction xss) auto

section \<open>Random numbers\<close>

type_synonym 'a gen = "(real stream, 'a) state"

definition random :: "real gen" where
  "random = State (\<lambda>s. (shd s, stl s))"

definition rand :: "real \<Rightarrow> real \<Rightarrow> real gen" where
  "rand a b = do { r \<leftarrow> random; State_Monad.return (a + r * (b - a)) }"

text \<open>\<open>(Math.random() * n) | 0\<close>.\<close>

definition randInt :: "nat \<Rightarrow> nat gen" where
  "randInt n = do { r \<leftarrow> random; State_Monad.return (nat \<lfloor>r * real n\<rfloor>) }"

definition pick :: "'a list \<Rightarrow> 'a gen" where
  "pick arr = do { i \<leftarrow> randInt (length arr); State_Monad.return (arr ! i) }"

text \<open>A loop that pushes \<open>n\<close> values.\<close>

fun times :: "nat \<Rightarrow> 'a gen \<Rightarrow> 'a list gen" where
  "times 0 m = State_Monad.return []"
| "times (Suc n) m = do { x \<leftarrow> m; xs \<leftarrow> times n m; State_Monad.return (x # xs) }"

text \<open>A loop over an array that replaces each element.\<close>

fun each :: "('a \<Rightarrow> 'b gen) \<Rightarrow> 'a list \<Rightarrow> 'b list gen" where
  "each f [] = State_Monad.return []"
| "each f (x # xs) = do { y \<leftarrow> f x; ys \<leftarrow> each f xs; State_Monad.return (y # ys) }"

text \<open>
  \<open>Math.random\<close> yields numbers from 0 up to, not including, 1. \<open>returns m P\<close>: on such numbers every
  result of \<open>m\<close> satisfies \<open>P\<close>, and the numbers left over are such numbers.
\<close>

definition unit_stream :: "real stream \<Rightarrow> bool" where
  "unit_stream s \<longleftrightarrow> (\<forall>x \<in> sset s. 0 \<le> x \<and> x < 1)"

definition returns :: "'a gen \<Rightarrow> ('a \<Rightarrow> bool) \<Rightarrow> bool" where
  "returns m P \<longleftrightarrow> (\<forall>s. unit_stream s \<longrightarrow> P (fst (run_state m s)) \<and> unit_stream (snd (run_state m s)))"

lemma unit_stream_sconst: "0 \<le> x \<Longrightarrow> x < 1 \<Longrightarrow> unit_stream (sconst x)"
  by (simp add: unit_stream_def)

lemma returns_return [intro]: "P x \<Longrightarrow> returns (State_Monad.return x) P"
  by (simp add: returns_def)

lemma returns_bind: "returns m Q \<Longrightarrow> (\<And>x. Q x \<Longrightarrow> returns (f x) P) \<Longrightarrow> returns (m \<bind> f) P"
  by (auto simp: returns_def split_beta)

lemma returns_weaken: "returns m Q \<Longrightarrow> (\<And>x. Q x \<Longrightarrow> P x) \<Longrightarrow> returns m P"
  by (auto simp: returns_def)

lemma returns_random: "returns random (\<lambda>r. 0 \<le> r \<and> r < 1)"
  unfolding returns_def random_def unit_stream_def
  by (auto simp: shd_sset stl_sset)

lemma rand_bounds: "a \<le> b \<Longrightarrow> returns (rand a b) (\<lambda>x. a \<le> x \<and> x \<le> b)"
proof -
  assume ab: "a \<le> b"
  have "a \<le> a + r * (b - a) \<and> a + r * (b - a) \<le> b" if "0 \<le> r" "r < 1" for r
  proof -
    have "r * (b - a) \<le> 1 * (b - a)" using ab that by (intro mult_right_mono) auto
    then show ?thesis using ab that by simp
  qed
  then show ?thesis unfolding rand_def
    by (intro returns_bind [OF returns_random] returns_return) blast
qed

lemma randInt_bound: "0 < n \<Longrightarrow> returns (randInt n) (\<lambda>i. i < n)"
proof -
  assume n: "0 < n"
  have "nat \<lfloor>r * real n\<rfloor> < n" if "0 \<le> r" "r < 1" for r
  proof -
    have "r * real n < 1 * real n" using n that by (intro mult_strict_right_mono) auto
    then have "\<lfloor>r * real n\<rfloor> < int n" by (simp add: floor_less_iff)
    then show ?thesis using n by (simp add: nat_less_iff)
  qed
  then show ?thesis unfolding randInt_def
    by (intro returns_bind [OF returns_random] returns_return) blast
qed

lemma pick_mem: "arr \<noteq> [] \<Longrightarrow> returns (pick arr) (\<lambda>x. x \<in> set arr)"
  unfolding pick_def by (intro returns_bind [OF randInt_bound] returns_return) simp_all

lemma times_all: "returns m P \<Longrightarrow> returns (times n m) (\<lambda>xs. length xs = n \<and> list_all P xs)"
proof (induction n)
  case 0
  show ?case by (simp add: returns_return)
next
  case (Suc n)
  then have IH: "returns (times n m) (\<lambda>xs. length xs = n \<and> list_all P xs)" by simp
  show ?case unfolding times.simps
    by (intro returns_bind [OF Suc.prems] returns_bind [OF IH] returns_return) simp
qed

lemma each_all:
  "(\<And>x. Q x \<Longrightarrow> returns (f x) P) \<Longrightarrow> list_all Q xs \<Longrightarrow>
   returns (each f xs) (\<lambda>ys. length ys = length xs \<and> list_all P ys)"
proof (induction xs)
  case Nil
  show ?case by (simp add: returns_return)
next
  case (Cons x xs)
  then have IH: "returns (each f xs) (\<lambda>ys. length ys = length xs \<and> list_all P ys)" by simp
  have x: "returns (f x) P" using Cons.prems by simp
  show ?case unfolding each.simps
    by (intro returns_bind [OF x] returns_bind [OF IH] returns_return) simp
qed

end
