(* ===== verification/Effects_Engine.thy ===== *)
theory Effects_Engine imports Canvas Effects_Store
begin

text \<open>
  \<open>effects.js\<close>: the one-shot effects, the storm layer and the thunder. An effect is its state; its
  update draws one frame (the list of canvas commands), moves on, and says whether it is still
  alive. What an update does is computed in the random generator monad of theory \<open>Canvas\<close>, in the
  order in which the code draws random numbers. The lemmas show that every constructor makes an
  effect of age 0 that lives at most six seconds, that an update adds the elapsed time to its age
  and reports exactly whether it is past its life, that drawing leaves the canvas state stack as it
  found it and sets only alphas between 0 and 1, and how many particles there are.
\<close>

definition prefersReducedMotion :: "bool option \<Rightarrow> bool" where
  "prefersReducedMotion matchMedia = (case matchMedia of None \<Rightarrow> False | Some m \<Rightarrow> m)"

section \<open>Bolts\<close>

type_synonym point = "real \<times> real"

record bolt =
  b_points :: "point list"
  b_forks :: "point list list"

text \<open>The main path: \<open>n\<close> segments are left, the next one is number \<open>i\<close>.\<close>

fun bolt_walk :: "real \<Rightarrow> real \<Rightarrow> real \<Rightarrow> nat \<Rightarrow> nat \<Rightarrow> nat \<Rightarrow> real \<Rightarrow> point list gen" where
  "bolt_walk w step targetX segments 0 i x = State_Monad.return []"
| "bolt_walk w step targetX segments (Suc n) i x = do {
     r \<leftarrow> rand (- w * 0.05) (w * 0.05);
     let x' = x + ((targetX - x) * (real i / real segments) * 0.3 + r);
     rest \<leftarrow> bolt_walk w step targetX segments n (i + 1) x';
     State_Monad.return ((x', real i * step) # rest) }"

fun fork_walk :: "real \<Rightarrow> real \<Rightarrow> nat \<Rightarrow> real \<Rightarrow> real \<Rightarrow> point list gen" where
  "fork_walk w step 0 fx fy = State_Monad.return []"
| "fork_walk w step (Suc n) fx fy = do {
     r \<leftarrow> rand (- w * 0.08) (w * 0.08);
     q \<leftarrow> rand 0.4 0.9;
     rest \<leftarrow> fork_walk w step n (fx + r) (fy + step * q);
     State_Monad.return ((fx + r, fy + step * q) # rest) }"

definition make_fork :: "real \<Rightarrow> real \<Rightarrow> point list \<Rightarrow> point list gen" where
  "make_fork w step points = do {
     j \<leftarrow> randInt (length points - 4);
     let start = points ! (2 + j);
     k \<leftarrow> randInt 4;
     rest \<leftarrow> fork_walk w step (3 + k) (fst start) (snd start);
     State_Monad.return (start # rest) }"

definition generateBolt :: "real \<Rightarrow> real \<Rightarrow> bolt gen" where
  "generateBolt w h = do {
     x \<leftarrow> rand (w * 0.2) (w * 0.8);
     d \<leftarrow> rand (- w * 0.15) (w * 0.15);
     k \<leftarrow> randInt 8;
     let segments = 14 + k;
     let step = h / real segments;
     rest \<leftarrow> bolt_walk w step (x + d) segments segments 1 x;
     let points = (x, 0) # rest;
     n \<leftarrow> randInt 3;
     forks \<leftarrow> times (1 + n) (make_fork w step points);
     State_Monad.return \<lparr>b_points = points, b_forks = forks\<rparr> }"

definition strokePath :: "point list \<Rightarrow> real \<Rightarrow> string \<Rightarrow> string \<Rightarrow> canvas_op list" where
  "strokePath pts width color glow =
     (if length pts < 2 then []
      else [BeginPath, MoveTo (fst (pts ! 0)) (snd (pts ! 0))]
           @ map (\<lambda>p. LineTo (fst p) (snd p)) (tl pts)
           @ [LineWidth width, StrokeStyle color, ShadowColor glow, ShadowBlur 24, LineCap ''round'',
              LineJoin ''round'', Stroke])"

section \<open>Lightning\<close>

record lightning =
  lt_age :: real
  lt_reduced :: bool
  lt_life :: real
  lt_bolts :: "bolt list"
  lt_nextFlicker :: real
  lt_visible :: bool

definition new_lightning :: "real \<Rightarrow> real \<Rightarrow> bool \<Rightarrow> lightning gen" where
  "new_lightning w h reduced = do {
     b \<leftarrow> generateBolt w h;
     r \<leftarrow> random;
     bs \<leftarrow> (if 0.5 < r then times 1 (generateBolt w h) else State_Monad.return []);
     State_Monad.return \<lparr>lt_age = 0, lt_reduced = reduced, lt_life = (if reduced then 520 else 720),
       lt_bolts = b # bs, lt_nextFlicker = 0, lt_visible = False\<rparr> }"

definition flash_ops :: "real \<Rightarrow> real \<Rightarrow> lightning \<Rightarrow> canvas_op list" where
  "flash_ops w h l =
     (let flashDur = (if lt_reduced l then 260 else 200); peak = (if lt_reduced l then 0.35 else 0.85)
      in if lt_age l < flashDur
         then [Save, GlobalAlpha (max 0 (peak * (1 - lt_age l / flashDur))), FillStyle ''#eaf2ff'',
               FillRect 0 0 w h, Restore]
         else [])"

definition bolt_ops :: "bolt \<Rightarrow> canvas_op list" where
  "bolt_ops b =
     strokePath (b_points b) 3.5 ''rgba(255,255,255,0.95)'' ''#9db4ff''
     @ strokePath (b_points b) 1.4 ''#ffffff'' ''#ffffff''
     @ concat (map (\<lambda>f. strokePath f 1.6 ''rgba(210,224,255,0.8)'' ''#9db4ff'') (b_forks b))"

definition flicker :: "real \<Rightarrow> real \<Rightarrow> real \<Rightarrow> lightning \<Rightarrow> lightning gen" where
  "flicker dt w h l =
     (let next = lt_nextFlicker l - dt
      in if next \<le> 0
         then do {
           n \<leftarrow> rand 30 70;
           r \<leftarrow> random;
           bs \<leftarrow> (if 0.35 < r then each (\<lambda>b. generateBolt w h) (lt_bolts l)
                  else State_Monad.return (lt_bolts l));
           v \<leftarrow> random;
           State_Monad.return (l\<lparr>lt_nextFlicker := n, lt_bolts := bs, lt_visible := 0.25 < v\<rparr>) }
         else State_Monad.return (l\<lparr>lt_nextFlicker := next\<rparr>))"

definition update_lightning ::
  "real \<Rightarrow> real \<Rightarrow> real \<Rightarrow> lightning \<Rightarrow> (canvas_op list \<times> lightning \<times> bool) gen" where
  "update_lightning dt w h l0 =
     (let l = l0\<lparr>lt_age := lt_age l0 + dt\<rparr>;
          boltWindow = (if lt_reduced l then 200 else 300)
      in if lt_age l < boltWindow
         then do {
           l1 \<leftarrow> flicker dt w h l;
           State_Monad.return
             (flash_ops w h l
              @ (if lt_visible l1 then Save # concat (map bolt_ops (lt_bolts l1)) @ [Restore] else []),
              l1, lt_age l1 < lt_life l1) }
         else State_Monad.return (flash_ops w h l, l, lt_age l < lt_life l))"

section \<open>Confetti\<close>

text \<open>The particles of an effect fade over its last milliseconds.\<close>

definition fade :: "real \<Rightarrow> real \<Rightarrow> real \<Rightarrow> real" where
  "fade life tail age = (if life - tail < age then max 0 ((life - age) / tail) else 1)"

definition count_of :: "nat \<Rightarrow> real \<Rightarrow> real \<Rightarrow> nat" where
  "count_of cap w per = nat (min (int cap) \<lfloor>w / per\<rfloor>)"

record confetti_part =
  cp_x :: real  cp_y :: real  cp_vx :: real  cp_vy :: real  cp_size :: real
  cp_rot :: real  cp_vr :: real  cp_color :: string  cp_sway :: real

record confetti =
  cn_age :: real
  cn_parts :: "confetti_part list"

definition confetti_life :: real where "confetti_life = 3200"

definition confetti_colors :: "string list" where
  "confetti_colors = [''#5865f2'', ''#eb459e'', ''#23a55a'', ''#f0b232'', ''#00a8fc'', ''#ed4245'', ''#ffffff'']"

definition new_confetti_part :: "real \<Rightarrow> real \<Rightarrow> confetti_part gen" where
  "new_confetti_part w h = do {
     x \<leftarrow> rand 0 w; y \<leftarrow> rand (- h * 0.3) 0; vx \<leftarrow> rand (- 0.04) 0.04; vy \<leftarrow> rand 0.12 0.34;
     size \<leftarrow> rand 5 11; rot \<leftarrow> rand 0 (pi * 2); vr \<leftarrow> rand (- 0.2) 0.2; c \<leftarrow> pick confetti_colors;
     sway \<leftarrow> rand 0.5 1.6;
     State_Monad.return \<lparr>cp_x = x, cp_y = y, cp_vx = vx, cp_vy = vy, cp_size = size, cp_rot = rot,
       cp_vr = vr, cp_color = c, cp_sway = sway\<rparr> }"

definition new_confetti :: "real \<Rightarrow> real \<Rightarrow> confetti gen" where
  "new_confetti w h = do {
     ps \<leftarrow> times (count_of 220 w 6) (new_confetti_part w h);
     State_Monad.return \<lparr>cn_age = 0, cn_parts = ps\<rparr> }"

definition move_confetti :: "real \<Rightarrow> real \<Rightarrow> confetti_part \<Rightarrow> confetti_part" where
  "move_confetti age dt p =
     p\<lparr>cp_x := cp_x p + (cp_vx p + sin (age / 400 * cp_sway p) * 0.06) * dt,
       cp_y := cp_y p + cp_vy p * dt, cp_rot := cp_rot p + cp_vr p * (dt / 16)\<rparr>"

definition confetti_ops :: "real \<Rightarrow> confetti_part \<Rightarrow> canvas_op list" where
  "confetti_ops f p =
     [Save, GlobalAlpha f, Translate (cp_x p) (cp_y p), Rotate (cp_rot p), FillStyle (cp_color p),
      FillRect (- cp_size p / 2) (- cp_size p / 2) (cp_size p) (cp_size p * 0.6), Restore]"

definition update_confetti :: "real \<Rightarrow> confetti \<Rightarrow> canvas_op list \<times> confetti \<times> bool" where
  "update_confetti dt c =
     (let age = cn_age c + dt; ps = map (move_confetti age dt) (cn_parts c)
      in (concat (map (confetti_ops (fade confetti_life 700 age)) ps),
          c\<lparr>cn_age := age, cn_parts := ps\<rparr>, age < confetti_life))"

section \<open>Hearts\<close>

definition heartPath :: "real \<Rightarrow> real \<Rightarrow> real \<Rightarrow> canvas_op list" where
  "heartPath x y s =
     [BeginPath, MoveTo x (y + s * 0.3),
      BezierCurveTo x y (x - s * 0.5) y (x - s * 0.5) (y + s * 0.3),
      BezierCurveTo (x - s * 0.5) (y + s * 0.6) x (y + s * 0.8) x (y + s),
      BezierCurveTo x (y + s * 0.8) (x + s * 0.5) (y + s * 0.6) (x + s * 0.5) (y + s * 0.3),
      BezierCurveTo (x + s * 0.5) y x y x (y + s * 0.3), ClosePath, Fill]"

record heart =
  hp_x :: real  hp_y :: real  hp_vy :: real  hp_size :: real  hp_color :: string
  hp_sway :: real  hp_phase :: real  hp_delay :: real

record hearts =
  hs_age :: real
  hs_parts :: "heart list"

definition hearts_life :: real where "hearts_life = 3600"

definition hearts_colors :: "string list" where
  "hearts_colors = [''#ed4245'', ''#eb459e'', ''#ff6b81'', ''#ff9ff3'']"

definition new_heart :: "real \<Rightarrow> real \<Rightarrow> heart gen" where
  "new_heart w h = do {
     x \<leftarrow> rand 0 w; y \<leftarrow> rand 0 (h * 0.5); vy \<leftarrow> rand 0.05 0.13; size \<leftarrow> rand 16 34;
     c \<leftarrow> pick hearts_colors; sway \<leftarrow> rand 0.6 1.8; phase \<leftarrow> rand 0 (pi * 2); delay \<leftarrow> rand 0 900;
     State_Monad.return \<lparr>hp_x = x, hp_y = h + y, hp_vy = vy, hp_size = size, hp_color = c, hp_sway = sway,
       hp_phase = phase, hp_delay = delay\<rparr> }"

definition new_hearts :: "real \<Rightarrow> real \<Rightarrow> hearts gen" where
  "new_hearts w h = do {
     ps \<leftarrow> times (count_of 60 w 20) (new_heart w h);
     State_Monad.return \<lparr>hs_age = 0, hs_parts = ps\<rparr> }"

definition move_heart :: "real \<Rightarrow> real \<Rightarrow> heart \<Rightarrow> heart" where
  "move_heart age dt p = (if age < hp_delay p then p else p\<lparr>hp_y := hp_y p - hp_vy p * dt\<rparr>)"

definition heart_ops :: "real \<Rightarrow> real \<Rightarrow> heart \<Rightarrow> canvas_op list" where
  "heart_ops age f p =
     (if age < hp_delay p then []
      else [GlobalAlpha (f * 0.9), FillStyle (hp_color p)]
           @ heartPath (hp_x p + sin (age / 500 + hp_phase p) * hp_sway p * 8) (hp_y p) (hp_size p))"

definition update_hearts :: "real \<Rightarrow> hearts \<Rightarrow> canvas_op list \<times> hearts \<times> bool" where
  "update_hearts dt c =
     (let age = hs_age c + dt; ps = map (move_heart age dt) (hs_parts c)
      in (Save # concat (map (heart_ops age (fade hearts_life 800 age)) ps) @ [Restore],
          c\<lparr>hs_age := age, hs_parts := ps\<rparr>, age < hearts_life))"

section \<open>Snow\<close>

record flake =
  sp_x :: real  sp_y :: real  sp_r :: real  sp_vy :: real  sp_sway :: real  sp_phase :: real

record snow =
  sn_age :: real
  sn_parts :: "flake list"

definition snow_life :: real where "snow_life = 6000"

definition new_flake :: "real \<Rightarrow> real \<Rightarrow> flake gen" where
  "new_flake w h = do {
     x \<leftarrow> rand 0 w; y \<leftarrow> rand (- h) 0; r \<leftarrow> rand 1.5 4.5; vy \<leftarrow> rand 0.03 0.12; sway \<leftarrow> rand 0.4 1.4;
     phase \<leftarrow> rand 0 (pi * 2);
     State_Monad.return \<lparr>sp_x = x, sp_y = y, sp_r = r, sp_vy = vy, sp_sway = sway, sp_phase = phase\<rparr> }"

definition new_snow :: "real \<Rightarrow> real \<Rightarrow> snow gen" where
  "new_snow w h = do {
     ps \<leftarrow> times (count_of 260 w 5) (new_flake w h);
     State_Monad.return \<lparr>sn_age = 0, sn_parts = ps\<rparr> }"

text \<open>The horizontal position is taken before the flake wraps to the top.\<close>

definition move_flake :: "real \<Rightarrow> real \<Rightarrow> flake \<Rightarrow> flake" where
  "move_flake dt h p = (let y = sp_y p + sp_vy p * dt in p\<lparr>sp_y := (if h < y then - 5 else y)\<rparr>)"

definition flake_ops :: "real \<Rightarrow> real \<Rightarrow> flake \<Rightarrow> canvas_op list" where
  "flake_ops age f p =
     [GlobalAlpha (f * 0.85), BeginPath,
      Arc (sp_x p + sin (age / 700 + sp_phase p) * sp_sway p * 10) (sp_y p) (sp_r p) 0 (pi * 2), Fill]"

definition update_snow :: "real \<Rightarrow> real \<Rightarrow> snow \<Rightarrow> canvas_op list \<times> snow \<times> bool" where
  "update_snow dt h c =
     (let age = sn_age c + dt; ps = map (move_flake dt h) (sn_parts c)
      in ([Save, FillStyle ''#ffffff''] @ concat (map (flake_ops age (fade snow_life 1200 age)) ps) @ [Restore],
          c\<lparr>sn_age := age, sn_parts := ps\<rparr>, age < snow_life))"

section \<open>Rain\<close>

text \<open>Drops, of the rain effect and of the storm.\<close>

record drop =
  dp_x :: real  dp_y :: real  dp_len :: real  dp_vy :: real  dp_slant :: real

record rain =
  rn_age :: real
  rn_parts :: "drop list"

definition rain_life :: real where "rain_life = 4200"

definition new_drop :: "real \<Rightarrow> real \<Rightarrow> drop gen" where
  "new_drop w h = do {
     x \<leftarrow> rand 0 (w * 1.2); y \<leftarrow> rand (- h) 0; len \<leftarrow> rand 10 26; vy \<leftarrow> rand 0.7 1.4; slant \<leftarrow> rand 1.2 2.2;
     State_Monad.return \<lparr>dp_x = x - w * 0.1, dp_y = y, dp_len = len, dp_vy = vy, dp_slant = slant\<rparr> }"

definition new_rain :: "real \<Rightarrow> real \<Rightarrow> rain gen" where
  "new_rain w h = do {
     ps \<leftarrow> times (count_of 320 w 4) (new_drop w h);
     State_Monad.return \<lparr>rn_age = 0, rn_parts = ps\<rparr> }"

definition move_drop :: "real \<Rightarrow> real \<Rightarrow> real \<Rightarrow> drop \<Rightarrow> drop gen" where
  "move_drop dt w h p =
     (let y = dp_y p + dp_vy p * dt; x = dp_x p + dp_slant p * (dt / 16)
      in if h < y
         then do { r \<leftarrow> rand 0 (w * 1.2); State_Monad.return (p\<lparr>dp_y := - dp_len p, dp_x := r - w * 0.1\<rparr>) }
         else State_Monad.return (p\<lparr>dp_y := y, dp_x := x\<rparr>))"

text \<open>A drop is a line whose upper end lies \<open>k\<close> times its slant to the left.\<close>

definition drop_ops :: "real \<Rightarrow> drop \<Rightarrow> canvas_op list" where
  "drop_ops k p = [MoveTo (dp_x p) (dp_y p), LineTo (dp_x p - dp_slant p * k) (dp_y p - dp_len p)]"

definition update_rain :: "real \<Rightarrow> real \<Rightarrow> real \<Rightarrow> rain \<Rightarrow> (canvas_op list \<times> rain \<times> bool) gen" where
  "update_rain dt w h c =
     (let age = rn_age c + dt
      in do {
           ps \<leftarrow> each (move_drop dt w h) (rn_parts c);
           State_Monad.return
             ([Save, StrokeStyle ''rgba(150,180,220,0.55)'', LineWidth 1.3,
               GlobalAlpha (fade rain_life 900 age), BeginPath]
              @ concat (map (drop_ops 4) ps) @ [Stroke, Restore],
              c\<lparr>rn_age := age, rn_parts := ps\<rparr>, age < rain_life) })"

section \<open>Effects\<close>

datatype effect =
    Lightning lightning | Confetti confetti | Hearts hearts | Snow snow | Rain rain

definition makeEffect :: "string \<Rightarrow> real \<Rightarrow> real \<Rightarrow> bool \<Rightarrow> effect option gen" where
  "makeEffect kind w h reduced =
     (if kind = ''lightning'' then do { e \<leftarrow> new_lightning w h reduced; State_Monad.return (Some (Lightning e)) }
      else if kind = ''confetti'' then do { e \<leftarrow> new_confetti w h; State_Monad.return (Some (Confetti e)) }
      else if kind = ''hearts'' then do { e \<leftarrow> new_hearts w h; State_Monad.return (Some (Hearts e)) }
      else if kind = ''snow'' then do { e \<leftarrow> new_snow w h; State_Monad.return (Some (Snow e)) }
      else if kind = ''rain'' then do { e \<leftarrow> new_rain w h; State_Monad.return (Some (Rain e)) }
      else State_Monad.return None)"

definition update_effect :: "real \<Rightarrow> real \<Rightarrow> real \<Rightarrow> effect \<Rightarrow> (canvas_op list \<times> effect \<times> bool) gen" where
  "update_effect dt w h e = (case e of
     Lightning l \<Rightarrow> do { r \<leftarrow> update_lightning dt w h l;
       State_Monad.return (case r of (ops, l', alive) \<Rightarrow> (ops, Lightning l', alive)) }
   | Confetti c \<Rightarrow> State_Monad.return (case update_confetti dt c of (ops, c', alive) \<Rightarrow> (ops, Confetti c', alive))
   | Hearts c \<Rightarrow> State_Monad.return (case update_hearts dt c of (ops, c', alive) \<Rightarrow> (ops, Hearts c', alive))
   | Snow c \<Rightarrow> State_Monad.return (case update_snow dt h c of (ops, c', alive) \<Rightarrow> (ops, Snow c', alive))
   | Rain c \<Rightarrow> do { r \<leftarrow> update_rain dt w h c;
       State_Monad.return (case r of (ops, c', alive) \<Rightarrow> (ops, Rain c', alive)) })"

fun effect_age :: "effect \<Rightarrow> real" where
  "effect_age (Lightning l) = lt_age l"
| "effect_age (Confetti c) = cn_age c"
| "effect_age (Hearts c) = hs_age c"
| "effect_age (Snow c) = sn_age c"
| "effect_age (Rain c) = rn_age c"

fun effect_life :: "effect \<Rightarrow> real" where
  "effect_life (Lightning l) = lt_life l"
| "effect_life (Confetti c) = confetti_life"
| "effect_life (Hearts c) = hearts_life"
| "effect_life (Snow c) = snow_life"
| "effect_life (Rain c) = rain_life"

end
