(* ===== verification/Effects_Facts.thy ===== *)
theory Effects_Facts imports Effects_Engine
begin

text \<open>
  The rest of \<open>effects.js\<close> (the storm layer and the thunder) and what holds of every frame: facts on
  the constructors and the updates of theory \<open>Effects_Engine\<close>, as postconditions of the generator
  monad (\<open>returns\<close>).
\<close>

section \<open>The storm\<close>

record storm =
  so_reduced :: bool
  so_w :: real
  so_h :: real
  so_drops :: "drop list"
  so_flash :: real
  so_nextFlash :: real

definition reducedCount :: "bool \<Rightarrow> nat \<Rightarrow> nat" where
  "reducedCount reduced n = (if reduced then n div 3 else n)"

definition new_storm_drop :: "real \<Rightarrow> real \<Rightarrow> drop gen" where
  "new_storm_drop w h = do {
     x \<leftarrow> rand 0 (w * 1.2); y \<leftarrow> rand 0 h; len \<leftarrow> rand 8 18; vy \<leftarrow> rand 0.35 0.7; slant \<leftarrow> rand 0.8 1.6;
     State_Monad.return \<lparr>dp_x = x - w * 0.1, dp_y = y, dp_len = len, dp_vy = vy, dp_slant = slant\<rparr> }"

definition storm_drops :: "bool \<Rightarrow> real \<Rightarrow> real \<Rightarrow> drop list gen" where
  "storm_drops reduced w h = times (reducedCount reduced (count_of 120 w 12)) (new_storm_drop w h)"

definition new_storm :: "real \<Rightarrow> real \<Rightarrow> bool \<Rightarrow> storm gen" where
  "new_storm w h reduced = do {
     ds \<leftarrow> storm_drops reduced w h;
     n \<leftarrow> rand 2500 6000;
     State_Monad.return \<lparr>so_reduced = reduced, so_w = w, so_h = h, so_drops = ds, so_flash = 0,
       so_nextFlash = n\<rparr> }"

definition resize_storm :: "real \<Rightarrow> real \<Rightarrow> storm \<Rightarrow> storm gen" where
  "resize_storm w h s =
     (if w \<noteq> so_w s \<or> h \<noteq> so_h s
      then do {
        ds \<leftarrow> storm_drops (so_reduced s) w h;
        State_Monad.return (s\<lparr>so_w := w, so_h := h, so_drops := ds\<rparr>) }
      else State_Monad.return s)"

text \<open>The drops are drawn and move only when motion is not reduced.\<close>

definition storm_rain :: "real \<Rightarrow> real \<Rightarrow> real \<Rightarrow> storm \<Rightarrow> (canvas_op list \<times> storm) gen" where
  "storm_rain dt w h s =
     (if so_reduced s then State_Monad.return ([], s)
      else do {
        ds \<leftarrow> each (move_drop dt w h) (so_drops s);
        State_Monad.return
          ([StrokeStyle ''rgba(140,165,200,0.10)'', LineWidth 1, BeginPath]
           @ concat (map (drop_ops 3) ds) @ [Stroke],
           s\<lparr>so_drops := ds\<rparr>) })"

definition storm_flash :: "real \<Rightarrow> storm \<Rightarrow> storm gen" where
  "storm_flash dt s =
     (let n = so_nextFlash s - dt
      in if n \<le> 0
         then do {
           m \<leftarrow> rand 2500 7000;
           State_Monad.return (s\<lparr>so_flash := (if so_reduced s then 0.04 else 0.09), so_nextFlash := m\<rparr>) }
         else State_Monad.return (s\<lparr>so_nextFlash := n\<rparr>))"

definition update_storm :: "real \<Rightarrow> real \<Rightarrow> real \<Rightarrow> storm \<Rightarrow> (canvas_op list \<times> storm) gen" where
  "update_storm dt w h s0 = do {
     s1 \<leftarrow> resize_storm w h s0;
     r \<leftarrow> storm_rain dt w h s1;
     s2 \<leftarrow> storm_flash dt (snd r);
     State_Monad.return
       ([Save, FillStyle ''rgba(20,24,40,0.05)'', FillRect 0 0 w h] @ fst r
        @ (if 0 < so_flash s2 then [GlobalAlpha (so_flash s2), FillStyle ''#cdd8ff'', FillRect 0 0 w h] else [])
        @ [Restore],
        if 0 < so_flash s2 then s2\<lparr>so_flash := max 0 (so_flash s2 - dt / 260)\<rparr> else s2) }"

section \<open>Thunder\<close>

text \<open>
  The audio graph: nodes, connections, the automation of their parameters, and the two sources. The
  noise is computed sample by sample.
\<close>

datatype node = Destination | Master | NoiseSource | LowPass | NoiseGain | Oscillator | OscGain

datatype audio_op =
    Connect node node
  | SetGain node real
  | SetValueAt node string real real
  | RampTo node string real real
  | SetBuffer node "real list"
  | Start node real
  | Stop node real

fun noise :: "nat \<Rightarrow> real \<Rightarrow> real list gen" where
  "noise 0 acc = State_Monad.return []"
| "noise (Suc n) acc = do {
     r \<leftarrow> random;
     let next = (acc + 0.02 * (r * 2 - 1)) / 1.02;
     rest \<leftarrow> noise n next;
     State_Monad.return (next * 3.5 # rest) }"

text \<open>
  \<open>audio\<close> is the context's current time and sample rate; \<open>None\<close> is a missing context. An exception of
  a call is swallowed, which leaves a prefix of the operations.
\<close>

definition playThunder :: "(real \<times> real) option \<Rightarrow> bool \<Rightarrow> audio_op list gen" where
  "playThunder audio reduced = (case audio of
     None \<Rightarrow> State_Monad.return []
   | Some (now, sampleRate) \<Rightarrow>
       (let duration = (if reduced then 1.1 else 1.9)
        in do {
          xs \<leftarrow> noise (nat \<lfloor>sampleRate * duration\<rfloor>) 0;
          State_Monad.return
            [SetGain Master (if reduced then 0.25 else 0.6), Connect Master Destination,
             SetBuffer NoiseSource xs,
             SetValueAt LowPass ''frequency'' 600 now, RampTo LowPass ''frequency'' 90 (now + duration),
             SetValueAt NoiseGain ''gain'' 0.0001 now, RampTo NoiseGain ''gain'' 1 (now + 0.04),
             RampTo NoiseGain ''gain'' 0.3 (now + 0.3), RampTo NoiseGain ''gain'' 0.0001 (now + duration),
             Connect NoiseSource LowPass, Connect LowPass NoiseGain, Connect NoiseGain Master,
             SetValueAt Oscillator ''frequency'' 70 now, RampTo Oscillator ''frequency'' 28 (now + duration),
             SetValueAt OscGain ''gain'' 0.35 now, RampTo OscGain ''gain'' 0.0001 (now + duration),
             Connect Oscillator OscGain, Connect OscGain Master,
             Start NoiseSource now, Stop NoiseSource (now + duration),
             Start Oscillator now, Stop Oscillator (now + duration)] }))"

section \<open>Postconditions\<close>

named_theorems gen_intros "postconditions of generators"

declare returns_return [gen_intros]

lemma returns_rand [gen_intros]: "returns (rand a b) (\<lambda>_. True)"
  unfolding rand_def by (rule returns_bind [OF returns_random]) (simp add: returns_return)

lemma returns_rnd [gen_intros]: "returns random (\<lambda>_. True)"
  by (rule returns_weaken [OF returns_random]) simp

lemma returns_randInt [gen_intros]: "returns (randInt n) (\<lambda>_. True)"
  unfolding randInt_def by (rule returns_bind [OF returns_random]) (simp add: returns_return)

lemma returns_pick [gen_intros]: "returns (pick xs) (\<lambda>_. True)"
  unfolding pick_def by (rule returns_bind [OF returns_randInt]) (simp add: returns_return)

lemma returns_times: "returns m (\<lambda>_. True) \<Longrightarrow> returns (times n m) (\<lambda>xs. length xs = n)"
  by (rule returns_weaken [OF times_all]) auto

lemma returns_each: "(\<And>x. returns (f x) (\<lambda>_. True)) \<Longrightarrow> returns (each f xs) (\<lambda>ys. length ys = length xs)"
  by (rule returns_weaken [OF each_all [where Q = "\<lambda>_. True"]]) auto

text \<open>One step of a monadic proof: the first generator's postcondition, then the rest.\<close>

lemma returns_step: "returns m (\<lambda>_. True) \<Longrightarrow> (\<And>x. returns (f x) P) \<Longrightarrow> returns (m \<bind> f) P"
  by (rule returns_bind) auto

lemma returns_if: "(c \<Longrightarrow> returns m P) \<Longrightarrow> (\<not> c \<Longrightarrow> returns n P) \<Longrightarrow> returns (if c then m else n) P"
  by simp

text \<open>A bolt has 15 to 22 points and one to three forks, each starting on it.\<close>

lemma bolt_walk_length: "returns (bolt_walk w st tx segs n i x) (\<lambda>ps. length ps = n)"
proof (induction n arbitrary: i x)
  case 0
  show ?case by (simp add: returns_return)
next
  case (Suc n)
  show ?case unfolding bolt_walk.simps Let_def
    by (rule returns_step [OF returns_rand]) (rule returns_bind [OF Suc.IH], rule returns_return, simp)
qed

lemma fork_walk_length: "returns (fork_walk w st n fx fy) (\<lambda>ps. length ps = n)"
proof (induction n arbitrary: fx fy)
  case 0
  show ?case by (simp add: returns_return)
next
  case (Suc n)
  show ?case unfolding fork_walk.simps
    by (rule returns_step [OF returns_rand], rule returns_step [OF returns_rand])
      (rule returns_bind [OF Suc.IH], rule returns_return, simp)
qed

lemma make_fork_start:
  "5 \<le> length points \<Longrightarrow>
   returns (make_fork w st points) (\<lambda>f. hd f \<in> set points \<and> 4 \<le> length f \<and> length f \<le> 7)"
proof -
  assume n: "5 \<le> length points"
  then have i: "returns (randInt (length points - 4)) (\<lambda>j. j < length points - 4)"
    by (intro randInt_bound) simp
  have k: "returns (randInt 4) (\<lambda>k. k < 4)" by (rule randInt_bound) simp
  show ?thesis unfolding make_fork_def Let_def
  proof (rule returns_bind [OF i], rule returns_bind [OF k], rule returns_bind [OF fork_walk_length],
      rule returns_return)
    fix j k :: nat and rest :: "point list"
    assume "j < length points - 4" "k < 4" "length rest = 3 + k"
    then show "hd (points ! (2 + j) # rest) \<in> set points \<and> 4 \<le> length (points ! (2 + j) # rest)
        \<and> length (points ! (2 + j) # rest) \<le> 7"
      using n by simp
  qed
qed

definition bolt_ok :: "bolt \<Rightarrow> bool" where
  "bolt_ok b \<longleftrightarrow> 15 \<le> length (b_points b) \<and> length (b_points b) \<le> 22
     \<and> 1 \<le> length (b_forks b) \<and> length (b_forks b) \<le> 3
     \<and> list_all (\<lambda>f. hd f \<in> set (b_points b)) (b_forks b)"

lemma generateBolt_ok: "returns (generateBolt w h) bolt_ok"
proof -
  have k: "returns (randInt 8) (\<lambda>k. k < 8)" by (rule randInt_bound) simp
  have n: "returns (randInt 3) (\<lambda>k. k < 3)" by (rule randInt_bound) simp
  show ?thesis unfolding generateBolt_def Let_def
  proof (rule returns_step [OF returns_rand], rule returns_step [OF returns_rand], rule returns_bind [OF k],
      rule returns_bind [OF bolt_walk_length], rule returns_bind [OF n])
    fix x d and k n :: nat and rest :: "point list"
    assume k: "k < 8" and l: "length rest = 14 + k" and n: "n < 3"
    have f: "returns (make_fork w (h / real (14 + k)) ((x, 0) # rest)) (\<lambda>f. hd f \<in> set ((x, 0) # rest))"
      by (rule returns_weaken [OF make_fork_start]) (use l in simp_all)
    show "returns (times (1 + n) (make_fork w (h / real (14 + k)) ((x, 0) # rest)) \<bind>
        (\<lambda>forks. State_Monad.return \<lparr>b_points = (x, 0) # rest, b_forks = forks\<rparr>)) bolt_ok"
      by (rule returns_bind [OF times_all [OF f]], rule returns_return)
        (use k l n in \<open>simp add: bolt_ok_def\<close>)
  qed
qed

lemmas returns_bolt = returns_weaken [OF generateBolt_ok TrueI]

section \<open>Constructors and updates\<close>

text \<open>A new effect is at age 0 and lives at most six seconds; only unknown types make none.\<close>

lemma new_lightning_ok:
  "returns (new_lightning w h red)
     (\<lambda>l. lt_age l = 0 \<and> lt_life l = (if red then 520 else 720) \<and> lt_reduced l = red)"
  unfolding new_lightning_def
proof (rule returns_step [OF returns_bolt], rule returns_step [OF returns_rnd], rule returns_step)
  show "returns (if 0.5 < r then times 1 (generateBolt w h) else State_Monad.return []) (\<lambda>_. True)" for r
    by (intro returns_if returns_return returns_weaken [OF returns_times [OF returns_bolt]] TrueI)
qed (simp add: returns_return)

lemma returns_confetti_part: "returns (new_confetti_part w h) (\<lambda>_. True)"
  unfolding new_confetti_part_def by (intro returns_step gen_intros) simp_all

lemma returns_heart: "returns (new_heart w h) (\<lambda>_. True)"
  unfolding new_heart_def by (intro returns_step gen_intros) simp_all

lemma returns_flake: "returns (new_flake w h) (\<lambda>_. True)"
  unfolding new_flake_def by (intro returns_step gen_intros) simp_all

lemma returns_drop: "returns (new_drop w h) (\<lambda>_. True)"
  unfolding new_drop_def by (intro returns_step gen_intros) simp_all

lemma new_confetti_ok: "returns (new_confetti w h) (\<lambda>c. cn_age c = 0 \<and> length (cn_parts c) = count_of 220 w 6)"
  unfolding new_confetti_def
  by (rule returns_bind [OF returns_times [OF returns_confetti_part]], rule returns_return) simp

lemma new_hearts_ok: "returns (new_hearts w h) (\<lambda>c. hs_age c = 0 \<and> length (hs_parts c) = count_of 60 w 20)"
  unfolding new_hearts_def
  by (rule returns_bind [OF returns_times [OF returns_heart]], rule returns_return) simp

lemma new_snow_ok: "returns (new_snow w h) (\<lambda>c. sn_age c = 0 \<and> length (sn_parts c) = count_of 260 w 5)"
  unfolding new_snow_def
  by (rule returns_bind [OF returns_times [OF returns_flake]], rule returns_return) simp

lemma new_rain_ok: "returns (new_rain w h) (\<lambda>c. rn_age c = 0 \<and> length (rn_parts c) = count_of 320 w 4)"
  unfolding new_rain_def
  by (rule returns_bind [OF returns_times [OF returns_drop]], rule returns_return) simp

fun effect_parts :: "effect \<Rightarrow> nat" where
  "effect_parts (Lightning l) = 0"
| "effect_parts (Confetti c) = length (cn_parts c)"
| "effect_parts (Hearts c) = length (hs_parts c)"
| "effect_parts (Snow c) = length (sn_parts c)"
| "effect_parts (Rain c) = length (rn_parts c)"

definition fresh_effect :: "effect \<Rightarrow> bool" where
  "fresh_effect e \<longleftrightarrow> effect_age e = 0 \<and> 0 < effect_life e \<and> effect_life e \<le> 6000 \<and> effect_parts e \<le> 320"

lemmas effect_lives = confetti_life_def hearts_life_def snow_life_def rain_life_def

lemma count_of_le: "count_of cap w per \<le> cap"
  by (simp add: count_of_def nat_le_iff)

lemma count_of_caps: "count_of 220 w per \<le> 320" "count_of 60 w per \<le> 320" "count_of 260 w per \<le> 320"
  using count_of_le [of 220 w per] count_of_le [of 60 w per] count_of_le [of 260 w per] by simp_all

lemma makeEffect_ok:
  "returns (makeEffect kind w h red)
     (\<lambda>r. (r = None \<longleftrightarrow> kind \<notin> set EFFECT_TYPES) \<and> (case r of None \<Rightarrow> True | Some e \<Rightarrow> fresh_effect e))"
  unfolding makeEffect_def
  by (intro returns_if returns_return returns_bind [OF new_lightning_ok] returns_bind [OF new_confetti_ok]
      returns_bind [OF new_hearts_ok] returns_bind [OF new_snow_ok] returns_bind [OF new_rain_ok])
    (auto simp: EFFECT_TYPES_def fresh_effect_def effect_lives count_of_le count_of_caps)

text \<open>The contract of a frame.\<close>

definition frame_ok :: "real \<Rightarrow> effect \<Rightarrow> canvas_op list \<times> effect \<times> bool \<Rightarrow> bool" where
  "frame_ok dt e r = (case r of (ops, e', alive) \<Rightarrow>
     effect_age e' = effect_age e + dt \<and> effect_life e' = effect_life e
     \<and> effect_parts e' = effect_parts e \<and> (alive \<longleftrightarrow> effect_age e' < effect_life e')
     \<and> balanced_ops ops \<and> (0 \<le> effect_age e' \<longrightarrow> list_all alpha_ok ops))"

lemma fade_bounds: "0 < tail \<Longrightarrow> 0 \<le> fade life tail age \<and> fade life tail age \<le> 1"
  by (auto simp: fade_def divide_le_eq)

lemma fade_times: "0 < tail \<Longrightarrow> 0 \<le> k \<Longrightarrow> k \<le> 1 \<Longrightarrow> 0 \<le> fade life tail age * k \<and> fade life tail age * k \<le> 1"
  using fade_bounds [of tail life age] by (simp add: mult_le_one)

lemma flat_strokePath: "list_all flat_op (strokePath ps w c g)" "list_all alpha_ok (strokePath ps w c g)"
  by (simp_all add: strokePath_def list_all_iff)

lemma list_all_concat_map: "(\<And>x. list_all P (f x)) \<Longrightarrow> list_all P (concat (map f xs))"
  by (induction xs) simp_all

lemma flat_bolt_ops: "list_all flat_op (bolt_ops b)" "list_all alpha_ok (bolt_ops b)"
  by (simp_all add: bolt_ops_def flat_strokePath list_all_concat_map)

lemma flash_ops_ok:
  "balanced_ops (flash_ops w h l)" "0 \<le> lt_age l \<Longrightarrow> list_all alpha_ok (flash_ops w h l)"
  by (auto simp: flash_ops_def Let_def balanced_ops_def field_simps)

lemma flicker_ok:
  "returns (flicker dt w h l)
     (\<lambda>l'. lt_age l' = lt_age l \<and> lt_life l' = lt_life l \<and> lt_reduced l' = lt_reduced l)"
  unfolding flicker_def Let_def
  by (intro returns_if returns_return returns_step [OF returns_rand] returns_step [OF returns_rnd]
      returns_step [where m = "if c then x else y" for c x y] returns_weaken [OF returns_each [OF returns_bolt]])
    (auto intro: returns_weaken [OF returns_each [OF returns_bolt]])

end
