(* ===== verification/Effects_Frames.thy ===== *)
theory Effects_Frames imports Effects_Facts
begin

text \<open>
  Every frame of every effect satisfies \<open>frame_ok\<close>; the storm layer draws in the same discipline and
  its flash stays dim; the thunder's samples are bounded and its sources are connected to the
  output and stopped.
\<close>

section \<open>Effects\<close>

lemma lightning_frame:
  "returns (update_lightning dt w h l)
     (\<lambda>(ops, l', alive). frame_ok dt (Lightning l) (ops, Lightning l', alive))"
proof -
  define l1 where "l1 = l\<lparr>lt_age := lt_age l + dt\<rparr>"
  have u: "update_lightning dt w h l =
      (if lt_age l1 < (if lt_reduced l1 then 200 else 300)
       then do {
         l2 \<leftarrow> flicker dt w h l1;
         State_Monad.return
           (flash_ops w h l1 @ (if lt_visible l2 then Save # concat (map bolt_ops (lt_bolts l2)) @ [Restore] else []),
            l2, lt_age l2 < lt_life l2) }
       else State_Monad.return (flash_ops w h l1, l1, lt_age l1 < lt_life l1))"
    by (simp add: update_lightning_def l1_def Let_def)
  have bolts: "balanced_ops (Save # concat (map bolt_ops bs) @ [Restore])"
    "list_all alpha_ok (concat (map bolt_ops bs))" for bs
    by (intro balanced_saved balanced_flat list_all_concat_map flat_bolt_ops)+
  show ?thesis unfolding u
    by (intro returns_if returns_bind [OF flicker_ok] returns_return)
      (auto simp: frame_ok_def l1_def bolts flash_ops_ok intro!: balanced_append)
qed

lemma balanced_confetti_ops: "balanced_ops (confetti_ops f p)"
  by (simp add: confetti_ops_def balanced_ops_def)

lemma alpha_confetti_ops: "0 \<le> f \<Longrightarrow> f \<le> 1 \<Longrightarrow> list_all alpha_ok (confetti_ops f p)"
  by (simp add: confetti_ops_def)

lemma confetti_frame:
  "update_confetti dt c = (ops, c', alive) \<Longrightarrow> frame_ok dt (Confetti c) (ops, Confetti c', alive)"
proof -
  assume u: "update_confetti dt c = (ops, c', alive)"
  define age where "age = cn_age c + dt"
  define f where "f = fade confetti_life 700 age"
  have f: "0 \<le> f" "f \<le> 1"
    using fade_bounds [of 700 confetti_life age] by (simp_all add: f_def)
  have b: "balanced_ops (concat (map (confetti_ops f) ps))" for ps
    by (rule balanced_concat) (simp add: list_all_iff balanced_confetti_ops)
  have a: "list_all alpha_ok (concat (map (confetti_ops f) ps))" for ps
    by (intro list_all_concat_map alpha_confetti_ops f)
  from u show ?thesis
    by (auto simp: update_confetti_def frame_ok_def Let_def a b age_def [symmetric] f_def [symmetric] simp del: map_map)
qed

lemma flat_heart_ops: "list_all flat_op (heart_ops age f p)"
  by (simp add: heart_ops_def heartPath_def)

lemma alpha_heart_ops: "0 \<le> f * 0.9 \<Longrightarrow> f * 0.9 \<le> 1 \<Longrightarrow> list_all alpha_ok (heart_ops age f p)"
  by (simp add: heart_ops_def heartPath_def)

lemma hearts_frame:
  "update_hearts dt c = (ops, c', alive) \<Longrightarrow> frame_ok dt (Hearts c) (ops, Hearts c', alive)"
proof -
  assume u: "update_hearts dt c = (ops, c', alive)"
  define age where "age = hs_age c + dt"
  define f where "f = fade hearts_life 800 age"
  have f: "0 \<le> f * 0.9" "f * 0.9 \<le> 1"
    using fade_times [of 800 "0.9" hearts_life age] by (simp_all add: f_def)
  have b: "balanced_ops (Save # concat (map (heart_ops age f) ps) @ [Restore])" for ps
    by (intro balanced_saved balanced_flat list_all_concat_map flat_heart_ops)
  have a: "list_all alpha_ok (concat (map (heart_ops age f) ps))" for ps
    by (intro list_all_concat_map alpha_heart_ops f)
  from u show ?thesis
    by (auto simp: update_hearts_def frame_ok_def Let_def a b age_def [symmetric] f_def [symmetric] simp del: map_map)
qed

lemma flat_flake_ops: "list_all flat_op (flake_ops age f p)"
  by (simp add: flake_ops_def)

lemma alpha_flake_ops: "0 \<le> f * 0.85 \<Longrightarrow> f * 0.85 \<le> 1 \<Longrightarrow> list_all alpha_ok (flake_ops age f p)"
  by (simp add: flake_ops_def)

lemma snow_frame:
  "update_snow dt h c = (ops, c', alive) \<Longrightarrow> frame_ok dt (Snow c) (ops, Snow c', alive)"
proof -
  assume u: "update_snow dt h c = (ops, c', alive)"
  define age where "age = sn_age c + dt"
  define f where "f = fade snow_life 1200 age"
  have f: "0 \<le> f * 0.85" "f * 0.85 \<le> 1"
    using fade_times [of 1200 "0.85" snow_life age] by (simp_all add: f_def)
  have "balanced_ops (Save # (FillStyle ''#ffffff'' # concat (map (flake_ops age f) ps)) @ [Restore])" for ps
    by (intro balanced_saved balanced_flat) (simp add: list_all_concat_map flat_flake_ops)
  then have b: "balanced_ops ([Save, FillStyle ''#ffffff''] @ concat (map (flake_ops age f) ps) @ [Restore])" for ps
    by simp
  have a: "list_all alpha_ok (concat (map (flake_ops age f) ps))" for ps
    by (intro list_all_concat_map alpha_flake_ops f)
  from u show ?thesis using b
    by (auto simp: update_snow_def frame_ok_def Let_def a age_def [symmetric] f_def [symmetric] simp del: map_map)
qed

lemma flat_drop_ops: "list_all flat_op (drop_ops k p)" "list_all alpha_ok (drop_ops k p)"
  by (simp_all add: drop_ops_def)

lemma returns_move_drop: "returns (move_drop dt w h p) (\<lambda>_. True)"
  unfolding move_drop_def Let_def by (intro returns_if returns_step [OF returns_rand] returns_return TrueI)

lemma rain_frame:
  "returns (update_rain dt w h c) (\<lambda>(ops, c', alive). frame_ok dt (Rain c) (ops, Rain c', alive))"
proof -
  have fl: "balanced_ops (Save # xs @ [Restore])" if "list_all flat_op xs" for xs
    using that by (intro balanced_saved balanced_flat)
  have b: "balanced_ops ([Save, StrokeStyle s, LineWidth x, GlobalAlpha f, BeginPath]
      @ concat (map (drop_ops 4) ps) @ [Stroke, Restore])" for s x f ps
    using fl [of "[StrokeStyle s, LineWidth x, GlobalAlpha f, BeginPath] @ concat (map (drop_ops 4) ps) @ [Stroke]"]
    by (simp add: list_all_concat_map flat_drop_ops)
  show ?thesis unfolding update_rain_def Let_def
    using fade_bounds [of 900 rain_life "rn_age c + dt"] b
    by (intro returns_bind [OF returns_each [OF returns_move_drop]] returns_return)
      (auto simp: frame_ok_def list_all_concat_map flat_drop_ops)
qed

lemma effect_frame: "returns (update_effect dt w h e) (frame_ok dt e)"
proof (cases e)
  case (Lightning l)
  then show ?thesis unfolding update_effect_def
    by (simp, intro returns_bind [OF lightning_frame] returns_return) auto
next
  case (Confetti c)
  then show ?thesis unfolding update_effect_def
    by (cases "update_confetti dt c") (simp add: returns_return confetti_frame)
next
  case (Hearts c)
  then show ?thesis unfolding update_effect_def
    by (cases "update_hearts dt c") (simp add: returns_return hearts_frame)
next
  case (Snow c)
  then show ?thesis unfolding update_effect_def
    by (cases "update_snow dt h c") (simp add: returns_return snow_frame)
next
  case (Rain c)
  then show ?thesis unfolding update_effect_def
    by (simp, intro returns_bind [OF rain_frame] returns_return) auto
qed

text \<open>Flakes and drops stay above the bottom edge once moved.\<close>

lemma move_flake_above: "- 5 \<le> h \<Longrightarrow> sp_y (move_flake dt h p) \<le> h"
  by (simp add: move_flake_def Let_def)

lemma move_drop_above: "0 \<le> h \<Longrightarrow> 0 \<le> dp_len p \<Longrightarrow> returns (move_drop dt w h p) (\<lambda>q. dp_y q \<le> h \<and> dp_len q = dp_len p)"
  unfolding move_drop_def Let_def by (intro returns_if returns_step [OF returns_rand] returns_return) auto

section \<open>The storm\<close>

definition storm_ok :: "storm \<Rightarrow> bool" where
  "storm_ok s \<longleftrightarrow> 0 \<le> so_flash s \<and> so_flash s \<le> 0.09
     \<and> length (so_drops s) = reducedCount (so_reduced s) (count_of 120 (so_w s) 12)"

lemma returns_storm_drops:
  "returns (storm_drops red w h) (\<lambda>ds. length ds = reducedCount red (count_of 120 w 12))"
proof -
  have "returns (new_storm_drop w h) (\<lambda>_. True)"
    unfolding new_storm_drop_def by (intro returns_step gen_intros) simp_all
  then show ?thesis unfolding storm_drops_def by (rule returns_times)
qed

lemma new_storm_ok: "returns (new_storm w h red) (\<lambda>s. storm_ok s \<and> so_reduced s = red)"
  unfolding new_storm_def
  by (rule returns_bind [OF returns_storm_drops], rule returns_step [OF returns_rand], rule returns_return)
    (simp add: storm_ok_def)

lemma resize_storm_ok:
  "storm_ok s \<Longrightarrow>
   returns (resize_storm w h s) (\<lambda>s'. storm_ok s' \<and> so_w s' = w \<and> so_h s' = h \<and> so_reduced s' = so_reduced s)"
  unfolding resize_storm_def
  by (intro returns_if returns_return returns_bind [OF returns_storm_drops]) (auto simp: storm_ok_def)

lemma storm_rain_ok:
  "storm_ok s \<Longrightarrow>
   returns (storm_rain dt w h s) (\<lambda>r. storm_ok (snd r) \<and> so_reduced (snd r) = so_reduced s
     \<and> list_all flat_op (fst r) \<and> list_all alpha_ok (fst r))"
  unfolding storm_rain_def
  by (intro returns_if returns_return returns_bind [OF returns_each [OF returns_move_drop]])
    (auto simp: storm_ok_def list_all_concat_map flat_drop_ops)

lemma storm_flash_ok:
  "storm_ok s \<Longrightarrow> returns (storm_flash dt s) (\<lambda>s'. storm_ok s' \<and> so_reduced s' = so_reduced s)"
  unfolding storm_flash_def Let_def
  by (intro returns_if returns_return returns_step [OF returns_rand]) (auto simp: storm_ok_def)

lemma update_storm_ok:
  assumes "storm_ok s" "0 \<le> dt"
  shows "returns (update_storm dt w h s)
    (\<lambda>r. balanced_ops (fst r) \<and> list_all alpha_ok (fst r) \<and> storm_ok (snd r) \<and> so_reduced (snd r) = so_reduced s)"
  unfolding update_storm_def
proof (rule returns_bind [OF resize_storm_ok [OF assms(1)]], elim conjE,
    rule returns_bind [OF storm_rain_ok], assumption, elim conjE,
    rule returns_bind [OF storm_flash_ok], assumption, elim conjE, rule returns_return)
  fix s1 r s2
  assume a: "list_all flat_op (fst r)" "list_all alpha_ok (fst r)" "storm_ok s2"
    and red: "so_reduced s1 = so_reduced s" "so_reduced (snd r) = so_reduced s1" "so_reduced s2 = so_reduced (snd r)"
  define ops where "ops = [Save, FillStyle ''rgba(20,24,40,0.05)'', FillRect 0 0 w h] @ fst r
    @ (if 0 < so_flash s2 then [GlobalAlpha (so_flash s2), FillStyle ''#cdd8ff'', FillRect 0 0 w h] else [])
    @ [Restore]"
  have "balanced_ops (Save # ([FillStyle ''rgba(20,24,40,0.05)'', FillRect 0 0 w h] @ fst r
    @ (if 0 < so_flash s2 then [GlobalAlpha (so_flash s2), FillStyle ''#cdd8ff'', FillRect 0 0 w h] else [])) @ [Restore])"
    by (intro balanced_saved balanced_flat) (use a in simp)
  then have b: "balanced_ops ops" by (simp add: ops_def)
  have al: "list_all alpha_ok ops" using a by (simp add: ops_def storm_ok_def)
  show "balanced_ops (fst (ops, if 0 < so_flash s2 then s2\<lparr>so_flash := max 0 (so_flash s2 - dt / 260)\<rparr> else s2))
      \<and> list_all alpha_ok (fst (ops, if 0 < so_flash s2 then s2\<lparr>so_flash := max 0 (so_flash s2 - dt / 260)\<rparr> else s2))
      \<and> storm_ok (snd (ops, if 0 < so_flash s2 then s2\<lparr>so_flash := max 0 (so_flash s2 - dt / 260)\<rparr> else s2))
      \<and> so_reduced (snd (ops, if 0 < so_flash s2 then s2\<lparr>so_flash := max 0 (so_flash s2 - dt / 260)\<rparr> else s2)) = so_reduced s"
    using a b al red assms(2) by (auto simp: storm_ok_def max_def)
qed

text \<open>The discipline of the drawing does not depend on the state of the storm.\<close>

lemma update_storm_balanced: "returns (update_storm dt w h s) (\<lambda>r. balanced_ops (fst r))"
proof -
  have rs: "returns (resize_storm w h s) (\<lambda>_. True)"
    unfolding resize_storm_def
    by (intro returns_if returns_return returns_bind [OF returns_storm_drops] TrueI)
  have rain: "returns (storm_rain dt w h s1) (\<lambda>r. list_all flat_op (fst r))" for s1
    unfolding storm_rain_def
    by (intro returns_if returns_return returns_bind [OF returns_each [OF returns_move_drop]])
      (simp_all add: list_all_concat_map flat_drop_ops)
  have fl: "returns (storm_flash dt s1) (\<lambda>_. True)" for s1
    unfolding storm_flash_def Let_def
    by (intro returns_if returns_return returns_step [OF returns_rand] TrueI)
  have b: "balanced_ops ([Save, FillStyle ''rgba(20,24,40,0.05)'', FillRect 0 0 w h] @ xs @ ys @ [Restore])"
    if "list_all flat_op xs" "list_all flat_op ys" for xs ys
  proof -
    have "balanced_ops (Save # ([FillStyle ''rgba(20,24,40,0.05)'', FillRect 0 0 w h] @ xs @ ys) @ [Restore])"
      by (intro balanced_saved balanced_flat) (use that in simp)
    then show ?thesis by simp
  qed
  show ?thesis unfolding update_storm_def
    by (rule returns_step [OF rs], rule returns_bind [OF rain], rule returns_step [OF fl], rule returns_return)
      (simp only: fst_conv, rule b, simp_all)
qed

section \<open>Thunder\<close>

text \<open>The low-passed noise never leaves \<open>[-1, 1]\<close>, so a sample never leaves \<open>[-3.5, 3.5]\<close>.\<close>

lemma noise_bounded:
  "\<bar>acc\<bar> \<le> 1 \<Longrightarrow> returns (noise n acc) (\<lambda>xs. length xs = n \<and> list_all (\<lambda>x. \<bar>x\<bar> \<le> 3.5) xs)"
proof (induction n arbitrary: acc)
  case 0
  show ?case by (simp add: returns_return)
next
  case (Suc n)
  show ?case unfolding noise.simps Let_def
  proof (rule returns_bind [OF returns_random])
    fix r :: real
    assume "0 \<le> r \<and> r < 1"
    then have n: "\<bar>(acc + 0.02 * (r * 2 - 1)) / 1.02\<bar> \<le> 1"
      using Suc.prems by (simp add: abs_le_iff field_simps)
    have gen: "returns (noise n y \<bind> (\<lambda>rest. State_Monad.return (y * 3.5 # rest)))
        (\<lambda>xs. length xs = Suc n \<and> list_all (\<lambda>x. \<bar>x\<bar> \<le> 3.5) xs)" if "\<bar>y\<bar> \<le> 1" for y
      by (rule returns_bind [OF Suc.IH [OF that]], rule returns_return) (use that in \<open>simp add: abs_le_iff\<close>)
    show "returns (noise n ((acc + 0.02 * (r * 2 - 1)) / 1.02) \<bind>
        (\<lambda>rest. State_Monad.return ((acc + 0.02 * (r * 2 - 1)) / 1.02 * 3.5 # rest)))
      (\<lambda>xs. length xs = Suc n \<and> list_all (\<lambda>x. \<bar>x\<bar> \<le> 3.5) xs)"
      using n by (rule gen)
  qed
qed

lemma playThunder_returns: "returns (playThunder ac red) (\<lambda>_. True)"
proof (cases ac)
  case None
  then show ?thesis by (simp add: playThunder_def returns_return)
next
  case (Some p)
  then show ?thesis
    by (cases p) (simp only: playThunder_def option.case prod.case Let_def,
      rule returns_bind [OF noise_bounded], simp, rule returns_return, simp)
qed

text \<open>The nodes from which the output is reached, after \<open>k\<close> hops.\<close>

fun reaches :: "nat \<Rightarrow> audio_op list \<Rightarrow> node \<Rightarrow> bool" where
  "reaches 0 ops x = (x = Destination)"
| "reaches (Suc k) ops x \<longleftrightarrow> x = Destination
     \<or> list_ex (\<lambda>op. case op of Connect a b \<Rightarrow> a = x \<and> reaches k ops b | _ \<Rightarrow> False) ops"

lemma thunder_ok:
  "returns (playThunder (Some (now, rate)) red)
     (\<lambda>ops. reaches 4 ops NoiseSource \<and> reaches 4 ops Oscillator
        \<and> Stop NoiseSource (now + (if red then 1.1 else 1.9)) \<in> set ops
        \<and> Stop Oscillator (now + (if red then 1.1 else 1.9)) \<in> set ops)"
  unfolding playThunder_def option.case prod.case Let_def
proof (rule returns_bind [OF noise_bounded])
  show "\<bar>0 :: real\<bar> \<le> 1" by simp
qed (rule returns_return, simp add: numeral_eq_Suc)

end
