(* ===== verification/Effects_Overlay.thy ===== *)
theory Effects_Overlay imports Effects_Frames
begin

text \<open>
  \<open>EffectsOverlay.jsx\<close>: the component that owns the canvas, the animation loop, the screen shake and
  the sound. Its refs are the fields of \<open>overlay\<close>: \<open>ov_raf\<close> says whether a frame is requested
  (\<open>rafRef\<close>), \<open>ov_rng\<close> is what \<open>Math.random\<close> will yield, \<open>ov_drawn\<close> what the last frame drew. The
  lemmas show that a frame is requested exactly while something has to be drawn, that an effect that
  nobody renews is gone after six seconds of frames and the loop with it, that the shake ends, and
  that unmounting releases everything.
\<close>

record overlay =
  ov_effects :: "effect list"
  ov_storm :: "storm option"
  ov_raf :: bool
  ov_lastTs :: real
  ov_w :: real
  ov_h :: real
  ov_dpr :: real
  ov_pixels :: "int \<times> int"
  ov_canvas :: bool
  ov_reduced :: bool
  ov_shake :: bool
  ov_shakeTimer :: bool
  ov_audio :: bool
  ov_rng :: "real stream"
  ov_drawn :: "canvas_op list"
  ov_sounds :: "audio_op list list"

definition resize :: "real option \<Rightarrow> real \<Rightarrow> real \<Rightarrow> overlay \<Rightarrow> overlay" where
  "resize devicePixelRatio w h v =
     (let dpr = min (case devicePixelRatio of None \<Rightarrow> 1 | Some x \<Rightarrow> if x = 0 then 1 else x) 2
      in v\<lparr>ov_w := w, ov_h := h, ov_dpr := dpr, ov_pixels := (\<lfloor>w * dpr\<rfloor>, \<lfloor>h * dpr\<rfloor>)\<rparr>)"

definition mount :: "bool option \<Rightarrow> real option \<Rightarrow> real \<Rightarrow> real \<Rightarrow> real stream \<Rightarrow> overlay" where
  "mount media devicePixelRatio w h rng =
     resize devicePixelRatio w h \<lparr>ov_effects = [], ov_storm = None, ov_raf = False, ov_lastTs = 0, ov_w = 0,
       ov_h = 0, ov_dpr = 1, ov_pixels = (0, 0), ov_canvas = True, ov_reduced = prefersReducedMotion media,
       ov_shake = False, ov_shakeTimer = False, ov_audio = False, ov_rng = rng, ov_drawn = [], ov_sounds = []\<rparr>"

section \<open>The loop\<close>

definition frame_dt :: "real \<Rightarrow> real \<Rightarrow> real" where
  "frame_dt lastTs ts = min 50 (ts - (if lastTs = 0 then ts else lastTs))"

definition frame_storm :: "real \<Rightarrow> overlay \<Rightarrow> canvas_op list \<times> overlay" where
  "frame_storm dt v = (case ov_storm v of
     None \<Rightarrow> ([], v)
   | Some s \<Rightarrow> (case run_state (update_storm dt (ov_w v) (ov_h v) s) (ov_rng v) of
        ((ops, s'), rng) \<Rightarrow> (ops, v\<lparr>ov_storm := Some s', ov_rng := rng\<rparr>)))"

definition frame_effects :: "real \<Rightarrow> overlay \<Rightarrow> canvas_op list \<times> overlay" where
  "frame_effects dt v =
     (if ov_effects v = [] then ([], v)
      else (case run_state (each (update_effect dt (ov_w v) (ov_h v)) (ov_effects v)) (ov_rng v) of
        (rs, rng) \<Rightarrow> (concat (map fst rs),
           v\<lparr>ov_effects := map (\<lambda>r. fst (snd r)) (filter (\<lambda>r. snd (snd r)) rs), ov_rng := rng\<rparr>)))"

definition active :: "overlay \<Rightarrow> bool" where
  "active v \<longleftrightarrow> ov_effects v \<noteq> [] \<or> ov_storm v \<noteq> None"

definition frame :: "real \<Rightarrow> overlay \<Rightarrow> overlay" where
  "frame ts v =
     (if \<not> ov_canvas v then v\<lparr>ov_raf := False\<rparr>
      else (let dt = frame_dt (ov_lastTs v) ts;
                v1 = v\<lparr>ov_lastTs := ts\<rparr>;
                a = frame_storm dt v1;
                b = frame_effects dt (snd a);
                v2 = snd b
            in v2\<lparr>ov_drawn := [SetTransform (ov_dpr v) 0 0 (ov_dpr v) 0 0, ClearRect 0 0 (ov_w v) (ov_h v)]
                    @ fst a @ fst b,
                  ov_raf := active v2\<rparr>))"

definition ensureLoop :: "real \<Rightarrow> overlay \<Rightarrow> overlay" where
  "ensureLoop now v = (if ov_raf v then v else v\<lparr>ov_lastTs := now, ov_raf := True\<rparr>)"

section \<open>Effects of React\<close>

definition storm_changed :: "bool \<Rightarrow> real \<Rightarrow> overlay \<Rightarrow> overlay" where
  "storm_changed on now v =
     (if on
      then (case run_state (new_storm (ov_w v) (ov_h v) (ov_reduced v)) (ov_rng v) of
              (s, rng) \<Rightarrow> ensureLoop now (v\<lparr>ov_storm := Some s, ov_rng := rng\<rparr>))
      else v\<lparr>ov_storm := None\<rparr>)"

text \<open>Thunder: \<open>ac\<close> is the audio context at hand, if the browser has one.\<close>

definition thunder :: "(real \<times> real) option \<Rightarrow> overlay \<Rightarrow> overlay" where
  "thunder ac v = (case ac of
     None \<Rightarrow> v
   | Some x \<Rightarrow> (case run_state (playThunder (Some x) (ov_reduced v)) (ov_rng v) of
        (ops, rng) \<Rightarrow> v\<lparr>ov_audio := True, ov_sounds := ov_sounds v @ [ops], ov_rng := rng\<rparr>))"

definition shake :: "bool \<Rightarrow> overlay \<Rightarrow> overlay" where
  "shake shell v =
     (if \<not> ov_reduced v \<and> shell then v\<lparr>ov_shake := True, ov_shakeTimer := True\<rparr> else v)"

definition play :: "string \<Rightarrow> real \<Rightarrow> (real \<times> real) option \<Rightarrow> bool \<Rightarrow> overlay \<Rightarrow> overlay" where
  "play kind now ac shell v =
     (case run_state (makeEffect kind (ov_w v) (ov_h v) (ov_reduced v)) (ov_rng v) of
        (inst, rng) \<Rightarrow>
          (let v1 = v\<lparr>ov_rng := rng\<rparr>;
               v2 = (case inst of None \<Rightarrow> v1
                     | Some e \<Rightarrow> ensureLoop now (v1\<lparr>ov_effects := ov_effects v1 @ [e]\<rparr>))
           in if kind = ''lightning'' then shake shell (thunder ac v2) else v2))"

definition shake_ends :: "overlay \<Rightarrow> overlay" where
  "shake_ends v = (if ov_shakeTimer v then v\<lparr>ov_shake := False, ov_shakeTimer := False\<rparr> else v)"

definition unmount :: "overlay \<Rightarrow> overlay" where
  "unmount v = v\<lparr>ov_raf := False, ov_effects := [], ov_storm := None, ov_shakeTimer := False,
     ov_shake := False, ov_audio := False, ov_canvas := False\<rparr>"

section \<open>Runs\<close>

datatype overlay_event =
    Frame real | StormMode bool real | Play string real "(real \<times> real) option" bool | ShakeEnds
  | WindowResize "real option" real real | Unmount

text \<open>A requested frame is the only one the browser runs; an unmounted component has no effects.\<close>

fun overlay_step :: "overlay_event \<Rightarrow> overlay \<Rightarrow> overlay" where
  "overlay_step (Frame ts) v = (if ov_raf v then frame ts v else v)"
| "overlay_step (StormMode on now) v = (if ov_canvas v then storm_changed on now v else v)"
| "overlay_step (Play kind now ac shell) v = (if ov_canvas v then play kind now ac shell v else v)"
| "overlay_step ShakeEnds v = shake_ends v"
| "overlay_step (WindowResize d w h) v = (if ov_canvas v then resize d w h v else v)"
| "overlay_step Unmount v = unmount v"

definition overlay_inv :: "overlay \<Rightarrow> bool" where
  "overlay_inv v \<longleftrightarrow> unit_stream (ov_rng v)
     \<and> (active v \<longrightarrow> ov_raf v \<and> ov_canvas v)
     \<and> list_all (\<lambda>e. effect_life e \<le> 6000) (ov_effects v)
     \<and> (ov_shake v \<longrightarrow> ov_shakeTimer v)
     \<and> balanced_ops (ov_drawn v)
     \<and> (\<not> ov_canvas v \<longrightarrow> \<not> ov_raf v \<and> \<not> ov_audio v)"

lemma returnsD: "returns m P \<Longrightarrow> unit_stream s \<Longrightarrow> run_state m s = (x, s') \<Longrightarrow> P x \<and> unit_stream s'"
  unfolding returns_def by force

text \<open>What a frame does to the effects: each one grows older by the elapsed time or is gone.\<close>

definition aged :: "real \<Rightarrow> effect \<Rightarrow> bool" where
  "aged m e \<longleftrightarrow> m \<le> effect_age e \<and> effect_life e \<le> 6000"

lemma each_frame:
  "list_all (aged m) es \<Longrightarrow>
   returns (each (update_effect dt w h) es)
     (\<lambda>rs. length rs = length es \<and>
        list_all (\<lambda>r. aged (m + dt) (fst (snd r)) \<and> balanced_ops (fst r)
          \<and> (snd (snd r) \<longleftrightarrow> effect_age (fst (snd r)) < effect_life (fst (snd r)))) rs)"
proof (rule each_all [where Q = "aged m"])
  fix e
  assume "aged m e"
  then show "returns (update_effect dt w h e)
      (\<lambda>r. aged (m + dt) (fst (snd r)) \<and> balanced_ops (fst r)
        \<and> (snd (snd r) \<longleftrightarrow> effect_age (fst (snd r)) < effect_life (fst (snd r))))"
    by (intro returns_weaken [OF effect_frame]) (auto simp: frame_ok_def aged_def)
qed

lemma frame_effects_ok:
  assumes "unit_stream (ov_rng v)" "list_all (aged m) (ov_effects v)" "frame_effects dt v = (ops, v')"
  shows "unit_stream (ov_rng v') \<and> balanced_ops ops
    \<and> list_all (\<lambda>e. aged (m + dt) e \<and> effect_age e < effect_life e) (ov_effects v')
    \<and> (\<exists>es rng. v' = v\<lparr>ov_effects := es, ov_rng := rng\<rparr>)"
proof (cases "ov_effects v = []")
  case True
  then have "v' = v\<lparr>ov_effects := [], ov_rng := ov_rng v\<rparr>" and e: "v' = v" "ops = []"
    using assms(3) by (simp_all add: frame_effects_def)
  then have "\<exists>es rng. v' = v\<lparr>ov_effects := es, ov_rng := rng\<rparr>" by blast
  then show ?thesis using assms(1) True by (simp add: e)
next
  case False
  obtain rs rng where r: "run_state (each (update_effect dt (ov_w v) (ov_h v)) (ov_effects v)) (ov_rng v) = (rs, rng)"
    by fastforce
  have p: "list_all (\<lambda>r. aged (m + dt) (fst (snd r)) \<and> balanced_ops (fst r)
      \<and> (snd (snd r) \<longleftrightarrow> effect_age (fst (snd r)) < effect_life (fst (snd r)))) rs" "unit_stream rng"
    using returnsD [OF each_frame [OF assms(2)] assms(1) r] by auto
  have e: "ops = concat (map fst rs)"
    "v' = v\<lparr>ov_effects := map (\<lambda>r. fst (snd r)) (filter (\<lambda>r. snd (snd r)) rs), ov_rng := rng\<rparr>"
    using assms(3) False r by (simp_all add: frame_effects_def)
  have "balanced_ops ops" unfolding e by (rule balanced_concat) (use p(1) in \<open>simp add: list_all_iff\<close>)
  moreover have "list_all (\<lambda>e. aged (m + dt) e \<and> effect_age e < effect_life e) (ov_effects v')"
    using p(1) by (auto simp: e list_all_iff)
  ultimately show ?thesis using p(2) e(2) by auto
qed

lemma frame_storm_ok:
  assumes "unit_stream (ov_rng v)" "frame_storm dt v = (ops, v')"
  shows "unit_stream (ov_rng v') \<and> balanced_ops ops \<and> (ov_storm v' = None \<longleftrightarrow> ov_storm v = None)
    \<and> (\<exists>st rng. v' = v\<lparr>ov_storm := st, ov_rng := rng\<rparr>)"
proof (cases "ov_storm v")
  case None
  then have "v' = v\<lparr>ov_storm := None, ov_rng := ov_rng v\<rparr>" and e: "v' = v" "ops = []"
    using assms(2) by (simp_all add: frame_storm_def)
  then have "\<exists>st rng. v' = v\<lparr>ov_storm := st, ov_rng := rng\<rparr>" by blast
  then show ?thesis using assms(1) by (simp add: e)
next
  case (Some s)
  obtain os s' rng where r: "run_state (update_storm dt (ov_w v) (ov_h v) s) (ov_rng v) = ((os, s'), rng)"
    by (metis surj_pair)
  have "balanced_ops os" "unit_stream rng"
    using returnsD [OF update_storm_balanced assms(1) r] by auto
  moreover have "ops = os" "v' = v\<lparr>ov_storm := Some s', ov_rng := rng\<rparr>"
    using assms(2) Some r by (simp_all add: frame_storm_def)
  ultimately show ?thesis using Some by auto
qed

lemma frame_ops:
  fixes ts :: real
  assumes "ov_canvas v" "unit_stream (ov_rng v)" "list_all (aged m) (ov_effects v)"
  shows "unit_stream (ov_rng (frame ts v)) \<and> balanced_ops (ov_drawn (frame ts v))
    \<and> list_all (\<lambda>e. aged (m + frame_dt (ov_lastTs v) ts) e \<and> effect_age e < effect_life e) (ov_effects (frame ts v))
    \<and> ov_raf (frame ts v) = active (frame ts v) \<and> ov_canvas (frame ts v) \<and> ov_lastTs (frame ts v) = ts
    \<and> (ov_storm (frame ts v) = None \<longleftrightarrow> ov_storm v = None)
    \<and> ov_shake (frame ts v) = ov_shake v \<and> ov_shakeTimer (frame ts v) = ov_shakeTimer v"
proof -
  define dt where "dt = frame_dt (ov_lastTs v) ts"
  obtain os1 v1 where a: "frame_storm dt (v\<lparr>ov_lastTs := ts\<rparr>) = (os1, v1)" by fastforce
  obtain os2 v2 where b: "frame_effects dt v1 = (os2, v2)" by fastforce
  from a assms(2) have s: "unit_stream (ov_rng v1)" "balanced_ops os1" "ov_storm v1 = None \<longleftrightarrow> ov_storm v = None"
    "\<exists>st rng. v1 = v\<lparr>ov_lastTs := ts, ov_storm := st, ov_rng := rng\<rparr>"
    using frame_storm_ok [of "v\<lparr>ov_lastTs := ts\<rparr>" dt os1 v1] by auto
  from s(4) have v1: "ov_effects v1 = ov_effects v" "ov_canvas v1" "ov_lastTs v1 = ts"
    "ov_shake v1 = ov_shake v" "ov_shakeTimer v1 = ov_shakeTimer v"
    using assms(1) by auto
  have e: "unit_stream (ov_rng v2)" "balanced_ops os2"
    "list_all (\<lambda>e. aged (m + dt) e \<and> effect_age e < effect_life e) (ov_effects v2)"
    "\<exists>es rng. v2 = v1\<lparr>ov_effects := es, ov_rng := rng\<rparr>"
    using frame_effects_ok [OF s(1) _ b, of m] assms(3) v1(1) by auto
  have f: "frame ts v = v2\<lparr>ov_drawn := [SetTransform (ov_dpr v) 0 0 (ov_dpr v) 0 0, ClearRect 0 0 (ov_w v) (ov_h v)]
      @ os1 @ os2, ov_raf := active v2\<rparr>"
    using assms(1) a b by (simp add: frame_def dt_def [symmetric] Let_def)
  have bal: "balanced_ops ([SetTransform (ov_dpr v) 0 0 (ov_dpr v) 0 0, ClearRect 0 0 (ov_w v) (ov_h v)] @ os1 @ os2)"
    by (intro balanced_append s(2) e(2)) (rule balanced_flat, simp)
  show ?thesis using e s(3) v1 bal by (auto simp: f active_def dt_def)
qed

text \<open>The invariant, operation by operation.\<close>

lemma ensureLoop_simps [simp]:
  "ov_raf (ensureLoop now v)" "active (ensureLoop now v) = active v"
  "ov_canvas (ensureLoop now v) = ov_canvas v" "ov_rng (ensureLoop now v) = ov_rng v"
  "ov_effects (ensureLoop now v) = ov_effects v" "ov_storm (ensureLoop now v) = ov_storm v"
  "ov_shake (ensureLoop now v) = ov_shake v" "ov_shakeTimer (ensureLoop now v) = ov_shakeTimer v"
  "ov_drawn (ensureLoop now v) = ov_drawn v" "ov_audio (ensureLoop now v) = ov_audio v"
  "ov_reduced (ensureLoop now v) = ov_reduced v"
  by (simp_all add: ensureLoop_def active_def)

lemma inv_frame: "overlay_inv v \<Longrightarrow> ov_canvas v \<Longrightarrow> overlay_inv (frame ts v)"
proof -
  assume i: "overlay_inv v" and c: "ov_canvas v"
  obtain m where "\<forall>e \<in> set (ov_effects v). m \<le> effect_age e"
    by (metis finite_imageI finite_set Min_le imageI)
  then have m: "list_all (aged m) (ov_effects v)"
    using i by (auto simp: overlay_inv_def aged_def list_all_iff)
  show ?thesis using frame_ops [OF c _ m, of ts] i
    by (auto simp: overlay_inv_def aged_def list_all_iff)
qed

lemma inv_storm: "overlay_inv v \<Longrightarrow> ov_canvas v \<Longrightarrow> overlay_inv (storm_changed on now v)"
proof (cases on)
  case True
  assume i: "overlay_inv v" and c: "ov_canvas v"
  obtain s rng where r: "run_state (new_storm (ov_w v) (ov_h v) (ov_reduced v)) (ov_rng v) = (s, rng)" by fastforce
  have "unit_stream rng" using returnsD [OF new_storm_ok _ r] i by (simp add: overlay_inv_def)
  then show ?thesis using True i c r by (simp add: overlay_inv_def storm_changed_def)
next
  case False
  assume "overlay_inv v" "ov_canvas v"
  then show ?thesis using False by (auto simp: overlay_inv_def storm_changed_def active_def)
qed

lemma inv_thunder: "overlay_inv v \<Longrightarrow> ov_canvas v \<Longrightarrow> overlay_inv (thunder ac v) \<and> ov_canvas (thunder ac v)"
proof (cases ac)
  case (Some x)
  assume i: "overlay_inv v" and c: "ov_canvas v"
  obtain ops rng where r: "run_state (playThunder (Some x) (ov_reduced v)) (ov_rng v) = (ops, rng)" by fastforce
  have "unit_stream rng" using returnsD [OF playThunder_returns _ r] i by (simp add: overlay_inv_def)
  then show ?thesis using Some i c r by (auto simp: overlay_inv_def thunder_def active_def)
qed (simp add: thunder_def)

lemma inv_shake: "overlay_inv v \<Longrightarrow> overlay_inv (shake shell v)"
  by (auto simp: overlay_inv_def shake_def active_def)

lemma inv_play: "overlay_inv v \<Longrightarrow> ov_canvas v \<Longrightarrow> overlay_inv (play kind now ac shell v)"
proof -
  assume i: "overlay_inv v" and c: "ov_canvas v"
  obtain inst rng where r: "run_state (makeEffect kind (ov_w v) (ov_h v) (ov_reduced v)) (ov_rng v) = (inst, rng)"
    by fastforce
  have p: "unit_stream rng" "case inst of None \<Rightarrow> True | Some e \<Rightarrow> fresh_effect e"
    using returnsD [OF makeEffect_ok _ r] i by (auto simp: overlay_inv_def)
  define v2 where "v2 = (case inst of None \<Rightarrow> v\<lparr>ov_rng := rng\<rparr>
    | Some e \<Rightarrow> ensureLoop now (v\<lparr>ov_rng := rng, ov_effects := ov_effects v @ [e]\<rparr>))"
  have v2: "overlay_inv v2" "ov_canvas v2"
    using i c p by (auto simp: v2_def overlay_inv_def active_def fresh_effect_def split: option.splits)
  have "play kind now ac shell v = (if kind = ''lightning'' then shake shell (thunder ac v2) else v2)"
    using r by (simp add: play_def v2_def Let_def split: option.splits)
  then show ?thesis using inv_shake inv_thunder [OF v2] v2 by simp
qed

lemma overlay_inv_step: "overlay_inv v \<Longrightarrow> overlay_inv (overlay_step e v)"
proof (cases e)
  case (Frame ts)
  assume i: "overlay_inv v"
  then have "ov_raf v \<Longrightarrow> ov_canvas v" by (auto simp: overlay_inv_def)
  then show ?thesis using Frame i inv_frame by simp
next
  case ShakeEnds
  then show "overlay_inv v \<Longrightarrow> ?thesis" by (auto simp: shake_ends_def overlay_inv_def active_def)
next
  case (WindowResize d w h)
  then show "overlay_inv v \<Longrightarrow> ?thesis" by (auto simp: resize_def overlay_inv_def active_def Let_def)
next
  case Unmount
  then show "overlay_inv v \<Longrightarrow> ?thesis" by (simp add: unmount_def overlay_inv_def active_def)
qed (simp_all add: inv_storm inv_play)

interpretation overlay_runs: invariant_steps overlay_step overlay_inv "\<lambda>_. True"
  by unfold_locales (rule overlay_inv_step)

lemma overlay_inv_mount: "unit_stream rng \<Longrightarrow> overlay_inv (mount media d w h rng)"
  by (simp add: overlay_inv_def mount_def resize_def active_def Let_def)

section \<open>The loop stops\<close>

text \<open>The elapsed times of a sequence of frames; consecutive frames are at most 50 ms apart for them.\<close>

fun frame_dts :: "real \<Rightarrow> real list \<Rightarrow> real list" where
  "frame_dts l [] = []"
| "frame_dts l (ts # tss) = frame_dt l ts # frame_dts ts tss"

definition run_frames :: "real list \<Rightarrow> overlay \<Rightarrow> overlay" where
  "run_frames tss v = fold (\<lambda>ts. overlay_step (Frame ts)) tss v"

lemma idle_stays: "\<not> ov_raf v \<Longrightarrow> run_frames tss v = v"
  unfolding run_frames_def by (induction tss) simp_all

lemma frames_age:
  "overlay_inv v \<Longrightarrow> ov_storm v = None \<Longrightarrow> list_all (aged m) (ov_effects v) \<Longrightarrow>
   (\<not> ov_raf (run_frames tss v) \<and> ov_effects (run_frames tss v) = [])
   \<or> (tss = [] \<or> list_all (\<lambda>e. aged (m + sum_list (frame_dts (ov_lastTs v) tss)) e \<and> effect_age e < effect_life e)
        (ov_effects (run_frames tss v)) \<and> ov_effects (run_frames tss v) \<noteq> [])"
proof (induction tss arbitrary: v m)
  case Nil
  show ?case by simp
next
  case (Cons ts tss)
  show ?case
  proof (cases "ov_raf v")
    case False
    then have "ov_effects v = []" using Cons.prems(1) by (auto simp: overlay_inv_def active_def)
    then show ?thesis using False idle_stays [OF False, of "ts # tss"] by simp
  next
    case True
    then have c: "ov_canvas v" using Cons.prems(1) by (auto simp: overlay_inv_def)
    define v' where "v' = frame ts v"
    define m' where "m' = m + frame_dt (ov_lastTs v) ts"
    have u: "unit_stream (ov_rng v)" using Cons.prems(1) by (simp add: overlay_inv_def)
    have f: "list_all (\<lambda>e. aged m' e \<and> effect_age e < effect_life e) (ov_effects v')"
      "ov_raf v' = active v'" "ov_lastTs v' = ts" "ov_storm v' = None" "overlay_inv v'"
      using frame_ops [OF c u Cons.prems(3), of ts] Cons.prems(2) inv_frame [OF Cons.prems(1) c, of ts]
      by (auto simp: v'_def m'_def)
    have r: "run_frames (ts # tss) v = run_frames tss v'"
      using True by (simp add: run_frames_def v'_def)
    have ag: "list_all (aged m') (ov_effects v')" using f(1) by (auto simp: list_all_iff)
    show ?thesis
    proof (cases "tss = []")
      case True
      then show ?thesis using f r by (auto simp: run_frames_def m'_def active_def)
    next
      case False
      then show ?thesis using Cons.IH [OF f(5) f(4) ag] f(3) by (simp add: r m'_def add.assoc)
    qed
  qed
qed

lemma six_seconds_of_frames:
  assumes "overlay_inv v" "ov_storm v = None" "list_all (\<lambda>e. 0 \<le> effect_age e) (ov_effects v)"
    and "6000 \<le> sum_list (frame_dts (ov_lastTs v) tss)"
  shows "ov_effects (run_frames tss v) = [] \<and> \<not> ov_raf (run_frames tss v)"
proof -
  have m: "list_all (aged 0) (ov_effects v)"
    using assms(1,3) by (auto simp: overlay_inv_def aged_def list_all_iff)
  have ne: "tss \<noteq> []" using assms(4) by auto
  have old: "\<not> (aged (0 + sum_list (frame_dts (ov_lastTs v) tss)) e \<and> effect_age e < effect_life e)" for e
    using assms(4) by (auto simp: aged_def)
  show ?thesis using frames_age [OF assms(1,2) m, of tss] ne old
    by (cases "ov_effects (run_frames tss v)") auto
qed

text \<open>Frames \<open>d\<close> milliseconds apart, at most 50, add up to \<open>n * d\<close>.\<close>

definition steady :: "real \<Rightarrow> real \<Rightarrow> nat \<Rightarrow> real list" where
  "steady l d n = map (\<lambda>i. l + real i * d) [1..<Suc n]"

lemma steady_Suc: "steady l d (Suc n) = (l + d) # steady (l + d) d n"
proof -
  have "[1..<Suc (Suc n)] = 1 # map Suc [1..<Suc n]"
    by (simp add: upt_conv_Cons map_Suc_upt del: upt_Suc)
  then show ?thesis by (simp add: steady_def algebra_simps del: upt_Suc)
qed

lemma steady_dts: "0 < l \<Longrightarrow> 0 \<le> d \<Longrightarrow> d \<le> 50 \<Longrightarrow> sum_list (frame_dts l (steady l d n)) = real n * d"
proof (induction n arbitrary: l)
  case 0
  show ?case by (simp add: steady_def)
next
  case (Suc n)
  then show ?case using Suc.IH [of "l + d"] by (simp add: steady_Suc frame_dt_def algebra_simps)
qed

text \<open>Nothing is left after unmounting.\<close>

lemma unmount_releases:
  "\<not> ov_raf (unmount v) \<and> ov_effects (unmount v) = [] \<and> ov_storm (unmount v) = None
   \<and> \<not> ov_shake (unmount v) \<and> \<not> ov_shakeTimer (unmount v) \<and> \<not> ov_audio (unmount v)"
  by (simp add: unmount_def)

end
