(* ===== verification/Edit_Profile.thy ===== *)
theory Edit_Profile imports Js_Text Auth_Store Profile_Card Toast_Store
begin

text \<open>
  \<open>EditProfileModal.jsx\<close>: the form of the user's own profile. The world of the form is the session,
  the profile cache and the toasts it writes to; \<open>w_patches\<close> and \<open>w_uploads\<close> are the requests that
  have not been answered, \<open>w_sent\<close> every request ever sent, and \<open>w_urls\<close> counts the object URLs that
  exist. The lemmas show that what is sent respects the limits, that one save runs at a time, that
  no object URL leaks, and that session and cache agree after a save.
\<close>

definition BIO_MAX :: nat where "BIO_MAX = 190"
definition PRONOUNS_MAX :: nat where "PRONOUNS_MAX = 40"

record edit_form =
  ef_bio :: text16
  ef_pronouns :: text16
  ef_accent :: string
  ef_accentOn :: bool
  ef_preview :: "upload_file option"
  ef_uploading :: bool
  ef_saving :: bool

datatype edit_request =
    UploadAvatar upload_file
  | PatchMe text16 text16 string

record edit_world =
  w_form :: edit_form
  w_tab :: tab
  w_cache :: profile_store
  w_toasts :: toast_store
  w_open :: bool
  w_patches :: nat
  w_uploads :: nat
  w_urls :: nat
  w_sent :: "edit_request list"

text \<open>The form when it mounts; the user's bio and pronouns are given as text.\<close>

definition init_form :: "text16 \<Rightarrow> text16 \<Rightarrow> user \<Rightarrow> edit_form" where
  "init_form bio pronouns u = \<lparr>ef_bio = bio, ef_pronouns = pronouns, ef_accent = accent_of u,
     ef_accentOn = (u_accent_color u \<noteq> None \<and> HEX_RE (or_string (u_accent_color u))),
     ef_preview = None, ef_uploading = False, ef_saving = False\<rparr>"

definition bioOver :: "edit_form \<Rightarrow> bool" where
  "bioOver f \<longleftrightarrow> BIO_MAX < length (ef_bio f)"

definition pronounsOver :: "edit_form \<Rightarrow> bool" where
  "pronounsOver f \<longleftrightarrow> PRONOUNS_MAX < length (ef_pronouns f)"

definition canSave :: "edit_form \<Rightarrow> bool" where
  "canSave f \<longleftrightarrow> \<not> ef_saving f \<and> \<not> ef_uploading f \<and> \<not> bioOver f \<and> \<not> pronounsOver f"

text \<open>The counter beside the bio, negative when it is over.\<close>

definition bio_left :: "edit_form \<Rightarrow> int" where
  "bio_left f = int BIO_MAX - int (length (ef_bio f))"

section \<open>Operations\<close>

definition save :: "edit_world \<Rightarrow> edit_world" where
  "save w =
     (let f = w_form w
      in if \<not> canSave f then w
         else w\<lparr>w_form := f\<lparr>ef_saving := True\<rparr>, w_patches := w_patches w + 1,
                w_sent := w_sent w @ [PatchMe (ef_bio f) (ef_pronouns f)
                  (if ef_accentOn f then ef_accent f else '''')]\<rparr>)"

definition save_ok :: "user \<Rightarrow> edit_world \<Rightarrow> edit_world" where
  "save_ok updated w =
     w\<lparr>w_tab := setUser (Some updated) (w_tab w), w_cache := setProfile (Some updated) (w_cache w),
       w_toasts := push ''Profile updated'' ''success'' (w_toasts w), w_open := False,
       w_form := (w_form w)\<lparr>ef_saving := False\<rparr>, w_patches := w_patches w - 1\<rparr>"

definition save_err :: "string \<Rightarrow> edit_world \<Rightarrow> edit_world" where
  "save_err message w =
     w\<lparr>w_toasts := toast message (w_toasts w), w_form := (w_form w)\<lparr>ef_saving := False\<rparr>,
       w_patches := w_patches w - 1\<rparr>"

definition onAvatarPick :: "upload_file option \<Rightarrow> edit_world \<Rightarrow> edit_world" where
  "onAvatarPick picked w = (case picked of
     None \<Rightarrow> w
   | Some fl \<Rightarrow>
       w\<lparr>w_form := (w_form w)\<lparr>ef_preview := Some fl, ef_uploading := True\<rparr>,
         w_urls := w_urls w + 1, w_uploads := w_uploads w + 1, w_sent := w_sent w @ [UploadAvatar fl]\<rparr>)"

text \<open>\<open>finally\<close> of the upload.\<close>

definition upload_done :: "edit_world \<Rightarrow> edit_world" where
  "upload_done w =
     w\<lparr>w_form := (w_form w)\<lparr>ef_uploading := False, ef_preview := None\<rparr>,
       w_urls := w_urls w - 1, w_uploads := w_uploads w - 1\<rparr>"

text \<open>
  \<open>{ ...user, avatar_url }\<close> of the user at the time of the answer. Spreading \<open>null\<close> gives an object
  with the URL alone, whose other fields read as empty.
\<close>

definition with_avatar :: "string \<Rightarrow> user option \<Rightarrow> user" where
  "with_avatar url u = (case u of
     Some v \<Rightarrow> v\<lparr>u_avatar_url := Some url\<rparr>
   | None \<Rightarrow> \<lparr>u_id = [], u_username = [], u_email = None, u_avatar_url = Some url, u_bio = None,
        u_pronouns = None, u_accent_color = None, u_created_at = None\<rparr>)"

definition avatar_ok :: "string \<Rightarrow> edit_world \<Rightarrow> edit_world" where
  "avatar_ok url w =
     (let updated = with_avatar url (au_user (fst (w_tab w)))
      in upload_done (w\<lparr>w_tab := setUser (Some updated) (w_tab w),
                        w_cache := setProfile (Some updated) (w_cache w)\<rparr>))"

definition avatar_err :: "string \<Rightarrow> edit_world \<Rightarrow> edit_world" where
  "avatar_err message w = upload_done (w\<lparr>w_toasts := toast message (w_toasts w)\<rparr>)"

section \<open>Runs\<close>

text \<open>The colour input yields \<open>#rrggbb\<close> only, which is what \<open>edit_ok\<close> asks of the environment.\<close>

datatype edit_event =
    SetBio text16 | SetPronouns text16 | SetAccent string | SetAccentOn bool
  | PickAvatar "upload_file option" | AvatarOk string | AvatarErr string
  | Save | SaveOk user | SaveErr string

fun edit_step :: "edit_event \<Rightarrow> edit_world \<Rightarrow> edit_world" where
  "edit_step (SetBio t) w = w\<lparr>w_form := (w_form w)\<lparr>ef_bio := t\<rparr>\<rparr>"
| "edit_step (SetPronouns t) w = w\<lparr>w_form := (w_form w)\<lparr>ef_pronouns := t\<rparr>\<rparr>"
| "edit_step (SetAccent c) w = w\<lparr>w_form := (w_form w)\<lparr>ef_accent := c\<rparr>\<rparr>"
| "edit_step (SetAccentOn b) w = w\<lparr>w_form := (w_form w)\<lparr>ef_accentOn := b\<rparr>\<rparr>"
| "edit_step (PickAvatar p) w = onAvatarPick p w"
| "edit_step (AvatarOk url) w = (if w_uploads w = 0 then w else avatar_ok url w)"
| "edit_step (AvatarErr m) w = (if w_uploads w = 0 then w else avatar_err m w)"
| "edit_step Save w = save w"
| "edit_step (SaveOk u) w = (if w_patches w = 0 then w else save_ok u w)"
| "edit_step (SaveErr m) w = (if w_patches w = 0 then w else save_err m w)"

fun edit_ok :: "edit_event \<Rightarrow> bool" where
  "edit_ok (SetAccent c) = HEX_RE c"
| "edit_ok _ = True"

fun valid_request :: "edit_request \<Rightarrow> bool" where
  "valid_request (UploadAvatar fl) = True"
| "valid_request (PatchMe b p c) \<longleftrightarrow>
     length b \<le> BIO_MAX \<and> length p \<le> PRONOUNS_MAX \<and> (c = '''' \<or> HEX_RE c)"

definition edit_inv :: "edit_world \<Rightarrow> bool" where
  "edit_inv w \<longleftrightarrow>
     w_patches w = (if ef_saving (w_form w) then 1 else 0) \<and> w_urls w = w_uploads w
     \<and> (ef_uploading (w_form w) \<longrightarrow> 0 < w_uploads w) \<and> HEX_RE (ef_accent (w_form w))
     \<and> list_all valid_request (w_sent w)"

lemmas edit_defs = save_def save_ok_def save_err_def onAvatarPick_def upload_done_def avatar_ok_def
  avatar_err_def canSave_def bioOver_def pronounsOver_def

lemma edit_inv_step: "edit_inv w \<Longrightarrow> edit_ok e \<Longrightarrow> edit_inv (edit_step e w)"
  by (cases e) (auto simp: edit_inv_def edit_defs Let_def split: option.splits if_splits)

interpretation edit_runs: invariant_steps edit_step edit_inv edit_ok
  by unfold_locales (rule edit_inv_step)

definition init_world :: "edit_form \<Rightarrow> tab \<Rightarrow> profile_store \<Rightarrow> toast_store \<Rightarrow> edit_world" where
  "init_world f t c ts = \<lparr>w_form = f, w_tab = t, w_cache = c, w_toasts = ts, w_open = True,
     w_patches = 0, w_uploads = 0, w_urls = 0, w_sent = []\<rparr>"

lemma edit_inv_init: "edit_inv (init_world (init_form b p u) t c ts)"
  by (simp add: edit_inv_def init_world_def init_form_def accent_safe)

text \<open>After a save, and after an upload while signed in, session and cache hold the same user.\<close>

definition cached_self :: "edit_world \<Rightarrow> bool" where
  "cached_self w = (case au_user (fst (w_tab w)) of None \<Rightarrow> False
     | Some u \<Rightarrow> oget (profiles (w_cache w)) (u_id u) = Some u)"

lemma setUser_user [simp]: "au_user (fst (setUser u t)) = u"
  by (cases t) (simp add: setUser_def)

lemma save_caches: "u_id u \<noteq> [] \<Longrightarrow> cached_self (save_ok u w)"
  by (simp add: cached_self_def save_ok_def setProfile_def)

lemma avatar_caches:
  "au_user (fst (w_tab w)) = Some u \<Longrightarrow> u_id u \<noteq> [] \<Longrightarrow>
   cached_self (avatar_ok url w)
   \<and> au_user (fst (w_tab (avatar_ok url w))) = Some (u\<lparr>u_avatar_url := Some url\<rparr>)"
  by (simp add: cached_self_def avatar_ok_def upload_done_def setProfile_def with_avatar_def Let_def)

end
