(* ===== verification/Settings.thy ===== *)
theory Settings imports Gateway_Client Api_Client Voice_Store Edit_Profile
begin

text \<open>
  \<open>SettingsPopover.jsx\<close>: changing the user name and the avatar, and logging out. Logging out is the
  one place where the session, the API client, the gateway client and the chat store act together;
  it is split at its two awaits (\<open>logout\<close>, \<open>logout_token\<close>, \<open>logout_posted\<close>).
\<close>

section \<open>The user name\<close>

text \<open>\<open>/^[a-zA-Z0-9_]{2,32}$/\<close>.\<close>

definition isNameChar :: "16 word \<Rightarrow> bool" where
  "isNameChar c \<longleftrightarrow> (97 \<le> c \<and> c \<le> 122) \<or> (65 \<le> c \<and> c \<le> 90) \<or> (48 \<le> c \<and> c \<le> 57) \<or> c = 95"

definition USERNAME_RE :: "text16 \<Rightarrow> bool" where
  "USERNAME_RE s \<longleftrightarrow> 2 \<le> length s \<and> length s \<le> 32 \<and> list_all isNameChar s"

record settings =
  st_username :: text16
  st_preview :: "upload_file option"
  st_uploading :: bool
  st_saving :: bool
  st_user :: "user option"
  st_toasts :: toast_store
  st_patches :: nat
  st_sent :: "text16 list"
  st_uploads :: nat
  st_urls :: nat

definition usernameValid :: "settings \<Rightarrow> bool" where
  "usernameValid st = USERNAME_RE (trim (st_username st))"

definition usernameChanged :: "settings \<Rightarrow> bool" where
  "usernameChanged st \<longleftrightarrow>
     (case st_user st of None \<Rightarrow> True | Some u \<Rightarrow> utf8 (trim (st_username st)) \<noteq> u_username u)"

definition saveUsername :: "settings \<Rightarrow> settings" where
  "saveUsername st =
     (if \<not> usernameValid st \<or> \<not> usernameChanged st \<or> st_saving st then st
      else st\<lparr>st_saving := True, st_patches := st_patches st + 1,
              st_sent := st_sent st @ [trim (st_username st)]\<rparr>)"

definition username_ok :: "user \<Rightarrow> settings \<Rightarrow> settings" where
  "username_ok updated st =
     st\<lparr>st_user := Some updated, st_toasts := push ''Username updated'' ''success'' (st_toasts st),
        st_saving := False, st_patches := st_patches st - 1\<rparr>"

definition username_err :: "string \<Rightarrow> settings \<Rightarrow> settings" where
  "username_err message st =
     st\<lparr>st_toasts := toast message (st_toasts st), st_saving := False, st_patches := st_patches st - 1\<rparr>"

text \<open>The avatar: unlike the profile form, the upload does not touch the profile cache.\<close>

definition pick_avatar :: "upload_file option \<Rightarrow> settings \<Rightarrow> settings" where
  "pick_avatar picked st = (case picked of
     None \<Rightarrow> st
   | Some fl \<Rightarrow> st\<lparr>st_preview := Some fl, st_uploading := True, st_uploads := st_uploads st + 1,
                    st_urls := st_urls st + 1\<rparr>)"

definition avatar_finally :: "settings \<Rightarrow> settings" where
  "avatar_finally st = st\<lparr>st_uploading := False, st_preview := None, st_uploads := st_uploads st - 1,
     st_urls := st_urls st - 1\<rparr>"

definition avatar_uploaded :: "string \<Rightarrow> settings \<Rightarrow> settings" where
  "avatar_uploaded url st = avatar_finally (st\<lparr>st_user := Some (with_avatar url (st_user st))\<rparr>)"

definition avatar_failed :: "string \<Rightarrow> settings \<Rightarrow> settings" where
  "avatar_failed message st = avatar_finally (st\<lparr>st_toasts := toast message (st_toasts st)\<rparr>)"

datatype settings_event =
    TypeName text16 | SaveName | NameOk user | NameErr string
  | PickPicture "upload_file option" | PictureOk string | PictureErr string

fun settings_step :: "settings_event \<Rightarrow> settings \<Rightarrow> settings" where
  "settings_step (TypeName t) st = st\<lparr>st_username := t\<rparr>"
| "settings_step SaveName st = saveUsername st"
| "settings_step (NameOk u) st = (if st_patches st = 0 then st else username_ok u st)"
| "settings_step (NameErr m) st = (if st_patches st = 0 then st else username_err m st)"
| "settings_step (PickPicture p) st = pick_avatar p st"
| "settings_step (PictureOk url) st = (if st_uploads st = 0 then st else avatar_uploaded url st)"
| "settings_step (PictureErr m) st = (if st_uploads st = 0 then st else avatar_failed m st)"

definition settings_inv :: "settings \<Rightarrow> bool" where
  "settings_inv st \<longleftrightarrow>
     st_patches st = (if st_saving st then 1 else 0) \<and> list_all USERNAME_RE (st_sent st)
     \<and> st_urls st = st_uploads st \<and> (st_uploading st \<longrightarrow> 0 < st_uploads st)"

lemmas settings_defs = saveUsername_def username_ok_def username_err_def pick_avatar_def
  avatar_finally_def avatar_uploaded_def avatar_failed_def usernameValid_def

lemma settings_inv_step: "settings_inv st \<Longrightarrow> settings_inv (settings_step e st)"
  by (cases e) (auto simp: settings_inv_def settings_defs split: option.splits if_splits)

interpretation settings_runs: invariant_steps settings_step settings_inv "\<lambda>_. True"
  by unfold_locales (rule settings_inv_step)

section \<open>Logging out\<close>

text \<open>\<open>JSON.stringify\<close> of a string, on UTF-8 bytes.\<close>

definition json_char :: "char \<Rightarrow> string" where
  "json_char c =
     (let n = of_char c :: nat
      in if n = 34 then [CHR 0x5C, CHR 0x22]
         else if n = 92 then [CHR 0x5C, CHR 0x5C]
         else if n = 8 then [CHR 0x5C, CHR ''b'']
         else if n = 9 then [CHR 0x5C, CHR ''t'']
         else if n = 10 then [CHR 0x5C, CHR ''n'']
         else if n = 12 then [CHR 0x5C, CHR ''f'']
         else if n = 13 then [CHR 0x5C, CHR ''r'']
         else if n < 32
         then [CHR 0x5C, CHR ''u'', CHR ''0'', CHR ''0'', char_of (48 + n div 16),
               char_of (if n mod 16 < 10 then 48 + n mod 16 else 87 + n mod 16)]
         else [c])"

definition json_string :: "string \<Rightarrow> string" where
  "json_string s = [CHR 0x22] @ concat (map json_char s) @ [CHR 0x22]"

definition logout_body :: "string \<Rightarrow> payload" where
  "logout_body rt = Json (''{'' @ json_string ''refresh_token'' @ '':'' @ json_string rt @ ''}'')"

record 'd signed_in =
  si_api :: "'d api_state"
  si_gateway :: gateway
  si_chat :: client
  si_voice :: voice

datatype logout_phase = AwaitToken nat | AwaitPost nat | LoggedOut

definition logout_finish :: "'d signed_in \<Rightarrow> 'd signed_in" where
  "logout_finish s =
     s\<lparr>si_gateway := disconnectGateway (si_gateway s), si_chat := setc reset (si_chat s),
       si_api := (si_api s)\<lparr>tab := clearSession (tab (si_api s))\<rparr>\<rparr>"

definition logout ::
  "(string \<Rightarrow> int option) \<Rightarrow> int \<Rightarrow> nat \<Rightarrow> 'd signed_in \<Rightarrow> logout_phase \<times> 'd signed_in" where
  "logout exp_of now n s =
     (AwaitToken n, s\<lparr>si_api := ensureFreshAccessToken exp_of now n (si_api s)\<rparr>)"

definition logout_token ::
  "nat \<Rightarrow> api_error + string \<Rightarrow> 'd signed_in \<Rightarrow> logout_phase \<times> 'd signed_in" where
  "logout_token n res s = (case res of
     Inl e \<Rightarrow> (LoggedOut, logout_finish s)
   | Inr token \<Rightarrow>
       (let rt = refreshToken (fst (tab (si_api s)))
        in if truthy rt
           then (AwaitPost n, s\<lparr>si_api := (run_fetch (api_post n ''/auth/logout'' (logout_body (the rt)))
                                            (si_api s))\<lparr>issued := issued (si_api s) @ [n]\<rparr>\<rparr>)
           else (LoggedOut, logout_finish s)))"

definition logout_posted :: "'d outcome \<Rightarrow> 'd signed_in \<Rightarrow> logout_phase \<times> 'd signed_in" where
  "logout_posted res s = (LoggedOut, logout_finish s)"

text \<open>Nothing of the session is left, whatever the state was.\<close>

definition signed_out :: "'d signed_in \<Rightarrow> bool" where
  "signed_out s \<longleftrightarrow>
     au_user (fst (tab (si_api s))) = None \<and> accessToken (fst (tab (si_api s))) = None
     \<and> refreshToken (fst (tab (si_api s))) = None \<and> oget (snd (tab (si_api s))) REFRESH_KEY = None
     \<and> stopped (si_gateway s) \<and> ws (si_gateway s) = None \<and> reconnectTimer (si_gateway s) = None
     \<and> heartbeatTimer (si_gateway s) = None \<and> chat (si_chat s) = initial_chat"

lemma disconnect_clears:
  "stopped (disconnectGateway g) \<and> ws (disconnectGateway g) = None
   \<and> reconnectTimer (disconnectGateway g) = None \<and> heartbeatTimer (disconnectGateway g) = None"
  by (simp add: disconnectGateway_def stopHeartbeat_def emit_def Let_def split: option.splits)

lemma finish_signed_out: "signed_out (logout_finish s)"
  using disconnect_clears [of "si_gateway s"]
  by (simp add: signed_out_def logout_finish_def setc_def reset_def initial_chat_def)

text \<open>The call in progress is not part of it: the user stays connected, microphone included.\<close>

lemma logout_keeps_call: "si_voice (logout_finish s) = si_voice s"
  by (simp add: logout_finish_def)

end
