(* ===== verification/Forms.thy ===== *)
theory Forms imports Js_Text Chat_Async Auth_Store Settings
begin

text \<open>
  The forms that create something and wait for the answer: \<open>CreateChannelModal.jsx\<close>,
  \<open>AddGuildModal.jsx\<close>, \<open>LoginPage.jsx\<close>, \<open>RegisterPage.jsx\<close>, and the invite of \<open>InviteModal.jsx\<close>. They
  share the shape \<open>form\<close> (fields, error line, busy flag, requests) and the contract \<open>form_flow\<close>: a
  submission sends at most one valid request, and none while one is outstanding. \<open>toLower\<close> is
  \<open>String.prototype.toLowerCase\<close>, which follows the tables of Unicode.
\<close>

record ('f, 'r) form =
  fm_fields :: 'f
  f_error :: string
  f_busy :: bool
  f_done :: bool
  f_waiting :: nat
  f_sent :: "'r list"

definition new_form :: "'f \<Rightarrow> ('f, 'r) form" where
  "new_form x = \<lparr>fm_fields = x, f_error = '''', f_busy = False, f_done = False, f_waiting = 0, f_sent = []\<rparr>"

text \<open>\<open>setError(''); setBusy(true); await request\<close>.\<close>

definition start_request :: "'r \<Rightarrow> ('f, 'r) form \<Rightarrow> ('f, 'r) form" where
  "start_request r s = s\<lparr>f_error := '''', f_busy := True, f_waiting := f_waiting s + 1, f_sent := f_sent s @ [r]\<rparr>"

text \<open>The answer: success ends the form (\<open>onClose\<close>, \<open>navigate\<close>), failure shows the message.\<close>

definition form_ok :: "('f, 'r) form \<Rightarrow> ('f, 'r) form" where
  "form_ok s = s\<lparr>f_done := True, f_busy := False, f_waiting := f_waiting s - 1\<rparr>"

definition form_err :: "string \<Rightarrow> ('f, 'r) form \<Rightarrow> ('f, 'r) form" where
  "form_err message s = s\<lparr>f_error := message, f_busy := False, f_waiting := f_waiting s - 1\<rparr>"

section \<open>The four submissions\<close>

record channel_fields =
  cf_name :: text16
  cf_topic :: text16
  cf_type :: string

datatype channel_request = ChannelRequest text16 text16 string

definition channel_valid :: "channel_fields \<Rightarrow> bool" where
  "channel_valid x \<longleftrightarrow> 1 \<le> length (trim (cf_name x))"

definition channel_submit ::
  "(channel_fields, channel_request) form \<Rightarrow> (channel_fields, channel_request) form" where
  "channel_submit s =
     (if \<not> channel_valid (fm_fields s) \<or> f_busy s then s
      else start_request (ChannelRequest (trim (cf_name (fm_fields s))) (trim (cf_topic (fm_fields s)))
             (cf_type (fm_fields s))) s)"

record guild_fields =
  gf_create :: bool
  gf_name :: text16
  gf_code :: text16

datatype guild_request = CreateRequest text16 | JoinRequest text16

definition guild_valid :: "guild_fields \<Rightarrow> bool" where
  "guild_valid x \<longleftrightarrow> (if gf_create x then 2 \<le> length (trim (gf_name x)) else 0 < length (trim (gf_code x)))"

definition guild_submit ::
  "(guild_fields, guild_request) form \<Rightarrow> (guild_fields, guild_request) form" where
  "guild_submit s =
     (if \<not> guild_valid (fm_fields s) \<or> f_busy s then s
      else start_request (if gf_create (fm_fields s) then CreateRequest (trim (gf_name (fm_fields s)))
                          else JoinRequest (trim (gf_code (fm_fields s)))) s)"

record account_fields =
  af_username :: text16
  af_email :: text16
  af_password :: text16

datatype account_request =
    LoginRequest text16 text16
  | RegisterRequest text16 text16 text16

text \<open>
  The two account forms have no guard of their own: their button is disabled while busy, and a form
  whose submit button is disabled is not submitted, neither by the button nor by the Enter key.
\<close>

definition press_button :: "(('f, 'r) form \<Rightarrow> ('f, 'r) form) \<Rightarrow> ('f, 'r) form \<Rightarrow> ('f, 'r) form" where
  "press_button submit s = (if f_busy s then s else submit s)"

definition login_submit :: "(text16 \<Rightarrow> text16) \<Rightarrow>
    (account_fields, account_request) form \<Rightarrow> (account_fields, account_request) form" where
  "login_submit toLower s =
     start_request (LoginRequest (toLower (trim (af_email (fm_fields s)))) (af_password (fm_fields s))) s"

definition bad_username :: string where
  "bad_username = ''Username must be 2'' @ [CHR 0xE2, CHR 0x80, CHR 0x93] @ ''32 characters: letters, numbers, underscores.''"

definition bad_password :: string where
  "bad_password = ''Password must be at least 8 characters.''"

definition register_submit :: "(text16 \<Rightarrow> text16) \<Rightarrow>
    (account_fields, account_request) form \<Rightarrow> (account_fields, account_request) form" where
  "register_submit toLower s =
     (if \<not> USERNAME_RE (trim (af_username (fm_fields s))) then s\<lparr>f_error := bad_username\<rparr>
      else if length (af_password (fm_fields s)) < 8 then s\<lparr>f_error := bad_password\<rparr>
      else start_request (RegisterRequest (trim (af_username (fm_fields s)))
             (toLower (trim (af_email (fm_fields s)))) (af_password (fm_fields s))) s)"

text \<open>What the answers do beyond the form.\<close>

definition account_ok :: "session \<Rightarrow> tab \<times> (account_fields, account_request) form \<Rightarrow>
    tab \<times> (account_fields, account_request) form" where
  "account_ok x p = (setSession x (fst p), form_ok (snd p))"

definition send_channel :: "string \<Rightarrow> channel_request \<Rightarrow> client \<Rightarrow> client" where
  "send_channel guildId r a = (case r of ChannelRequest n t k \<Rightarrow> createChannel guildId (utf8 n) (utf8 t) k a)"

definition send_guild :: "guild_request \<Rightarrow> client \<Rightarrow> client" where
  "send_guild r a = (case r of CreateRequest n \<Rightarrow> createGuild (utf8 n) a | JoinRequest c \<Rightarrow> joinGuild (utf8 c) a)"

section \<open>The contract of a form\<close>

fun channel_request_ok :: "channel_request \<Rightarrow> bool" where
  "channel_request_ok (ChannelRequest n t k) \<longleftrightarrow> n \<noteq> [] \<and> trim n = n \<and> trim t = t"

fun guild_request_ok :: "guild_request \<Rightarrow> bool" where
  "guild_request_ok (CreateRequest n) \<longleftrightarrow> trim n = n \<and> 2 \<le> length n"
| "guild_request_ok (JoinRequest c) \<longleftrightarrow> trim c = c \<and> c \<noteq> []"

fun account_request_ok :: "account_request \<Rightarrow> bool" where
  "account_request_ok (LoginRequest e p) = True"
| "account_request_ok (RegisterRequest u e p) \<longleftrightarrow> USERNAME_RE u \<and> trim u = u \<and> 8 \<le> length p"

datatype 'f form_event = Edit 'f | Submit | SubmitOk | SubmitErr string

definition form_step :: "(('f, 'r) form \<Rightarrow> ('f, 'r) form) \<Rightarrow> 'f form_event \<Rightarrow> ('f, 'r) form \<Rightarrow> ('f, 'r) form" where
  "form_step submit e s = (case e of
     Edit x \<Rightarrow> s\<lparr>fm_fields := x\<rparr>
   | Submit \<Rightarrow> submit s
   | SubmitOk \<Rightarrow> if f_waiting s = 0 then s else form_ok s
   | SubmitErr m \<Rightarrow> if f_waiting s = 0 then s else form_err m s)"

definition form_inv :: "('r \<Rightarrow> bool) \<Rightarrow> ('f, 'r) form \<Rightarrow> bool" where
  "form_inv ok s \<longleftrightarrow> f_waiting s = (if f_busy s then 1 else 0) \<and> list_all ok (f_sent s)"

locale form_flow =
  fixes submit :: "('f, 'r) form \<Rightarrow> ('f, 'r) form"
    and ok :: "'r \<Rightarrow> bool"
  assumes busy_waits: "f_busy s \<Longrightarrow> submit s = s"
    and submits: "\<not> f_busy s \<Longrightarrow>
      (\<exists>r. ok r \<and> submit s = start_request r s) \<or> (\<exists>m. submit s = s\<lparr>f_error := m\<rparr>)"
begin

lemma inv_submit: "form_inv ok s \<Longrightarrow> form_inv ok (submit s)"
proof (cases "f_busy s")
  case True
  then show "form_inv ok s \<Longrightarrow> ?thesis" by (simp add: busy_waits)
next
  case False
  assume i: "form_inv ok s"
  from submits [OF False] show ?thesis
  proof
    assume "\<exists>r. ok r \<and> submit s = start_request r s"
    then show ?thesis using i False by (auto simp: form_inv_def start_request_def)
  next
    assume "\<exists>m. submit s = s\<lparr>f_error := m\<rparr>"
    then show ?thesis using i by (auto simp: form_inv_def)
  qed
qed

lemma inv_step: "form_inv ok s \<Longrightarrow> form_inv ok (form_step submit e s)"
  using inv_submit [of s]
  by (cases e) (auto simp: form_step_def form_inv_def form_ok_def form_err_def split: if_splits)

lemma inv_run: "form_inv ok (fold (form_step submit) es (new_form x))"
proof -
  have "form_inv ok s \<Longrightarrow> form_inv ok (fold (form_step submit) es s)" for s
    by (induction es arbitrary: s) (simp_all add: inv_step)
  then show ?thesis by (simp add: form_inv_def new_form_def)
qed

end

text \<open>The two ways a submission may go, as rules.\<close>

lemma submitted:
  "ok r \<Longrightarrow> t = start_request r s \<Longrightarrow>
   (\<exists>r. ok r \<and> t = start_request r s) \<or> (\<exists>m. t = s\<lparr>f_error := m\<rparr>)"
  by blast

lemma refused:
  "t = s\<lparr>f_error := m\<rparr> \<Longrightarrow> (\<exists>r. ok r \<and> t = start_request r s) \<or> (\<exists>m. t = s\<lparr>f_error := m\<rparr>)"
  by blast

interpretation channel_form: form_flow channel_submit channel_request_ok
proof
  fix s :: "(channel_fields, channel_request) form"
  show "f_busy s \<Longrightarrow> channel_submit s = s" by (simp add: channel_submit_def)
  assume nb: "\<not> f_busy s"
  show "(\<exists>r. channel_request_ok r \<and> channel_submit s = start_request r s)
      \<or> (\<exists>m. channel_submit s = s\<lparr>f_error := m\<rparr>)"
  proof (cases "channel_valid (fm_fields s)")
    case True
    then have "trim (cf_name (fm_fields s)) \<noteq> []" by (auto simp: channel_valid_def)
    then show ?thesis using nb True
      by (intro submitted [of _ "ChannelRequest (trim (cf_name (fm_fields s)))
            (trim (cf_topic (fm_fields s))) (cf_type (fm_fields s))"]) (simp_all add: channel_submit_def)
  next
    case False
    then show ?thesis by (intro refused [where m = "f_error s"]) (simp add: channel_submit_def)
  qed
qed

interpretation guild_form: form_flow guild_submit guild_request_ok
proof
  fix s :: "(guild_fields, guild_request) form"
  show "f_busy s \<Longrightarrow> guild_submit s = s" by (simp add: guild_submit_def)
  assume nb: "\<not> f_busy s"
  show "(\<exists>r. guild_request_ok r \<and> guild_submit s = start_request r s)
      \<or> (\<exists>m. guild_submit s = s\<lparr>f_error := m\<rparr>)"
  proof (cases "guild_valid (fm_fields s)")
    case True
    then show ?thesis using nb
      by (intro submitted [of _ "if gf_create (fm_fields s) then CreateRequest (trim (gf_name (fm_fields s)))
            else JoinRequest (trim (gf_code (fm_fields s)))"])
        (auto simp: guild_submit_def guild_valid_def split: if_splits)
  next
    case False
    then show ?thesis by (intro refused [where m = "f_error s"]) (simp add: guild_submit_def)
  qed
qed

interpretation login_form: form_flow "press_button (login_submit toLower)" account_request_ok for toLower
proof
  fix s :: "(account_fields, account_request) form"
  show "f_busy s \<Longrightarrow> press_button (login_submit toLower) s = s" by (simp add: press_button_def login_submit_def)
  assume nb: "\<not> f_busy s"
  show "(\<exists>r. account_request_ok r \<and> press_button (login_submit toLower) s = start_request r s)
      \<or> (\<exists>m. press_button (login_submit toLower) s = s\<lparr>f_error := m\<rparr>)"
    using nb by (intro submitted [of _ "LoginRequest (toLower (trim (af_email (fm_fields s))))
      (af_password (fm_fields s))"]) (simp_all add: press_button_def login_submit_def)
qed

interpretation register_form: form_flow "press_button (register_submit toLower)" account_request_ok for toLower
proof
  fix s :: "(account_fields, account_request) form"
  show "f_busy s \<Longrightarrow> press_button (register_submit toLower) s = s" by (simp add: press_button_def register_submit_def)
  assume nb: "\<not> f_busy s"
  show "(\<exists>r. account_request_ok r \<and> press_button (register_submit toLower) s = start_request r s)
      \<or> (\<exists>m. press_button (register_submit toLower) s = s\<lparr>f_error := m\<rparr>)"
  proof (cases "USERNAME_RE (trim (af_username (fm_fields s))) \<and> 8 \<le> length (af_password (fm_fields s))")
    case True
    then show ?thesis using nb
      by (intro submitted [of _ "RegisterRequest (trim (af_username (fm_fields s)))
            (toLower (trim (af_email (fm_fields s)))) (af_password (fm_fields s))"])
        (simp_all add: press_button_def register_submit_def)
  next
    case False
    then show ?thesis using nb
      by (intro refused [where m = "if USERNAME_RE (trim (af_username (fm_fields s))) then bad_password else bad_username"])
        (auto simp: press_button_def register_submit_def)
  qed
qed

section \<open>The invite\<close>

text \<open>
  \<open>InviteModal.jsx\<close>. The invite is requested when the dialog opens; an answer after it has closed
  changes nothing. \<open>iv_clipboard\<close> is what the clipboard was last given, by either way of copying.
\<close>

record invite_dialog =
  iv_code :: "string option"
  iv_error :: string
  iv_copied :: bool
  iv_cancelled :: bool
  iv_timers :: nat
  iv_clipboard :: "string option"

definition new_invite :: invite_dialog where
  "new_invite = \<lparr>iv_code = None, iv_error = '''', iv_copied = False, iv_cancelled = False,
     iv_timers = 0, iv_clipboard = None\<rparr>"

definition open_invite :: "string \<Rightarrow> client \<Rightarrow> invite_dialog \<times> client" where
  "open_invite guildId a = (new_invite, createInvite guildId a)"

definition invite_ok :: "string \<Rightarrow> invite_dialog \<Rightarrow> invite_dialog" where
  "invite_ok code d = (if iv_cancelled d then d else d\<lparr>iv_code := Some code\<rparr>)"

definition invite_err :: "string \<Rightarrow> invite_dialog \<Rightarrow> invite_dialog" where
  "invite_err message d = (if iv_cancelled d then d else d\<lparr>iv_error := message\<rparr>)"

definition copy_invite :: "invite_dialog \<Rightarrow> invite_dialog" where
  "copy_invite d = (case iv_code d of
     None \<Rightarrow> d
   | Some code \<Rightarrow> d\<lparr>iv_clipboard := Some code, iv_copied := True, iv_timers := iv_timers d + 1\<rparr>)"

definition copied_fades :: "invite_dialog \<Rightarrow> invite_dialog" where
  "copied_fades d = (if iv_timers d = 0 then d else d\<lparr>iv_copied := False, iv_timers := iv_timers d - 1\<rparr>)"

definition close_invite :: "invite_dialog \<Rightarrow> invite_dialog" where
  "close_invite d = d\<lparr>iv_cancelled := True\<rparr>"

lemma late_invite_ignored: "invite_ok c (close_invite d) = close_invite d \<and> invite_err m (close_invite d) = close_invite d"
  by (simp add: invite_ok_def invite_err_def close_invite_def)

lemma copied_has_timer:
  "(iv_copied d \<longrightarrow> 0 < iv_timers d) \<Longrightarrow>
   (iv_copied (copy_invite d) \<longrightarrow> 0 < iv_timers (copy_invite d))
   \<and> (iv_copied (copied_fades d) \<longrightarrow> 0 < iv_timers (copied_fades d))"
  by (auto simp: copy_invite_def copied_fades_def split: option.splits)

end
