(* ===== verification/Request_Paths.thy ===== *)
theory Request_Paths imports Chat_Async
begin

text \<open>
  The paths the client builds are read by a server that splits them at slashes and decodes the
  percent escapes of the segments. \<open>decodeURIComponent\<close> and \<open>segments\<close> are that reading; the lemmas
  show that it recovers what was put into a path, whatever characters an emoji, an invite code or a
  search contains.
\<close>

definition hexValue :: "char \<Rightarrow> nat option" where
  "hexValue c =
     (let n = of_char c :: nat
      in if 48 \<le> n \<and> n \<le> 57 then Some (n - 48)
         else if 65 \<le> n \<and> n \<le> 70 then Some (n - 55)
         else if 97 \<le> n \<and> n \<le> 102 then Some (n - 87)
         else None)"

fun decodeURIComponent :: "string \<Rightarrow> string option" where
  "decodeURIComponent [] = Some []"
| "decodeURIComponent (c # cs) =
     (if c = CHR ''%''
      then (case cs of
              a # b # rest \<Rightarrow>
                (case (hexValue a, hexValue b) of
                   (Some x, Some y) \<Rightarrow> map_option ((#) (char_of (16 * x + y))) (decodeURIComponent rest)
                 | _ \<Rightarrow> None)
            | _ \<Rightarrow> None)
      else map_option ((#) c) (decodeURIComponent cs))"

fun segments :: "string \<Rightarrow> string list" where
  "segments [] = [[]]"
| "segments (c # cs) =
     (if c = CHR ''/'' then [] # segments cs
      else (case segments cs of [] \<Rightarrow> [[c]] | s # ss \<Rightarrow> (c # s) # ss))"

lemma segments_ne: "segments s \<noteq> []"
  by (induction s) (auto split: list.splits)

lemma segments_plain: "CHR ''/'' \<notin> set s \<Longrightarrow> segments s = [s]"
  by (induction s) auto

lemma segments_slash: "CHR ''/'' \<notin> set s \<Longrightarrow> segments (s @ CHR ''/'' # rest) = s # segments rest"
  by (induction s) auto

lemma nibbles:
  "list_all (\<lambda>n. hexValue (hexDigit n) = Some n \<and> hexDigit n \<noteq> CHR ''/'' \<and> hexDigit n \<noteq> CHR ''?''
     \<and> hexDigit n \<noteq> CHR ''&'') [0..<16]"
  by code_simp

lemma hexValue_hexDigit: "n < 16 \<Longrightarrow> hexValue (hexDigit n) = Some n"
  using nibbles by (simp add: list_all_iff)

lemma hexDigit_plain: "n < 16 \<Longrightarrow> hexDigit n \<noteq> CHR ''/'' \<and> hexDigit n \<noteq> CHR ''?'' \<and> hexDigit n \<noteq> CHR ''&''"
  using nibbles by (simp add: list_all_iff)

lemma byte_halves: "(of_char c :: nat) div 16 < 16" "(of_char c :: nat) mod 16 < 16"
  by (rule less_mult_imp_div_less, simp) simp

lemma decode_encode: "decodeURIComponent (encodeURIComponent s) = Some s"
proof (induction s)
  case Nil
  then show ?case by (simp add: encodeURIComponent_def)
next
  case (Cons c s)
  show ?case
  proof (cases "unreserved c")
    case True
    then have "c \<noteq> CHR ''%''" by (auto simp: unreserved_def)
    then show ?thesis using Cons True by (simp add: encodeURIComponent_def)
  next
    case False
    have "16 * ((of_char c :: nat) div 16) + of_char c mod 16 = of_char c" by simp
    then show ?thesis using Cons False byte_halves [of c]
      by (simp add: encodeURIComponent_def hexValue_hexDigit)
  qed
qed

text \<open>An encoded text contains none of the characters that separate the parts of a path.\<close>

lemma encode_plain:
  "CHR ''/'' \<notin> set (encodeURIComponent s) \<and> CHR ''?'' \<notin> set (encodeURIComponent s)
   \<and> CHR ''&'' \<notin> set (encodeURIComponent s)"
proof (induction s)
  case Nil
  then show ?case by (simp add: encodeURIComponent_def)
next
  case (Cons c s)
  have "unreserved c \<Longrightarrow> c \<noteq> CHR ''/'' \<and> c \<noteq> CHR ''?'' \<and> c \<noteq> CHR ''&''"
    by (auto simp: unreserved_def)
  then show ?case using Cons hexDigit_plain [OF byte_halves(1), of c] hexDigit_plain [OF byte_halves(2), of c]
    by (auto simp: encodeURIComponent_def)
qed



end
