(* ===== verification/Ui_Store.thy ===== *)
theory Ui_Store imports Prelude
begin

text \<open>
  \<open>uiStore.js\<close> and the two handlers of \<open>AppShell.jsx\<close> that drive it: which slide-in drawer is open
  on a small screen. At most one drawer is open, whatever the user does.
\<close>

record ui =
  navOpen :: bool
  membersOpen :: bool

definition initial_ui :: ui where
  "initial_ui = \<lparr>navOpen = False, membersOpen = False\<rparr>"

definition openNav :: "ui \<Rightarrow> ui" where
  "openNav s = s\<lparr>navOpen := True, membersOpen := False\<rparr>"

definition closeNav :: "ui \<Rightarrow> ui" where
  "closeNav s = s\<lparr>navOpen := False\<rparr>"

definition toggleNav :: "ui \<Rightarrow> ui" where
  "toggleNav s = s\<lparr>navOpen := \<not> navOpen s, membersOpen := False\<rparr>"

definition openMembers :: "ui \<Rightarrow> ui" where
  "openMembers s = s\<lparr>membersOpen := True, navOpen := False\<rparr>"

definition closeMembers :: "ui \<Rightarrow> ui" where
  "closeMembers s = s\<lparr>membersOpen := False\<rparr>"

definition toggleMembers :: "ui \<Rightarrow> ui" where
  "toggleMembers s = s\<lparr>membersOpen := \<not> membersOpen s, navOpen := False\<rparr>"

definition closeDrawers :: "ui \<Rightarrow> ui" where
  "closeDrawers s = s\<lparr>navOpen := False, membersOpen := False\<rparr>"

text \<open>
  The gestures. \<open>touchRef\<close> holds the point where the last touch on a drawer began; \<open>changedTouches[0]\<close>
  is where it ended, and each drawer closes towards its own edge.
\<close>

datatype direction = Left | Right

definition SWIPE_THRESHOLD :: int where
  "SWIPE_THRESHOLD = 50"

record shell =
  ui_state :: ui
  touchRef :: "(int \<times> int) option"
  shown_guild :: "string option"
  shown_channel :: "string option"

definition onTouchStart :: "int \<times> int \<Rightarrow> shell \<Rightarrow> shell" where
  "onTouchStart pt sh = sh\<lparr>touchRef := Some pt\<rparr>"

definition swipeClose :: "int \<times> int \<Rightarrow> direction \<Rightarrow> shell \<Rightarrow> shell" where
  "swipeClose pt dir sh =
     (let sh' = sh\<lparr>touchRef := None\<rparr>
      in case touchRef sh of
           None \<Rightarrow> sh'
         | Some start \<Rightarrow>
             (let dx = fst pt - fst start; dy = snd pt - snd start
              in if \<bar>dx\<bar> < SWIPE_THRESHOLD \<or> \<bar>dx\<bar> \<le> \<bar>dy\<bar> then sh'
                 else if (dir = Left \<and> dx < 0) \<or> (dir = Right \<and> 0 < dx)
                 then sh'\<lparr>ui_state := closeDrawers (ui_state sh')\<rparr> else sh'))"

text \<open>The \<open>keydown\<close> listener and the effect that runs when the selection changes.\<close>

definition shell_onKey :: "string \<Rightarrow> shell \<Rightarrow> shell" where
  "shell_onKey key sh = (if key = ''Escape'' then sh\<lparr>ui_state := closeDrawers (ui_state sh)\<rparr> else sh)"

definition onSelection :: "string option \<Rightarrow> string option \<Rightarrow> shell \<Rightarrow> shell" where
  "onSelection g c sh =
     (let sh' = sh\<lparr>shown_guild := g, shown_channel := c\<rparr>
      in if shown_guild sh = g \<and> shown_channel sh = c then sh'
         else sh'\<lparr>ui_state := closeDrawers (ui_state sh)\<rparr>)"

text \<open>
  The other \<open>keydown\<close> listener, Alt+L. It answers whether the key strikes lightning: not while
  typing in a field.
\<close>

record key_event =
  k_key :: string
  k_alt :: bool
  k_ctrl :: bool
  k_meta :: bool
  k_target_tag :: string
  k_editable :: bool

definition strikes_lightning :: "key_event \<Rightarrow> bool" where
  "strikes_lightning e \<longleftrightarrow>
     (k_alt e \<and> \<not> k_ctrl e \<and> \<not> k_meta e \<and> (k_key e = ''l'' \<or> k_key e = ''L''))
     \<and> \<not> (k_target_tag e = ''INPUT'' \<or> k_target_tag e = ''TEXTAREA'' \<or> k_editable e)"

datatype ui_event =
    OpenNav | CloseNav | ToggleNav | OpenMembers | CloseMembers | ToggleMembers | CloseDrawers
  | TouchStart "int \<times> int" | TouchEnd "int \<times> int" direction | ShellKey string
  | Select "string option" "string option"

fun ui_step :: "ui_event \<Rightarrow> shell \<Rightarrow> shell" where
  "ui_step OpenNav sh = sh\<lparr>ui_state := openNav (ui_state sh)\<rparr>"
| "ui_step CloseNav sh = sh\<lparr>ui_state := closeNav (ui_state sh)\<rparr>"
| "ui_step ToggleNav sh = sh\<lparr>ui_state := toggleNav (ui_state sh)\<rparr>"
| "ui_step OpenMembers sh = sh\<lparr>ui_state := openMembers (ui_state sh)\<rparr>"
| "ui_step CloseMembers sh = sh\<lparr>ui_state := closeMembers (ui_state sh)\<rparr>"
| "ui_step ToggleMembers sh = sh\<lparr>ui_state := toggleMembers (ui_state sh)\<rparr>"
| "ui_step CloseDrawers sh = sh\<lparr>ui_state := closeDrawers (ui_state sh)\<rparr>"
| "ui_step (TouchStart pt) sh = onTouchStart pt sh"
| "ui_step (TouchEnd pt dir) sh = swipeClose pt dir sh"
| "ui_step (ShellKey k) sh = shell_onKey k sh"
| "ui_step (Select g c) sh = onSelection g c sh"

definition one_drawer :: "shell \<Rightarrow> bool" where
  "one_drawer sh \<longleftrightarrow> \<not> (navOpen (ui_state sh) \<and> membersOpen (ui_state sh))"

lemmas ui_op_defs = openNav_def closeNav_def toggleNav_def openMembers_def closeMembers_def
  toggleMembers_def closeDrawers_def onTouchStart_def swipeClose_def shell_onKey_def onSelection_def

lemma one_drawer_step: "one_drawer sh \<Longrightarrow> one_drawer (ui_step e sh)"
  by (cases e) (auto simp: one_drawer_def ui_op_defs Let_def split: option.splits)

interpretation ui_runs: invariant_steps ui_step one_drawer "\<lambda>_. True"
  by unfold_locales (rule one_drawer_step)

text \<open>
  A touch closes a drawer exactly when it travels at least 50 pixels towards the drawer's edge and
  further across than along; every touch end forgets its start, so no later one reuses it.
\<close>

lemma swipe_closes_iff:
  "touchRef sh = Some (x0, y0) \<Longrightarrow> navOpen (ui_state sh) \<Longrightarrow>
   \<not> navOpen (ui_state (swipeClose (x, y) Left sh)) \<longleftrightarrow> 50 \<le> x0 - x \<and> \<bar>y - y0\<bar> < x0 - x"
  by (auto simp: swipeClose_def SWIPE_THRESHOLD_def closeDrawers_def Let_def abs_if)

lemma swipe_closes_members_iff:
  "touchRef sh = Some (x0, y0) \<Longrightarrow> membersOpen (ui_state sh) \<Longrightarrow>
   \<not> membersOpen (ui_state (swipeClose (x, y) Right sh)) \<longleftrightarrow> 50 \<le> x - x0 \<and> \<bar>y - y0\<bar> < x - x0"
  by (auto simp: swipeClose_def SWIPE_THRESHOLD_def closeDrawers_def Let_def abs_if)

lemma swipe_forgets: "touchRef (swipeClose pt dir sh) = None"
  by (auto simp: swipeClose_def Let_def split: option.splits)

lemma selection_closes:
  "shown_channel sh \<noteq> c \<Longrightarrow> ui_state (onSelection g c sh) = initial_ui"
  by (simp add: onSelection_def closeDrawers_def initial_ui_def Let_def)

end
