(* ===== verification/Guild_View.thy ===== *)
theory Guild_View imports Chat_Async Voice_Store Ui_Store "HOL-Library.Sorting_Algorithms"
begin

text \<open>
  What a guild shows: \<open>ChannelSidebar.jsx\<close>, \<open>MemberList.jsx\<close>, \<open>MobileTopBar.jsx\<close>, \<open>GuildRail.jsx\<close> and
  \<open>VoiceStage.jsx\<close>, and which of them \<open>AppShell.jsx\<close> renders. The comparison of two names by the locale
  (\<open>localeCompare\<close>) is a parameter; its type says that it is a total preorder. \<open>Array.prototype.sort\<close>
  is a stable sort, the \<open>sort\<close> of the library.
\<close>

section \<open>Channels\<close>

definition find_guild :: "chat \<Rightarrow> guild option" where
  "find_guild s = List.find (\<lambda>g. Some (g_id g) = selectedGuildId s) (guilds s)"

definition sidebar_channels :: "chat \<Rightarrow> channel list" where
  "sidebar_channels s = (if truthy (selectedGuildId s)
     then or_empty (oget (channelsByGuild s) (the (selectedGuildId s))) else [])"

definition textChannels :: "channel list \<Rightarrow> channel list" where
  "textChannels cs = filter (\<lambda>c. ch_type c \<noteq> ''voice'') cs"

definition voiceChannels :: "channel list \<Rightarrow> channel list" where
  "voiceChannels cs = filter (\<lambda>c. ch_type c = ''voice'') cs"

definition isOwner :: "user option \<Rightarrow> chat \<Rightarrow> bool" where
  "isOwner me s = (case find_guild s of None \<Rightarrow> False | Some g \<Rightarrow> is_me me (g_owner_id g))"

definition channel_active :: "chat \<Rightarrow> voice \<Rightarrow> channel \<Rightarrow> bool" where
  "channel_active s v c \<longleftrightarrow> Some (ch_id c) = selectedChannelId s \<and> \<not> viewVoiceStage v"

text \<open>A click on a text channel, and on a voice channel.\<close>

definition openTextChannel :: "string \<Rightarrow> client \<times> voice \<times> ui \<Rightarrow> client \<times> voice \<times> ui" where
  "openTextChannel i w = (case w of (a, v, u) \<Rightarrow>
     (selectChannel (Some i) a, v\<lparr>viewVoiceStage := False\<rparr>, closeNav u))"

definition openVoiceChannel :: "string \<Rightarrow> string \<Rightarrow> client \<times> voice \<times> ui \<Rightarrow> client \<times> voice \<times> ui" where
  "openVoiceChannel c g w = (case w of (a, v, u) \<Rightarrow> (a, join c g v, closeNav u))"

definition inHere :: "voice \<Rightarrow> channel \<Rightarrow> bool" where
  "inHere v c \<longleftrightarrow> roomChannelId v = Some (ch_id c) \<and> (vconnected v \<or> vconnecting v)"

definition voice_active :: "voice \<Rightarrow> channel \<Rightarrow> bool" where
  "voice_active v c \<longleftrightarrow> inHere v c \<and> viewVoiceStage v"

definition voice_members :: "voice \<Rightarrow> channel \<Rightarrow> (descriptor \<times> bool) list" where
  "voice_members v c = (if inHere v c
     then map (\<lambda>p. (p, ds_isSpeaking p \<and> ds_micEnabled p)) (participants v) else [])"

lemma channels_split:
  "set (textChannels cs) \<union> set (voiceChannels cs) = set cs \<and> set (textChannels cs) \<inter> set (voiceChannels cs) = {}
   \<and> length (textChannels cs) + length (voiceChannels cs) = length cs"
  using sum_length_filter_compl [of "\<lambda>c. ch_type c \<noteq> ''voice''" cs]
  by (auto simp: textChannels_def voiceChannels_def)

text \<open>No channel is drawn as active beside another kind, and no two voice channels are.\<close>

lemma one_kind_active: "channel_active s v c \<Longrightarrow> \<not> voice_active v c'"
  by (simp add: channel_active_def voice_active_def)

lemma voice_active_unique: "voice_active v c \<Longrightarrow> voice_active v c' \<Longrightarrow> ch_id c = ch_id c'"
  by (simp add: voice_active_def inHere_def)

lemma open_text_shows_it:
  "openTextChannel i (a, v, u) = (a', v', u') \<Longrightarrow> ch_id c = i \<Longrightarrow>
   channel_active (chat a') v' c \<and> \<not> navOpen u'"
  by (auto simp: openTextChannel_def channel_active_def closeNav_def selectChannel_def loadMessages_def
      setc_def call_def Let_def split: option.splits)

section \<open>Members\<close>

definition sort_members :: "string comparator \<Rightarrow> gmember list \<Rightarrow> gmember list" where
  "sort_members localeCompare ms = Sorting_Algorithms.sort (key mb_username localeCompare) ms"

definition online_members :: "string comparator \<Rightarrow> gmember list \<Rightarrow> gmember list" where
  "online_members cmp ms = sort_members cmp (filter (\<lambda>m. mb_status m = ''online'') ms)"

definition offline_members :: "string comparator \<Rightarrow> gmember list \<Rightarrow> gmember list" where
  "offline_members cmp ms = sort_members cmp (filter (\<lambda>m. mb_status m \<noteq> ''online'') ms)"

definition member_groups :: "string comparator \<Rightarrow> chat \<Rightarrow> (string \<times> gmember list) list" where
  "member_groups cmp s =
     (if find_guild s = None then []
      else (let ms = (if truthy (selectedGuildId s)
                      then or_empty (oget (membersByGuild s) (the (selectedGuildId s))) else []);
                on = online_members cmp ms; off = offline_members cmp ms
            in filter (\<lambda>(l, g). g \<noteq> [])
                 [(''Online '' @ [CHR 0xE2, CHR 0x80, CHR 0x94, CHR 0x20] @ showNat (length on), on),
                  (''Offline '' @ [CHR 0xE2, CHR 0x80, CHR 0x94, CHR 0x20] @ showNat (length off), off)]))"

lemma members_shown_once: "mset (online_members cmp ms @ offline_members cmp ms) = mset ms"
  by (simp add: online_members_def offline_members_def sort_members_def multiset_partition [symmetric])

lemma members_sorted:
  "Sorting_Algorithms.sorted (key mb_username cmp) (online_members cmp ms)
   \<and> Sorting_Algorithms.sorted (key mb_username cmp) (offline_members cmp ms)"
  by (simp add: online_members_def offline_members_def sort_members_def)

lemma members_status:
  "m \<in> set (online_members cmp ms) \<Longrightarrow> mb_status m = ''online''"
  "m \<in> set (offline_members cmp ms) \<Longrightarrow> mb_status m \<noteq> ''online''"
  by (simp_all add: online_members_def offline_members_def sort_members_def)

text \<open>Members with the same name keep the order of the list.\<close>

lemma members_stable:
  "filter (\<lambda>y. compare (key mb_username cmp) x y = Equiv) (online_members cmp ms)
   = filter (\<lambda>y. compare (key mb_username cmp) x y = Equiv) (filter (\<lambda>m. mb_status m = ''online'') ms)"
  by (simp only: online_members_def sort_members_def stable_sort)

section \<open>The stage\<close>

definition voiceView :: "voice \<Rightarrow> bool" where
  "voiceView v \<longleftrightarrow> viewVoiceStage v \<and> (vconnected v \<or> vconnecting v)"

definition find_channel :: "chat \<Rightarrow> string option \<Rightarrow> string option \<Rightarrow> channel option" where
  "find_channel s g c = (if truthy g
     then List.find (\<lambda>x. Some (ch_id x) = c) (or_empty (oget (channelsByGuild s) (the g))) else None)"

definition top_title :: "chat \<Rightarrow> voice \<Rightarrow> string" where
  "top_title s v =
     (let ch = (if voiceView v then find_channel s (roomGuildId v) (roomChannelId v)
                else if truthy (selectedChannelId s) then find_channel s (selectedGuildId s) (selectedChannelId s)
                else None)
      in case ch of Some c \<Rightarrow> ch_name c
         | None \<Rightarrow> (case find_guild s of Some g \<Rightarrow> g_name g | None \<Rightarrow> ''Discurd''))"

definition stage_title :: "chat \<Rightarrow> voice \<Rightarrow> string" where
  "stage_title s v = (case find_channel s (roomGuildId v) (roomChannelId v) of
     Some c \<Rightarrow> ch_name c | None \<Rightarrow> ''Voice'')"

datatype stage_body = ConnectingNote | Grid "descriptor list"

definition stage_shows :: "voice \<Rightarrow> stage_body" where
  "stage_shows v = (if vconnecting v \<and> participants v = [] then ConnectingNote else Grid (participants v))"

text \<open>
  A tile's effect, run whenever the participant or the media version changes: the clean-up of the
  last run detaches its track, then the track to display, if any, is attached.
\<close>

datatype track_op = Attach nat | Detach nat

record tile =
  tl_attached :: "nat option"
  tl_active :: bool
  tl_isScreen :: bool
  tl_ops :: "track_op list"

definition tile_cleanup :: "tile \<Rightarrow> tile" where
  "tile_cleanup t = (case tl_attached t of None \<Rightarrow> t
     | Some x \<Rightarrow> t\<lparr>tl_attached := None, tl_ops := tl_ops t @ [Detach x]\<rparr>)"

definition tile_effect :: "string \<Rightarrow> voice \<Rightarrow> tile \<Rightarrow> tile" where
  "tile_effect identity v t =
     (let t1 = tile_cleanup t
      in case getDisplayTrack identity v of
           Some (x, scr) \<Rightarrow> t1\<lparr>tl_attached := Some x, tl_active := True, tl_isScreen := scr,
                              tl_ops := tl_ops t1 @ [Attach x]\<rparr>
         | None \<Rightarrow> t1\<lparr>tl_active := False, tl_isScreen := False\<rparr>)"

text \<open>Attached minus detached, per track.\<close>

definition holds :: "nat \<Rightarrow> track_op list \<Rightarrow> int" where
  "holds x ops = int (count_list ops (Attach x)) - int (count_list ops (Detach x))"

definition tile_inv :: "tile \<Rightarrow> bool" where
  "tile_inv t \<longleftrightarrow> (\<forall>x. holds x (tl_ops t) = (if tl_attached t = Some x then 1 else 0))
     \<and> tl_active t = (tl_attached t \<noteq> None)"

lemma holds_append [simp]:
  "holds x (ops @ [Attach y]) = holds x ops + (if x = y then 1 else 0)"
  "holds x (ops @ [Detach y]) = holds x ops - (if x = y then 1 else 0)"
  by (simp_all add: holds_def)

lemma tile_unmount_releases: "tile_inv t \<Longrightarrow> holds x (tl_ops (tile_cleanup t)) = 0"
  by (cases "tl_attached t") (simp_all add: tile_inv_def tile_cleanup_def)

lemma tile_cleanup_attached: "tl_attached (tile_cleanup t) = None"
  by (cases "tl_attached t") (simp_all add: tile_cleanup_def)

lemma tile_effect_inv:
  assumes "tile_inv t"
  shows "tile_inv (tile_effect i v t)"
proof (cases "getDisplayTrack i v")
  case None
  then show ?thesis using tile_unmount_releases [OF assms]
    by (simp add: tile_inv_def tile_effect_def tile_cleanup_attached Let_def)
next
  case (Some p)
  then show ?thesis using tile_unmount_releases [OF assms]
    by (cases p) (simp add: tile_inv_def tile_effect_def Let_def)
qed

text \<open>
  The audio sinks are children of the stage, so what is heard of the others is heard only while the
  stage is on screen: opening a text channel during a call silences the call.
\<close>

definition heard :: "voice \<Rightarrow> nat list" where
  "heard v = (if voiceView v then map snd (getRemoteAudioTracks v) else [])"

lemma text_channel_silences_call:
  "openTextChannel i (a, v, u) = (a', v', u') \<Longrightarrow>
   heard v' = [] \<and> vconnected v' = vconnected v \<and> getRemoteAudioTracks v' = getRemoteAudioTracks v"
  by (auto simp: openTextChannel_def heard_def voiceView_def getRemoteAudioTracks_def split: option.splits)

end
