(* ===== verification/View_Properties.thy ===== *)
theory View_Properties
  imports Composer Message_View Gif_Picker Profile_Card Effects_Overlay Forms Request_Paths Guild_View
begin

text \<open>
  What the components of the user interface promise: the composer, the links of attachments, the GIF
  panel, the profile card, the effects overlay, signing out, and the forms. Each property rests on the
  invariant its component's theory proves for all runs.
\<close>

section \<open>Composing and reading messages\<close>


text \<open>
  C30: an attachment becomes a link only to its own URL, and only if that is an object of this server
  (a path under \<open>/files/\<close> without two dots in a row) or a GIF served over https by Tenor or Giphy or
  one of their subdomains; every other attachment is shown without a link.
\<close>
theorem attachment_links_safe:
  assumes "view_link (attachmentView parse_url b att) = Some u"
  shows "u = at_url att \<and>
    ((\<exists>p. u = ''/files/'' @ p) \<and> \<not> (\<exists>x y. u = x @ ''..'' @ y)
     \<or> at_content_type att = ''image/gif''
       \<and> (\<exists>host. parse_url u = Some (''https:'', host)
            \<and> (\<exists>d \<in> {''tenor.com'', ''giphy.com''}. map lower host = d \<or> (\<exists>s. map lower host = s @ ''.'' @ d))))"
proof -
  have s: "safeAttachmentURL parse_url att = Some u" using assms by (simp add: view_link_safe)
  show ?thesis
  proof (cases "startsWith ''/files/'' (at_url att) \<and> \<not> includesText ''..'' (at_url att)")
    case True
    then have "u = at_url att" using s by (simp add: safeAttachmentURL_def)
    then show ?thesis using True by (simp only: startsWith_append includes_append) blast
  next
    case False
    then obtain host where "u = at_url att" "at_content_type att = ''image/gif''"
      "parse_url u = Some (''https:'', host)" "GIF_HOST_RE host"
      using s by (auto simp: safeAttachmentURL_def Let_def split: if_splits option.splits)
    then show ?thesis by (auto simp: GIF_HOST_RE_def endsWith_append)
  qed
qed

definition gif_file :: attachment where
  "gif_file = \<lparr>at_url = ''https://media.tenor.com/a.gif'', at_filename = ''a.gif'', at_size = 1,
     at_content_type = ''image/gif''\<rparr>"

lemma attachment_links_safe_witness:
  "let p = (\<lambda>u. if u = at_url gif_file then Some (''https:'', ''media.tenor.com'') else None)
   in view_link (attachmentView p False gif_file) = Some (at_url gif_file)
     \<and> (\<exists>host. p (at_url gif_file) = Some (''https:'', host)
          \<and> (\<exists>d \<in> {''tenor.com'', ''giphy.com''}. map lower host = d \<or> (\<exists>s. map lower host = s @ ''.'' @ d)))"
proof -
  define p where "p = (\<lambda>u. if u = at_url gif_file then Some (''https:'', ''media.tenor.com'') else None)"
  have g: "GIF_HOST_RE ''media.tenor.com''" by (rule tenor_host)
  have w: "view_link (attachmentView p False gif_file) = Some (at_url gif_file)"
    by (simp add: view_link_safe safeAttachmentURL_def p_def g, simp add: g gif_file_def startsWith_def)
  have "\<not> (\<exists>q. at_url gif_file = ''/files/'' @ q)" by (simp add: gif_file_def)
  then show ?thesis using attachment_links_safe [OF w] w by (simp add: p_def Let_def)
qed

text \<open>
  What the GIF panel shows is never stale: after any typing, timers and answers in any order, a
  grid, an empty result or an error is the answer to the request for the text now in the field, and
  while the panel says that it is loading the request for that text is scheduled or under way.
\<close>
theorem gif_panel_current:
  "let g = fold picker_step es open_picker; answered = (\<lambda>r. (gp_run g, gif_path (gp_query g), r) \<in> set (gp_answers g))
   in case panel_shows g of
        GifsLoading \<Rightarrow> gp_timer g = Some (gif_delay (gp_query g), gif_path (gp_query g))
          \<or> (gp_run g, gif_path (gp_query g)) \<in> set (gp_flight g)
      | GifsFailed \<Rightarrow> answered None
      | NoResults \<Rightarrow> answered (Some [])
      | GifGrid xs \<Rightarrow> answered (Some xs)"
proof -
  define g where "g = fold picker_step es open_picker"
  have i: "picker_inv g" unfolding g_def
    by (rule picker_runs.run [OF picker_inv_open]) simp
  show ?thesis
  proof (cases "gp_loading g")
    case True
    then have "gp_timer g = Some (gif_delay (gp_query g), gif_path (gp_query g))
        \<or> (gp_run g, gif_path (gp_query g)) \<in> set (gp_flight g)"
      using i by (cases "gp_timer g") (auto simp: picker_inv_def list_all_iff)
    then show ?thesis using True by (simp add: g_def [symmetric] panel_shows_def Let_def)
  next
    case False
    then obtain r where r: "(gp_run g, gif_path (gp_query g), r) \<in> set (gp_answers g)"
      "gp_error g = (r = None)" "gp_results g = or_empty r"
      using i by (auto simp: picker_inv_def shows_answer_def)
    show ?thesis using False r
      by (cases r) (auto simp: g_def [symmetric] panel_shows_def Let_def)
  qed
qed

section \<open>The profile card\<close>

text \<open>
  C31: an open profile card is never blank and never shows two things: in every run its body is one
  block, which is the loading line only while the profile's request is outstanding (and each request
  is sent once), the error line only after a failure, or a profile, whose accent is always a
  six-digit colour and whose edit button appears on the user's own card only.
\<close>
theorem profile_card_complete:
  assumes "list_all unforced es" and "st = fold profile_step es initial_profiles" and "p_open st = Some (u, r)"
  shows "\<exists>x. card_sections me s st = [x] \<and> distinct (p_requests st)
    \<and> (case x of
         LoadingLine \<Rightarrow> u \<in> set (p_requests st)
       | ErrorLine \<Rightarrow> flag (p_errored st) u \<and> u \<notin> set (p_requests st)
       | ProfileBody p accent online editable \<Rightarrow> HEX_RE accent \<and> editable = is_me me u
           \<and> (oget (profiles st) u = Some p \<or> is_me me u \<and> me = Some p))"
proof -
  have i: "profile_inv st"
    unfolding assms(2) by (rule profile_runs.run [OF profile_inv_initial assms(1)])
  have "length (card_sections me s st) = 1"
    by (rule card_one_section [OF i]) (simp add: assms(3))
  then obtain x where x: "card_sections me s st = [x]"
    by (auto simp: length_Suc_conv)
  then have "case x of
         LoadingLine \<Rightarrow> u \<in> set (p_requests st)
       | ErrorLine \<Rightarrow> flag (p_errored st) u \<and> u \<notin> set (p_requests st)
       | ProfileBody p accent online editable \<Rightarrow> HEX_RE accent \<and> editable = is_me me u
           \<and> (oget (profiles st) u = Some p \<or> is_me me u \<and> me = Some p)"
    using i assms(3)
    by (auto simp: card_sections_def card_profile_def profile_inv_def accent_safe Let_def
        split: option.splits if_splits card_section.splits)
  then show ?thesis using x i by (simp add: profile_inv_def)
qed

definition any_rect :: rect where
  "any_rect = \<lparr>r_top = 10, r_bottom = 30, r_left = 100, r_right = 140\<rparr>"

lemma profile_card_complete_witness:
  "\<exists>x. card_sections None initial_chat (fold profile_step [OpenCard (Some ''u'') any_rect] initial_profiles) = [x]"
proof -
  define st where "st = fold profile_step [OpenCard (Some ''u'') any_rect] initial_profiles"
  have "p_open st = Some (''u'', any_rect)"
    by (simp add: st_def openCard_def fetch_profile_def initial_profiles_def)
  then show ?thesis
    using profile_card_complete [OF _ st_def, of "''u''" any_rect None initial_chat] by (auto simp: st_def)
qed

text \<open>
  The card stays on the screen: on a window at least 336 pixels wide and 16 pixels higher than the
  card, beside an anchor that begins inside the window, it keeps a margin of eight pixels on every
  side, and it does not cover the anchor when there is room for it on the right or on the left.
\<close>
theorem card_on_screen:
  assumes "place_card r hgt vw vh = (x, y)"
    and "336 \<le> vw" "real hgt + 16 \<le> vh" "0 < hgt" "0 \<le> r_left r" "r_left r \<le> r_right r" "r_left r \<le> vw"
  shows "8 \<le> x \<and> x + 320 \<le> vw - 8 \<and> 8 \<le> y \<and> y + real hgt \<le> vh - 8
    \<and> (r_right r + 336 \<le> vw \<or> 336 \<le> r_left r \<longrightarrow> x + 320 \<le> r_left r \<or> r_right r \<le> x)"
proof -
  have "x = fst (place_card r hgt vw vh)" "y = snd (place_card r hgt vw vh)" using assms(1) by simp_all
  moreover have "0 \<le> r_right r" using assms(5,6) by simp
  ultimately show ?thesis
    using place_card_margins [of r hgt vw vh] place_card_right [OF assms(2,7), of hgt vh]
      place_card_bottom [OF assms(4,3), of r vw] place_card_beside [OF _ assms(6), of vw hgt vh]
    by (auto simp: CARD_W_def)
qed

lemma card_on_screen_witness:
  "\<exists>x y. place_card any_rect 300 1000 800 = (x, y) \<and> 8 \<le> x \<and> x + 320 \<le> 992 \<and> 140 \<le> x \<and> y + 300 \<le> 792"
proof -
  obtain x y where p: "place_card any_rect 300 1000 800 = (x, y)" by fastforce
  then have "140 \<le> x"
    by (auto simp: place_card_def any_rect_def CARD_W_def GAP_def Let_def)
  moreover have "8 \<le> x \<and> x + 320 \<le> 1000 - 8 \<and> 8 \<le> y \<and> y + real 300 \<le> 800 - 8
    \<and> (r_right any_rect + 336 \<le> 1000 \<or> 336 \<le> r_left any_rect \<longrightarrow> x + 320 \<le> r_left any_rect \<or> r_right any_rect \<le> x)"
    by (rule card_on_screen [OF p]) (simp_all add: any_rect_def)
  ultimately show ?thesis using p by (intro exI [of _ x] exI [of _ y]) simp
qed

section \<open>Effects\<close>

text \<open>
  C32: the animation ends: in every run of the overlay a frame is requested while an effect or the
  storm is active, and six seconds of frames (each counting at most 50 ms) after the storm is off,
  with nothing new played, every effect is gone and no frame is requested any more.
\<close>
theorem effects_stop:
  assumes "unit_stream rng" and "v = fold overlay_step es (mount media d w h rng)"
  shows "(active v \<longrightarrow> ov_raf v) \<and>
    (ov_storm v = None \<and> list_all (\<lambda>e. 0 \<le> effect_age e) (ov_effects v)
      \<and> 6000 \<le> sum_list (frame_dts (ov_lastTs v) tss)
     \<longrightarrow> ov_effects (run_frames tss v) = [] \<and> \<not> ov_raf (run_frames tss v))"
proof -
  have i: "overlay_inv v"
    unfolding assms(2) by (rule overlay_runs.run [OF overlay_inv_mount [OF assms(1)]]) simp
  then have "active v \<longrightarrow> ov_raf v" by (simp add: overlay_inv_def)
  then show ?thesis using six_seconds_of_frames [OF i, of tss] by blast
qed

lemma effects_stop_witness:
  "let v = fold overlay_step [Play ''snow'' 1 None False] (mount None None 0 0 (sconst (1 / 2)))
   in ov_effects v \<noteq> [] \<and> ov_effects (run_frames (steady 1 50 120) v) = []
     \<and> \<not> ov_raf (run_frames (steady 1 50 120) v)"
proof -
  define v where "v = fold overlay_step [Play ''snow'' 1 None False] (mount None None 0 0 (sconst (1 / 2)))"
  have u: "unit_stream (sconst (1 / 2 :: real))" by (rule unit_stream_sconst) simp_all
  have e: "ov_effects v = [Snow \<lparr>sn_age = 0, sn_parts = []\<rparr>]" "ov_storm v = None" "ov_lastTs v = 1"
    by (simp_all add: v_def play_def mount_def resize_def makeEffect_def new_snow_def count_of_def
        ensureLoop_def Let_def)
  have "6000 \<le> sum_list (frame_dts (ov_lastTs v) (steady 1 50 120))"
    using steady_dts [of 1 50 120] by (simp add: e)
  then have "ov_effects (run_frames (steady 1 50 120) v) = [] \<and> \<not> ov_raf (run_frames (steady 1 50 120) v)"
    using effects_stop [OF u v_def, of "steady 1 50 120"] e by simp
  then show ?thesis using e by (simp add: v_def Let_def)
qed

text \<open>
  C33: every frame of every effect draws within the canvas's discipline: the states it saves it
  restores, every alpha it sets lies between 0 and 1, the effect grows older by the elapsed time and
  keeps its particles, and it reports that it is alive exactly while it is younger than its life.
\<close>
theorem frame_well_drawn:
  assumes "unit_stream s" and "run_state (update_effect dt w h e) s = ((ops, e', alive), s')"
    and "0 \<le> effect_age e + dt"
  shows "balanced_ops ops \<and> list_all alpha_ok ops \<and> effect_age e' = effect_age e + dt
    \<and> effect_parts e' = effect_parts e \<and> (alive \<longleftrightarrow> effect_age e' < effect_life e) \<and> unit_stream s'"
  using returnsD [OF effect_frame assms(1,2)] assms(3) by (auto simp: frame_ok_def)

lemma frame_well_drawn_witness:
  "\<exists>ops e' alive s'. run_state (update_effect 16 100 100 (Snow \<lparr>sn_age = 5990, sn_parts = []\<rparr>)) (sconst 0)
      = ((ops, e', alive), s') \<and> balanced_ops ops \<and> effect_age e' = 6006 \<and> \<not> alive"
proof -
  have u: "unit_stream (sconst (0 :: real))" by (rule unit_stream_sconst) simp_all
  obtain ops e' alive s' where r:
    "run_state (update_effect 16 100 100 (Snow \<lparr>sn_age = 5990, sn_parts = []\<rparr>)) (sconst 0) = ((ops, e', alive), s')"
    by (metis surj_pair)
  have "balanced_ops ops \<and> effect_age e' = 6006 \<and> \<not> alive"
    using frame_well_drawn [OF u r] by (simp add: snow_life_def)
  then show ?thesis using r by blast
qed

section \<open>Signing out, signing in, creating\<close>

text \<open>
  C35: signing out always completes: if no token can be had, if there is no refresh token, and after
  the logout request has been answered in any way, the session is gone from memory and storage, the
  gateway is stopped with nothing scheduled, the chat store is in its initial state and the guard of
  the routes leads to the login page; until then the request carries the refresh token, which is
  still in place.
\<close>
theorem logout_is_complete:
  "signed_out (logout_finish s)
   \<and> requireAuth False (fst (tab (si_api (logout_finish s)))) = LoginRedirect
   \<and> logout_token n (Inl e) s = (LoggedOut, logout_finish s)
   \<and> logout_posted res s = (LoggedOut, logout_finish s)
   \<and> (case logout_token n (Inr t) s of
        (LoggedOut, s') \<Rightarrow> s' = logout_finish s
      | (AwaitPost k, s') \<Rightarrow> k = n \<and> tab (si_api s') = tab (si_api s)
          \<and> pendings (si_api s') = pendings (si_api s)
              @ [api_post n ''/auth/logout'' (logout_body (the (refreshToken (fst (tab (si_api s))))))]
      | (AwaitToken k, s') \<Rightarrow> False)"
proof -
  have f: "signed_out (logout_finish s)" by (rule finish_signed_out)
  then have "requireAuth False (fst (tab (si_api (logout_finish s)))) = LoginRedirect"
    by (simp add: signed_out_def requireAuth_def)
  then show ?thesis using f
    by (simp add: logout_token_def logout_posted_def run_fetch_def Let_def)
qed


end
