(* ===== verification/Session_Boot.thy ===== *)
theory Session_Boot imports Api_Client
begin

text \<open>
  The session bootstrap of \<open>RequireAuth\<close> in \<open>App.jsx\<close>: after a reload only the refresh token is
  left, so an effect obtains an access token and asks who the user is. React runs the effect again
  whenever the user or the refresh token has changed, after the cleanup of its previous run, which
  cancels what that run still awaits. The awaits are settled by the environment in any order, and
  other code of the tab changes the session in between. The invariant says that the boot screen is
  never the end: while it is shown, a call that is not cancelled is outstanding.
\<close>

section \<open>The effect\<close>

datatype boot_await = AwaitRefresh nat | AwaitMe nat

fun await_run :: "boot_await \<Rightarrow> nat" where
  "await_run (AwaitRefresh n) = n"
| "await_run (AwaitMe n) = n"

type_synonym boot_deps = "user option \<times> string option"

record boot =
  bo_tab :: tab
  bo_failed :: bool
  bo_run :: nat
  bo_deps :: "boot_deps option"
  bo_awaits :: "boot_await list"

definition deps_of :: "boot \<Rightarrow> boot_deps" where
  "deps_of s = (au_user (fst (bo_tab s)), refreshToken (fst (bo_tab s)))"

text \<open>The body of the effect; the run's number stands for its \<open>cancelled\<close> variable.\<close>

definition boot_body :: "boot \<Rightarrow> boot" where
  "boot_body s =
     (if \<not> bootstraps (fst (bo_tab s)) then s
      else s\<lparr>bo_awaits := bo_awaits s @
               [if truthy (accessToken (fst (bo_tab s))) then AwaitMe (bo_run s)
                else AwaitRefresh (bo_run s)]\<rparr>)"

definition boot_effect :: "boot \<Rightarrow> boot" where
  "boot_effect s =
     (if bo_deps s = Some (deps_of s) then s
      else boot_body (s\<lparr>bo_run := bo_run s + 1, bo_deps := Some (deps_of s)\<rparr>))"

definition boot_cancelled :: "boot \<Rightarrow> nat \<Rightarrow> bool" where
  "boot_cancelled s n \<longleftrightarrow> n \<noteq> bo_run s"

text \<open>What follows the awaits.\<close>

definition boot_refreshed :: "nat \<Rightarrow> boot \<Rightarrow> boot" where
  "boot_refreshed n s = s\<lparr>bo_awaits := bo_awaits s @ [AwaitMe n]\<rparr>"

definition boot_me :: "nat \<Rightarrow> user \<Rightarrow> boot \<Rightarrow> boot" where
  "boot_me n me s = (if \<not> boot_cancelled s n then s\<lparr>bo_tab := setUser (Some me) (bo_tab s)\<rparr> else s)"

definition boot_caught :: "nat \<Rightarrow> boot \<Rightarrow> boot" where
  "boot_caught n s = (if \<not> boot_cancelled s n then s\<lparr>bo_failed := True\<rparr> else s)"

definition mount_guard :: "string obj \<Rightarrow> boot" where
  "mount_guard ls = boot_effect
     \<lparr>bo_tab = (load_auth ls, ls), bo_failed = False, bo_run = 0, bo_deps = None, bo_awaits = []\<rparr>"

section \<open>Runs\<close>

text \<open>
  \<open>BootSettled i u\<close> settles the \<open>i\<close>-th await: a refresh that succeeded or failed, or the answer to
  \<open>/users/@me\<close>. The other events are the session's operations, called by the rest of the tab.
\<close>

datatype boot_event =
    BootSettled nat "user option"
  | BootSession session
  | BootSetUser user
  | BootClear
  | BootStorage "string option"

definition boot_settle :: "boot_await \<Rightarrow> user option \<Rightarrow> boot \<Rightarrow> boot" where
  "boot_settle t u s = (case (t, u) of
     (AwaitRefresh n, Some me) \<Rightarrow> boot_refreshed n s
   | (AwaitMe n, Some me) \<Rightarrow> boot_me n me s
   | (_, None) \<Rightarrow> boot_caught (await_run t) s)"

fun boot_apply :: "boot_event \<Rightarrow> boot \<Rightarrow> boot" where
  "boot_apply (BootSettled i u) s =
     (if i < length (bo_awaits s)
      then boot_settle (bo_awaits s ! i) u (s\<lparr>bo_awaits := removeNth i (bo_awaits s)\<rparr>)
      else s)"
| "boot_apply (BootSession x) s = s\<lparr>bo_tab := setSession x (bo_tab s)\<rparr>"
| "boot_apply (BootSetUser me) s = s\<lparr>bo_tab := setUser (Some me) (bo_tab s)\<rparr>"
| "boot_apply BootClear s = s\<lparr>bo_tab := clearSession (bo_tab s)\<rparr>"
| "boot_apply (BootStorage v) s = s\<lparr>bo_tab := (onStorage REFRESH_KEY v (fst (bo_tab s)), snd (bo_tab s))\<rparr>"

definition boot_step :: "boot_event \<Rightarrow> boot \<Rightarrow> boot" where
  "boot_step e s = boot_effect (boot_apply e s)"

text \<open>The server hands out sessions with a refresh token, as its documentation says.\<close>

fun boot_ok :: "boot_event \<Rightarrow> bool" where
  "boot_ok (BootSession x) \<longleftrightarrow> (\<exists>r. se_refresh x = Some (Some r) \<and> r \<noteq> [])"
| "boot_ok e = True"

definition awaited :: "boot \<Rightarrow> bool" where
  "awaited s \<longleftrightarrow> list_ex (\<lambda>t. await_run t = bo_run s) (bo_awaits s)"

definition boot_inv :: "boot \<Rightarrow> bool" where
  "boot_inv s \<longleftrightarrow>
     bo_deps s = Some (deps_of s)
     \<and> (bootstraps (fst (bo_tab s)) \<and> \<not> bo_failed s \<longrightarrow> awaited s)
     \<and> list_all (\<lambda>t. await_run t \<le> bo_run s) (bo_awaits s)
     \<and> (truthy (accessToken (fst (bo_tab s))) \<longrightarrow> truthy (refreshToken (fst (bo_tab s))))"

lemma awaited_split:
  assumes "i < length (bo_awaits s)"
  shows "awaited s \<longleftrightarrow> await_run (bo_awaits s ! i) = bo_run s
    \<or> awaited (s\<lparr>bo_awaits := removeNth i (bo_awaits s)\<rparr>)"
  using arg_cong [OF removeNth_split [OF assms], of "list_ex (\<lambda>t. await_run t = bo_run s)"]
  by (auto simp: awaited_def removeNth_def)

lemma all_removed:
  "list_all P xs \<Longrightarrow> list_all P (removeNth i xs)"
  by (auto simp: removeNth_def list_all_iff dest: in_set_takeD in_set_dropD)

text \<open>What an event has to leave behind for the effect to restore the invariant.\<close>

definition boot_pre :: "boot \<Rightarrow> bool" where
  "boot_pre s \<longleftrightarrow>
     (bo_deps s = Some (deps_of s) \<and> bootstraps (fst (bo_tab s)) \<and> \<not> bo_failed s \<longrightarrow> awaited s)
     \<and> list_all (\<lambda>t. await_run t \<le> bo_run s) (bo_awaits s)
     \<and> (truthy (accessToken (fst (bo_tab s))) \<longrightarrow> truthy (refreshToken (fst (bo_tab s))))"

lemma effect_establishes: "boot_pre s \<Longrightarrow> boot_inv (boot_effect s)"
  by (auto simp: boot_pre_def boot_inv_def boot_effect_def boot_body_def deps_of_def awaited_def list_all_iff)

lemma settle_pre:
  assumes inv: "boot_inv s" and i: "i < length (bo_awaits s)"
  shows "boot_pre (boot_settle (bo_awaits s ! i) u (s\<lparr>bo_awaits := removeNth i (bo_awaits s)\<rparr>))"
proof -
  let ?r = "s\<lparr>bo_awaits := removeNth i (bo_awaits s)\<rparr>" and ?t = "bo_awaits s ! i"
  have le: "await_run ?t \<le> bo_run s"
    using inv i by (simp add: boot_inv_def list_all_length)
  have r: "list_all (\<lambda>t. await_run t \<le> bo_run s) (removeNth i (bo_awaits s))"
    using inv by (intro all_removed) (simp add: boot_inv_def)
  have a: "bootstraps (fst (bo_tab s)) \<and> \<not> bo_failed s \<longrightarrow>
      await_run ?t = bo_run s \<or> list_ex (\<lambda>t. await_run t = bo_run s) (removeNth i (bo_awaits s))"
    using inv awaited_split [OF i] by (auto simp: boot_inv_def awaited_def)
  have k: "truthy (accessToken (fst (bo_tab s))) \<longrightarrow> truthy (refreshToken (fst (bo_tab s)))"
    using inv by (simp add: boot_inv_def)
  show ?thesis
  proof (cases u)
    case None
    then show ?thesis using a r k
      by (auto simp: boot_settle_def boot_caught_def boot_cancelled_def boot_pre_def awaited_def
          split: boot_await.split)
  next
    case (Some me)
    obtain x ls where b: "bo_tab s = (x, ls)" by (cases "bo_tab s")
    show ?thesis
    proof (cases ?t)
      case (AwaitRefresh n)
      then show ?thesis using Some a r k le
        by (auto simp: boot_settle_def boot_refreshed_def boot_pre_def awaited_def)
    next
      case (AwaitMe n)
      then show ?thesis using Some a r k b
        by (auto simp: boot_settle_def boot_me_def boot_cancelled_def boot_pre_def awaited_def
            setUser_def bootstraps_def)
    qed
  qed
qed

lemma session_pre:
  "boot_inv s \<Longrightarrow> truthy (accessToken (fst t)) \<longrightarrow> truthy (refreshToken (fst t)) \<Longrightarrow> boot_pre (s\<lparr>bo_tab := t\<rparr>)"
  by (auto simp: boot_inv_def boot_pre_def deps_of_def bootstraps_def awaited_def)

lemma inv_pre: "boot_inv s \<Longrightarrow> boot_pre s"
  by (simp add: boot_inv_def boot_pre_def)

lemma apply_pre: "boot_inv s \<Longrightarrow> boot_ok e \<Longrightarrow> boot_pre (boot_apply e s)"
proof (cases e)
  case (BootSettled i u)
  assume inv: "boot_inv s"
  then show ?thesis using BootSettled settle_pre [OF inv] by (simp add: inv_pre)
next
  case (BootSession x)
  assume "boot_inv s" "boot_ok e"
  then show ?thesis using BootSession
    by (auto intro!: session_pre simp: setSession_def split: prod.split)
next
  case (BootSetUser me)
  assume "boot_inv s"
  then show ?thesis using BootSetUser
    by (auto intro!: session_pre simp: setUser_def boot_inv_def split: prod.split)
next
  case BootClear
  assume "boot_inv s"
  then show ?thesis using BootClear by (auto intro!: session_pre)
next
  case (BootStorage v)
  assume inv: "boot_inv s"
  show ?thesis
  proof (cases "truthy v")
    case True
    then show ?thesis using inv BootStorage by (auto intro!: session_pre simp: onStorage_def)
  next
    case False
    then show ?thesis using inv BootStorage by (simp add: onStorage_def inv_pre)
  qed
qed

interpretation boot_runs: invariant_steps boot_step boot_inv boot_ok
  by unfold_locales (simp add: boot_step_def effect_establishes apply_pre)

lemma boot_inv_mount: "boot_inv (mount_guard ls)"
  unfolding mount_guard_def by (intro effect_establishes) (simp add: boot_pre_def load_auth_def)

text \<open>
  C15: the boot screen is never the end: in every run of the route guard, while it is shown a call of the
  current bootstrap is outstanding; once nothing is, the user is either in the application or on
  the login page. A call cancelled by a later change of the session changes nothing but the list of
  what is outstanding when it settles.
\<close>
theorem boot_settles:
  assumes "list_all boot_ok es" and "s = fold boot_step es (mount_guard ls)"
  shows "(requireAuth (bo_failed s) (fst (bo_tab s)) = BootScreen \<longrightarrow>
      (\<exists>t \<in> set (bo_awaits s). \<not> boot_cancelled s (await_run t)))
    \<and> (bo_awaits s = [] \<longrightarrow> requireAuth (bo_failed s) (fst (bo_tab s)) \<noteq> BootScreen)
    \<and> (i < length (bo_awaits s) \<and> bo_awaits s ! i = AwaitMe n \<and> boot_cancelled s n \<longrightarrow>
        boot_step (BootSettled i u) s = s\<lparr>bo_awaits := removeNth i (bo_awaits s)\<rparr>)"
proof -
  have inv: "boot_inv s"
    unfolding assms(2) by (rule boot_runs.run [OF boot_inv_mount assms(1)])
  have "requireAuth (bo_failed s) (fst (bo_tab s)) = BootScreen \<Longrightarrow> awaited s"
    using inv by (auto simp: boot_inv_def requireAuth_def bootstraps_def split: if_splits)
  moreover have "boot_step (BootSettled i u) s = s\<lparr>bo_awaits := removeNth i (bo_awaits s)\<rparr>"
    if "i < length (bo_awaits s)" "bo_awaits s ! i = AwaitMe n" "boot_cancelled s n"
    using inv that
    by (cases u) (auto simp: boot_step_def boot_settle_def boot_me_def boot_caught_def
        boot_cancelled_def boot_effect_def deps_of_def boot_inv_def)
  ultimately show ?thesis by (auto simp: awaited_def list_ex_iff boot_cancelled_def)
qed

definition stored_session :: "string obj" where
  "stored_session = [(REFRESH_KEY, ''r1'')]"

lemma boot_settles_witness:
  "\<exists>t \<in> set (bo_awaits (mount_guard stored_session)). \<not> boot_cancelled (mount_guard stored_session) (await_run t)"
proof -
  have "requireAuth (bo_failed (mount_guard stored_session)) (fst (bo_tab (mount_guard stored_session))) = BootScreen"
    by (simp add: mount_guard_def boot_effect_def boot_body_def deps_of_def bootstraps_def load_auth_def
        stored_session_def requireAuth_def oget_def)
  then show ?thesis using boot_settles [of "[]" "mount_guard stored_session" stored_session 0 0 None] by simp
qed

text \<open>
  A refresh rotates the refresh token, so the effect runs again while its first run goes on: the
  user is asked for twice, and the second answer counts.
\<close>

definition rotated :: session where
  "rotated = \<lparr>se_user = None, se_access = Some ''a'', se_refresh = Some (Some ''r2'')\<rparr>"

lemma boot_asks_twice:
  "let s = fold boot_step [BootSession rotated, BootSettled 0 (Some u)] (mount_guard stored_session)
   in bo_awaits s = [AwaitMe 2, AwaitMe 1] \<and> bo_run s = 2"
proof -
  let ?a = "\<lparr>au_user = None, accessToken = None, refreshToken = Some ''r1''\<rparr>"
  let ?b = "\<lparr>au_user = None, accessToken = Some ''a'', refreshToken = Some ''r2''\<rparr>"
  have m: "mount_guard stored_session = \<lparr>bo_tab = (?a, stored_session), bo_failed = False, bo_run = 1,
      bo_deps = Some (None, Some ''r1''), bo_awaits = [AwaitRefresh 1]\<rparr>"
    by (simp add: mount_guard_def boot_effect_def boot_body_def deps_of_def bootstraps_def load_auth_def
        stored_session_def oget_def)
  obtain ls where "setSession rotated (?a, stored_session) = (?b, ls)"
    by (simp add: setSession_def rotated_def)
  then have "boot_step (BootSession rotated) (mount_guard stored_session) = \<lparr>bo_tab = (?b, ls),
      bo_failed = False, bo_run = 2, bo_deps = Some (None, Some ''r2''),
      bo_awaits = [AwaitRefresh 1, AwaitMe 2]\<rparr>"
    by (simp add: m boot_step_def boot_effect_def boot_body_def deps_of_def bootstraps_def)
  then show ?thesis
    by (simp add: boot_step_def boot_settle_def boot_refreshed_def boot_effect_def deps_of_def removeNth_def Let_def)
qed

end
