(* ===== verification/Html.thy ===== *)
theory Html imports Format Js_Text
begin

text \<open>
  What a component renders: a tree of elements with their attributes and event handlers, in the
  order of the markup. A handler is an action of the component's own type, so that the theorems can
  say which actions a view offers; \<open>links\<close> are the URLs of a tree. An icon is an element named after
  its component in \<open>Icons.jsx\<close>. \<open>browser\<close> collects what the views read from the browser: the locale's
  texts, the local time zone and the \<open>URL\<close> constructor.
\<close>

section \<open>Trees\<close>

datatype 'a html =
    Txt string
  | El string "(string \<times> string) list" "(string \<times> 'a) list" "'a html list"

text \<open>
  The actions of the handlers in a tree, without those of disabled controls, which do not fire, and
  the URLs it leads to or loads.
\<close>

definition off :: "(string \<times> string) list \<Rightarrow> bool" where
  "off as \<longleftrightarrow> ''disabled'' \<in> fst ` set as"

fun handlers :: "'a html \<Rightarrow> 'a set" where
  "handlers (Txt s) = {}"
| "handlers (El t as hs cs) = (if off as then {} else snd ` set hs) \<union> (\<Union>c \<in> set cs. handlers c)"

definition urls :: "(string \<times> string) list \<Rightarrow> string set" where
  "urls as = snd ` set (filter (\<lambda>kv. fst kv = ''href'' \<or> fst kv = ''src'') as)"

fun addresses :: "'a html \<Rightarrow> string set" where
  "addresses (Txt s) = {}"
| "addresses (El t as hs cs) = urls as \<union> (\<Union>c \<in> set cs. addresses c)"

definition offers :: "'a html list \<Rightarrow> 'a set" where
  "offers hs = (\<Union>h \<in> set hs. handlers h)"

definition links :: "'a html list \<Rightarrow> string set" where
  "links hs = (\<Union>h \<in> set hs. addresses h)"

text \<open>\<open>{b && <x/>}\<close>.\<close>

definition given :: "bool \<Rightarrow> 'a html list \<Rightarrow> 'a html list" where
  "given b hs = (if b then hs else [])"

abbreviation cls :: "string \<Rightarrow> (string \<times> string) list" where
  "cls c \<equiv> [(''className'', c)]"

abbreviation divE :: "string \<Rightarrow> 'a html list \<Rightarrow> 'a html" where
  "divE c hs \<equiv> El ''div'' (cls c) [] hs"

abbreviation spanE :: "string \<Rightarrow> 'a html list \<Rightarrow> 'a html" where
  "spanE c hs \<equiv> El ''span'' (cls c) [] hs"

text \<open>A button with further attributes and an action on click.\<close>

abbreviation buttonE :: "string \<Rightarrow> (string \<times> string) list \<Rightarrow> 'a \<Rightarrow> 'a html list \<Rightarrow> 'a html" where
  "buttonE c as x hs \<equiv> El ''button'' ((''className'', c) # as) [(''onClick'', x)] hs"

definition icon :: "string \<Rightarrow> nat \<Rightarrow> 'a html" where
  "icon n k = El n [(''size'', showNat k)] [] []"

text \<open>The attribute \<open>disabled={b}\<close>, and the class names \<open>a ${b ? c : ''}\<close>.\<close>

definition disabled :: "bool \<Rightarrow> (string \<times> string) list" where
  "disabled b = (if b then [(''disabled'', [])] else [])"

definition cls_if :: "string \<Rightarrow> bool \<Rightarrow> string \<Rightarrow> string" where
  "cls_if a b c = a @ '' '' @ (if b then c else [])"

definition dots :: string where "dots = [CHR 0xE2, CHR 0x80, CHR 0xA6]"

named_theorems html_simps "what a tree offers and links to"

lemma offers_simps [html_simps]:
  "offers [] = {}"
  "offers (Txt s # r) = offers r"
  "offers (El t as hs cs # r) = (if off as then {} else snd ` set hs) \<union> offers cs \<union> offers r"
  "offers (xs @ ys) = offers xs \<union> offers ys"
  "offers (given b xs) = (if b then offers xs else {})"
  "offers (icon n k # r) = offers r"
  "offers (map f zs) = (\<Union>z \<in> set zs. offers [f z])"
  "offers (if b then xs else ys) = (if b then offers xs else offers ys)"
  by (auto simp: offers_def given_def icon_def)

lemma links_simps [html_simps]:
  "links [] = {}"
  "links (Txt s # r) = links r"
  "links (El t as hs cs # r) = urls as \<union> links cs \<union> links r"
  "links (xs @ ys) = links xs \<union> links ys"
  "links (given b xs) = (if b then links xs else {})"
  "links (icon n k # r) = links r"
  "links (map f zs) = (\<Union>z \<in> set zs. links [f z])"
  "links (if b then xs else ys) = (if b then links xs else links ys)"
  by (auto simp: links_def given_def icon_def urls_def)

lemma urls_simps [html_simps]:
  "urls [] = {}"
  "urls ((k, v) # as) = (if k = ''href'' \<or> k = ''src'' then {v} else {}) \<union> urls as"
  "urls (as @ bs) = urls as \<union> urls bs"
  "urls (disabled b) = {}"
  by (auto simp: urls_def disabled_def)

lemma off_simps [html_simps]:
  "\<not> off []"
  "off ((k, v) # as) \<longleftrightarrow> k = ''disabled'' \<or> off as"
  "off (as @ bs) \<longleftrightarrow> off as \<or> off bs"
  "off (disabled b) \<longleftrightarrow> b"
  by (auto simp: off_def disabled_def)

text \<open>A tree shown inside another: \<open>map_html\<close> turns the actions of the child into those of the parent.\<close>

lemma handlers_map: "handlers (map_html f h) = f ` handlers h"
  by (induction h) (auto simp: image_UN image_image)

lemma addresses_map: "addresses (map_html f h) = addresses h"
  by (induction h) auto

lemma map_html_simps [html_simps]:
  "offers (map_html f h # r) = f ` offers [h] \<union> offers r"
  "links (map_html f h # r) = links [h] \<union> links r"
  by (simp_all add: offers_def links_def handlers_map addresses_map)

text \<open>The class names of a tree's elements, and the keys of the components of one kind, in order.\<close>

definition class_at :: "(string \<times> string) list \<Rightarrow> string set" where
  "class_at as = snd ` set (filter (\<lambda>kv. fst kv = ''className'') as)"

fun classes :: "'a html \<Rightarrow> string set" where
  "classes (Txt s) = {}"
| "classes (El t as hs cs) = class_at as \<union> (\<Union>c \<in> set cs. classes c)"

definition drawn :: "'a html list \<Rightarrow> string set" where
  "drawn hs = (\<Union>h \<in> set hs. classes h)"

fun keys_in :: "string \<Rightarrow> 'a html \<Rightarrow> string list" where
  "keys_in n (Txt s) = []"
| "keys_in n (El t as hs cs) =
     (if t = n then map snd (filter (\<lambda>kv. fst kv = ''key'') as) else concat (map (keys_in n) cs))"

definition keys_of :: "string \<Rightarrow> 'a html list \<Rightarrow> string list" where
  "keys_of n hs = concat (map (keys_in n) hs)"

named_theorems drawn_simps "the classes and the keys of a tree"

lemma class_at_simps [drawn_simps]:
  "class_at [] = {}"
  "class_at ((k, v) # as) = (if k = ''className'' then {v} else {}) \<union> class_at as"
  "class_at (as @ bs) = class_at as \<union> class_at bs"
  "class_at (disabled b) = {}"
  by (auto simp: class_at_def disabled_def)

lemma classes_map: "classes (map_html f h) = classes h"
  by (induction h) auto

lemma drawn_list [drawn_simps]:
  "drawn [] = {}"
  "drawn (Txt s # r) = drawn r"
  "drawn (El t as hs cs # r) = class_at as \<union> drawn cs \<union> drawn r"
  "drawn (xs @ ys) = drawn xs \<union> drawn ys"
  "drawn (given b xs) = (if b then drawn xs else {})"
  "drawn (icon n k # r) = drawn r"
  "drawn (map f zs) = (\<Union>z \<in> set zs. drawn [f z])"
  "drawn (if b then xs else ys) = (if b then drawn xs else drawn ys)"
  "drawn (map_html act h # r) = drawn [h] \<union> drawn r"
  by (auto simp: drawn_def given_def icon_def classes_map class_at_def)

lemma keys_in_map: "keys_in n (map_html f h) = keys_in n h"
  by (induction h) (auto intro!: arg_cong [where f = concat])

declare html.map [simp del]

lemma keys_list [drawn_simps]:
  "keys_of n [] = []"
  "keys_of n (Txt s # r) = keys_of n r"
  "keys_of n (El t as hs cs # r) =
     (if t = n then map snd (filter (\<lambda>kv. fst kv = ''key'') as) else keys_of n cs) @ keys_of n r"
  "keys_of n (xs @ ys) = keys_of n xs @ keys_of n ys"
  "keys_of n (given b xs) = (if b then keys_of n xs else [])"
  "keys_of n (map f zs) = concat (map (\<lambda>z. keys_of n [f z]) zs)"
  "keys_of n (if b then xs else ys) = (if b then keys_of n xs else keys_of n ys)"
  "keys_of n (icon m k # r) = keys_of n r"
  "keys_of n (map_html act h # r) = keys_of n [h] @ keys_of n r"
  by (auto simp: keys_of_def given_def comp_def keys_in_map icon_def)

text \<open>The lazy picker of \<open>EmojiPicker.jsx\<close>; \<open>bundle\<close> says whether its code has arrived.\<close>

definition emoji_picker :: "bool \<Rightarrow> string \<Rightarrow> 'a \<Rightarrow> 'a html" where
  "emoji_picker bundle c pick =
     divE (if c = [] then ''emoji-picker-pop'' else ''emoji-picker-pop '' @ c)
       [if bundle then El ''EmojiPickerInner'' [] [(''onPick'', pick)] []
        else divE ''emoji-picker-loading'' [Txt (''Loading emoji'' @ dots)]]"

section \<open>Text\<close>

text \<open>The code units of a text, decoded from its bytes; a malformed byte becomes U+FFFD.\<close>

definition units_of :: "nat \<Rightarrow> text16" where
  "units_of n =
     (if n < 0x10000 then [word_of_nat n]
      else [word_of_nat (0xD800 + (n - 0x10000) div 1024), word_of_nat (0xDC00 + (n - 0x10000) mod 1024)])"

fun utf16 :: "string \<Rightarrow> text16" where
  "utf16 [] = []"
| "utf16 (a # s) =
     (let n = of_char a :: nat
      in if n < 0x80 then units_of n @ utf16 s
         else if n < 0xE0
         then (case s of b # s' \<Rightarrow> units_of (n mod 32 * 64 + of_char b mod 64) @ utf16 s' | _ \<Rightarrow> [0xFFFD])
         else if n < 0xF0
         then (case s of b # c # s' \<Rightarrow>
                 units_of (n mod 16 * 4096 + of_char b mod 64 * 64 + of_char c mod 64) @ utf16 s'
               | _ \<Rightarrow> [0xFFFD])
         else (case s of b # c # d # s' \<Rightarrow>
                 units_of (n mod 8 * 262144 + of_char b mod 64 * 4096 + of_char c mod 64 * 64
                           + of_char d mod 64) @ utf16 s'
               | _ \<Rightarrow> [0xFFFD]))"

text \<open>Decoding gives back a text whose surrogates are paired.\<close>

fun paired :: "text16 \<Rightarrow> bool" where
  "paired [] = True"
| "paired [c] \<longleftrightarrow> \<not> is_high (unat c) \<and> \<not> is_low (unat c)"
| "paired (c # d # cs) =
     (if is_high (unat c) \<and> is_low (unat d) then paired cs
      else \<not> is_high (unat c) \<and> \<not> is_low (unat c) \<and> paired (d # cs))"

lemma low_bits: "(r :: nat) < k \<Longrightarrow> (j * k + r) mod k = r"
  by simp

lemma utf16_two:
  "q < 32 \<Longrightarrow> r < 64 \<Longrightarrow>
   utf16 (char_of (0xC0 + q :: nat) # char_of (0x80 + r :: nat) # s) = units_of (q * 64 + r) @ utf16 s"
proof -
  assume a: "q < 32" "r < 64"
  then have "(0xC0 + q) mod 256 = 0xC0 + q" "(0x80 + r) mod 256 = 0x80 + r"
    "(0xC0 + q) mod 32 = q" "(0x80 + r) mod 64 = r"
    "(0xC0 + q < 0x80) = False" "(0xC0 + q < 0xE0) = True"
    using low_bits [of q 32 6] low_bits [of r 64 2] by simp_all
  then show ?thesis by (simp only: utf16.simps Let_def of_char_of list.case if_True if_False)
qed

lemma utf16_three:
  "p < 16 \<Longrightarrow> q < 64 \<Longrightarrow> r < 64 \<Longrightarrow>
   utf16 (char_of (0xE0 + p :: nat) # char_of (0x80 + q :: nat) # char_of (0x80 + r :: nat) # s)
     = units_of (p * 4096 + q * 64 + r) @ utf16 s"
proof -
  assume a: "p < 16" "q < 64" "r < 64"
  then have "(0xE0 + p) mod 256 = 0xE0 + p" "(0x80 + q) mod 256 = 0x80 + q" "(0x80 + r) mod 256 = 0x80 + r"
    "(0xE0 + p) mod 16 = p" "(0x80 + q) mod 64 = q" "(0x80 + r) mod 64 = r"
    "(0xE0 + p < 0x80) = False" "(0xE0 + p < 0xE0) = False" "(0xE0 + p < 0xF0) = True"
    using low_bits [of p 16 14] low_bits [of q 64 2] low_bits [of r 64 2] by simp_all
  then show ?thesis by (simp only: utf16.simps Let_def of_char_of list.case if_True if_False)
qed

lemma utf16_four:
  "m < 8 \<Longrightarrow> p < 64 \<Longrightarrow> q < 64 \<Longrightarrow> r < 64 \<Longrightarrow>
   utf16 (char_of (0xF0 + m :: nat) # char_of (0x80 + p :: nat) # char_of (0x80 + q :: nat)
       # char_of (0x80 + r :: nat) # s)
     = units_of (m * 262144 + p * 4096 + q * 64 + r) @ utf16 s"
proof -
  assume a: "m < 8" "p < 64" "q < 64" "r < 64"
  then have "(0xF0 + m) mod 256 = 0xF0 + m" "(0x80 + p) mod 256 = 0x80 + p"
    "(0x80 + q) mod 256 = 0x80 + q" "(0x80 + r) mod 256 = 0x80 + r"
    "(0xF0 + m) mod 8 = m" "(0x80 + p) mod 64 = p" "(0x80 + q) mod 64 = q" "(0x80 + r) mod 64 = r"
    "(0xF0 + m < 0x80) = False" "(0xF0 + m < 0xE0) = False" "(0xF0 + m < 0xF0) = False"
    using low_bits [of m 8 30] low_bits [of p 64 2] low_bits [of q 64 2] low_bits [of r 64 2] by simp_all
  then show ?thesis by (simp only: utf16.simps Let_def of_char_of list.case if_True if_False)
qed

lemma utf16_bytes: "n < 0x110000 \<Longrightarrow> utf16 (utf8_bytes n @ s) = units_of n @ utf16 s"
proof -
  assume n: "n < 0x110000"
  have q: "n div 4096 * 64 + n div 64 mod 64 = n div 64"
    using div_mult_mod_eq [of "n div 64" 64] by (simp add: div_mult2_eq [symmetric])
  have p: "n div 262144 * 64 + n div 4096 mod 64 = n div 4096"
    using div_mult_mod_eq [of "n div 4096" 64] by (simp add: div_mult2_eq [symmetric])
  consider "n < 0x80" | "0x80 \<le> n" "n < 0x800" | "0x800 \<le> n" "n < 0x10000" | "0x10000 \<le> n" by linarith
  then show ?thesis
  proof cases
    case 1
    then show ?thesis by (simp add: utf8_bytes_def Let_def)
  next
    case 2
    have lt: "(n < 0x80) = False" "(n < 0x800) = True" using 2 by simp_all
    have "n div 64 < 32" "n mod 64 < 64" "n div 64 * 64 + n mod 64 = n" using 2 by auto
    then show ?thesis using utf16_two [of "n div 64" "n mod 64" s] lt
      by (simp only: utf8_bytes_def if_False if_True append.simps)
  next
    case 3
    have lt: "(n < 0x80) = False" "(n < 0x800) = False" "(n < 0x10000) = True" using 3 by simp_all
    have "n div 4096 < 16" "n div 64 mod 64 < 64" "n mod 64 < 64" using 3 by auto
    moreover have "n div 4096 * 4096 + n div 64 mod 64 * 64 + n mod 64 = n"
      using q div_mult_mod_eq [of n 64] by linarith
    ultimately show ?thesis using utf16_three [of "n div 4096" "n div 64 mod 64" "n mod 64" s] lt
      by (simp only: utf8_bytes_def if_False if_True append.simps)
  next
    case 4
    have lt: "(n < 0x80) = False" "(n < 0x800) = False" "(n < 0x10000) = False" using 4 by simp_all
    have "n div 262144 < 8" "n div 4096 mod 64 < 64" "n div 64 mod 64 < 64" "n mod 64 < 64" using n by auto
    moreover have "n div 262144 * 262144 + n div 4096 mod 64 * 4096 + n div 64 mod 64 * 64 + n mod 64 = n"
      using q p div_mult_mod_eq [of n 64] by linarith
    ultimately show ?thesis
      using 4 utf16_four [of "n div 262144" "n div 4096 mod 64" "n div 64 mod 64" "n mod 64" s]
        lt by (simp only: utf8_bytes_def if_False append.simps)
  qed
qed

lemma utf16_utf8: "paired t \<Longrightarrow> utf16 (utf8 t) = t"
proof (induction t rule: paired.induct)
  case 1
  then show ?case by simp
next
  case (2 c)
  have "unat c < 0x10000" using unsigned_less [where 'a = nat, of c] by simp
  then show ?case using 2 utf16_bytes [of "unat c" "[]"] by (simp add: units_of_def)
next
  case (3 c d cs)
  have c: "unat c < 0x10000" using unsigned_less [where 'a = nat, of c] by simp
  show ?case
  proof (cases "is_high (unat c) \<and> is_low (unat d)")
    case True
    let ?n = "0x10000 + (unat c - 0xD800) * 1024 + (unat d - 0xDC00)"
    have h: "0xD800 \<le> unat c" "unat c < 0xDC00" "0xDC00 \<le> unat d" "unat d < 0xE000"
      using True by (simp_all add: is_high_def is_low_def)
    then have n: "?n < 0x110000" by linarith
    have e: "?n - 0x10000 = (unat d - 0xDC00) + (unat c - 0xD800) * 1024" by simp
    have l: "unat d - 0xDC00 < 1024" using h by simp
    have "(?n - 0x10000) div 1024 = unat c - 0xD800" "(?n - 0x10000) mod 1024 = unat d - 0xDC00"
      unfolding e using l by (simp_all only: div_mult_self3 mod_mult_self3 mod_mult_self1 div_mult_self1 mod_less div_less zero_neq_numeral)
    then have "units_of ?n = [c, d]" using h by (simp add: units_of_def)
    then show ?thesis using 3 True utf16_bytes [OF n] by simp
  next
    case False
    then have "\<not> is_high (unat c)" "\<not> is_low (unat c)" "paired (d # cs)" using 3(3) by (auto split: if_splits)
    then show ?thesis using 3(2) [OF False] False c utf16_bytes [of "unat c"] by (auto simp: units_of_def)
  qed
qed
section \<open>The browser\<close>

record browser =
  br_initial :: "string \<Rightarrow> string"
  br_date :: "int option \<Rightarrow> local_date"
  br_now :: local_date
  br_time :: "local_date \<Rightarrow> string"
  br_day :: "local_date \<Rightarrow> string"
  br_parse_url :: "string \<Rightarrow> (string \<times> string) option"
  br_long :: "local_date \<Rightarrow> string"

text \<open>\<open>Avatar.jsx\<close>; \<open>br_initial\<close> is \<open>charAt(0).toUpperCase()\<close>, and the font size is rounded.\<close>

definition avatar :: "browser \<Rightarrow> string option \<Rightarrow> string option \<Rightarrow> nat \<Rightarrow> 'a html" where
  "avatar B name url k =
     (let px = showNat k; nm = (case name of None \<Rightarrow> [] | Some x \<Rightarrow> x)
      in if truthy url
         then El ''img'' [(''className'', ''avatar''), (''src'', the url), (''alt'', nm),
                          (''width'', px), (''height'', px)] [] []
         else El ''div'' [(''className'', ''avatar avatar-letter''), (''width'', px), (''height'', px),
                          (''background'', avatarColor (map_option utf16 name)),
                          (''fontSize'', showNat ((k * 42 + 50) div 100))] []
                [Txt (br_initial B (if nm = [] then ''?'' else nm))])"

lemma avatar_offers [html_simps]:
  "offers (avatar B name url k # r) = offers r"
  by (simp add: avatar_def Let_def html_simps)

lemma avatar_links [html_simps]:
  "links (avatar B name url k # r) = (if truthy url then {the url} else {}) \<union> links r"
  by (simp add: avatar_def Let_def html_simps)

lemma avatar_drawn [drawn_simps]:
  "drawn (avatar B name url k # r) = {if truthy url then ''avatar'' else ''avatar avatar-letter''} \<union> drawn r"
  "keys_of n (avatar B name url k # r) = keys_of n r"
  by (simp_all add: avatar_def Let_def drawn_simps)

end
