(* ===== verification/Message_Html.thy ===== *)
theory Message_Html imports Html Message_View
begin

text \<open>
  The markup of \<open>MessageItem.jsx\<close>, the state of a message row (\<open>item\<close>) and what its actions do
  (\<open>item_step\<close>). The lemmas say which actions a row offers, and which URLs it loads or leads to.
\<close>

section \<open>Attachments and reactions\<close>

definition attachment_html :: "browser \<Rightarrow> bool \<Rightarrow> attachment \<Rightarrow> 'a html" where
  "attachment_html B is_pending att =
     (let inner = [spanE ''file-icon'' [icon ''FileIcon'' 28],
                   spanE ''file-meta''
                     [spanE ''file-name'' [Txt (at_filename att)],
                      spanE ''file-size'' [Txt (file_size_text is_pending (safeAttachmentURL (br_parse_url B) att) att)]]]
      in case attachmentView (br_parse_url B) is_pending att of
           ImageLink u \<Rightarrow>
             El ''a'' [(''className'', ''attachment-image''), (''href'', u), (''target'', ''_blank''),
                       (''rel'', ''noreferrer'')] []
               [El ''img'' [(''src'', u), (''alt'', at_filename att), (''loading'', ''lazy'')] [] []]
         | FileText t \<Rightarrow> divE ''attachment-file pending'' inner
         | FileLink u t \<Rightarrow>
             El ''a'' [(''className'', ''attachment-file''), (''href'', u), (''target'', ''_blank''),
                       (''rel'', ''noreferrer''), (''download'', at_filename att)] [] inner)"

definition reaction_row :: "(string \<Rightarrow> 'a) \<Rightarrow> (string \<Rightarrow> string option) \<Rightarrow> reaction list \<Rightarrow> 'a html" where
  "reaction_row toggle name rs =
     divE ''reactions-row''
       (map (\<lambda>r. El ''button''
                 [(''key'', r_emoji r), (''className'', cls_if ''reaction-pill'' (r_me r) ''reacted'')]
                 [(''onClick'', toggle (r_emoji r))]
                 [spanE ''reaction-emoji'' [Txt (r_emoji r)],
                  spanE ''reaction-count'' [Txt (showInt (r_count r))],
                  spanE ''reaction-tooltip'' [Txt (reactorsLabel r name)]]) rs)"

section \<open>The row\<close>

datatype item_action =
    OpenAuthor | SetDraft | EditKey | CancelEdit | SaveEdit | ToggleReaction string | Dismiss
  | ToggleReactOpen | CloseReact | PickReaction | StartEdit | Remove

record item =
  it_editor :: editor
  it_reactOpen :: bool

definition new_item :: item where
  "new_item = \<lparr>it_editor = \<lparr>e_editing = False, e_draft = [], e_busy = False\<rparr>, it_reactOpen = False\<rparr>"

text \<open>The members of the message's guild and the cached profiles name those who reacted.\<close>

definition reactor_name :: "user option \<Rightarrow> chat \<Rightarrow> user obj \<Rightarrow> msg \<Rightarrow> string \<Rightarrow> string option" where
  "reactor_name me s ps m =
     nameFor me (if m_guild_id m = [] then [] else or_empty (oget (membersByGuild s) (m_guild_id m))) ps"

definition middle_dot :: string where "middle_dot = [CHR 0xC2, CHR 0xB7]"

definition edit_html :: "editor \<Rightarrow> item_action html" where
  "edit_html ed =
     divE ''message-edit''
       [El ''textarea'' ([(''value'', utf8 (e_draft ed)), (''rows'', ''2''), (''maxLength'', ''4000'')] @ disabled (e_busy ed))
          [(''onChange'', SetDraft), (''onKeyDown'', EditKey)] [],
        divE ''edit-hint''
          [Txt ''escape to'', Txt '' '',
           buttonE ''link'' [] CancelEdit [Txt ''cancel''], Txt '' '',
           Txt (middle_dot @ '' enter to''), Txt '' '',
           buttonE ''link'' [] SaveEdit [Txt ''save'']]]"

definition content_html :: "browser \<Rightarrow> (string \<Rightarrow> string option) \<Rightarrow> msg \<Rightarrow> item_action html list" where
  "content_html B name m =
     (let reactions = or_empty (m_reactions m)
      in given (m_content m \<noteq> [])
           [divE ''message-content''
              (Txt (m_content m) # given (m_edited_at m \<noteq> None) [spanE ''edited-tag'' [Txt ''(edited)'']])]
         @ given (0 < length (m_attachments m))
           [divE ''message-attachments'' (map (attachment_html B (m_optimistic m)) (m_attachments m))]
         @ given (0 < length reactions) [reaction_row ToggleReaction name reactions]
         @ given (m_failed m)
           [divE ''message-failed-note''
              [Txt (''Failed to send '' @ middle_dot), Txt '' '', buttonE ''link'' [] Dismiss [Txt ''dismiss'']]])"

definition actions_html :: "user option \<Rightarrow> string \<Rightarrow> msg \<Rightarrow> bool \<Rightarrow> item_action html" where
  "actions_html me guildOwnerId m reactOpen =
     divE (cls_if ''message-actions'' reactOpen ''pinned'')
       (given (canReact m)
          [divE ''react-wrap''
             (buttonE ''action-btn'' [(''title'', ''Add Reaction'')] ToggleReactOpen [icon ''SmileIcon'' 16]
              # given reactOpen
                  [El ''div'' (cls ''sheet-backdrop'') [(''onMouseDown'', CloseReact)] [],
                   El ''EmojiPicker'' (cls ''reaction-emoji-pop'') [(''onPick'', PickReaction)] []])]
        @ given (canEdit me m) [buttonE ''action-btn'' [(''title'', ''Edit'')] StartEdit [icon ''PencilIcon'' 16]]
        @ given (canDelete me guildOwnerId m)
            [buttonE ''action-btn danger'' [(''title'', ''Delete'')] Remove [icon ''TrashIcon'' 16]])"

definition message_html ::
  "browser \<Rightarrow> user option \<Rightarrow> string \<Rightarrow> (string \<Rightarrow> string option) \<Rightarrow> bool \<Rightarrow> msg \<Rightarrow> item \<Rightarrow> item_action html" where
  "message_html B me guildOwnerId name grouped m it =
     (let ed = it_editor it; au = m_author m
      in El ''div'' (cls (join_by '' '' (message_class grouped m))) []
           ([divE ''message-gutter''
               [if grouped
                then spanE ''hover-time'' [Txt (formatTime (br_time B) (br_date B (m_created_at m)))]
                else El ''span'' (cls ''author-avatar clickable'') [(''onClick'', OpenAuthor)]
                       [avatar B (Some (a_username au)) (Some (a_avatar_url au)) 40]],
             divE ''message-body''
               (given (\<not> grouped)
                  [divE ''message-meta''
                     [El ''span'' (cls ''message-author clickable'') [(''onClick'', OpenAuthor)] [Txt (a_username au)],
                      spanE ''message-time''
                        [Txt (formatTimestamp (br_time B) (br_day B) (br_now B) (br_date B (m_created_at m)))]]]
                @ (if e_editing ed then [edit_html ed] else content_html B name m))]
            @ given (\<not> e_editing ed \<and> (canReact m \<or> canEdit me m \<or> canDelete me guildOwnerId m))
                [actions_html me guildOwnerId m (it_reactOpen it)]))"

section \<open>What the actions do\<close>

text \<open>
  The events of a row: the use of a control, a press elsewhere on the page, and the outcome of the
  edit. A control that is not shown, or is disabled, cannot be used.
\<close>

datatype item_event =
    OnOpenAuthor rect | OnSetDraft text16 | OnEditKey string bool | OnCancelEdit | OnSaveEdit
  | OnReaction string | OnDismiss | OnToggleReactOpen | OnCloseReact | OnPickReaction string
  | OnStartEdit | OnRemove bool | OnDocumentDown bool | OnEditSaved | OnEditFailed string

fun control :: "item_event \<Rightarrow> item_action option" where
  "control (OnOpenAuthor r) = Some OpenAuthor"
| "control (OnSetDraft t) = Some SetDraft"
| "control (OnEditKey k sh) = Some EditKey"
| "control OnCancelEdit = Some CancelEdit"
| "control OnSaveEdit = Some SaveEdit"
| "control (OnReaction e) = Some (ToggleReaction e)"
| "control OnDismiss = Some Dismiss"
| "control OnToggleReactOpen = Some ToggleReactOpen"
| "control OnCloseReact = Some CloseReact"
| "control (OnPickReaction e) = Some PickReaction"
| "control OnStartEdit = Some StartEdit"
| "control (OnRemove b) = Some Remove"
| "control _ = None"

record row =
  rw_item :: item
  rw_client :: client
  rw_profiles :: profile_store

definition with_edit :: "edit_call \<times> editor \<Rightarrow> row \<Rightarrow> row" where
  "with_edit p s =
     s\<lparr>rw_item := (rw_item s)\<lparr>it_editor := snd p\<rparr>,
       rw_client := (case fst p of NoCall \<Rightarrow> rw_client s | CallEdit ch i c \<Rightarrow> editMessage ch i c (rw_client s))\<rparr>"

definition with_react :: "bool \<times> client \<Rightarrow> row \<Rightarrow> row" where
  "with_react p s = s\<lparr>rw_item := (rw_item s)\<lparr>it_reactOpen := fst p\<rparr>, rw_client := snd p\<rparr>"

definition react_onDown :: "bool \<Rightarrow> item \<Rightarrow> item" where
  "react_onDown inside it = (if it_reactOpen it \<and> \<not> inside then it\<lparr>it_reactOpen := False\<rparr> else it)"

fun item_step :: "string \<Rightarrow> msg \<Rightarrow> item_event \<Rightarrow> row \<Rightarrow> row" where
  "item_step ch m (OnOpenAuthor r) s =
     s\<lparr>rw_profiles := snd (openProfileFromEvent r (Some (a_id (m_author m))) (rw_profiles s))\<rparr>"
| "item_step ch m (OnSetDraft t) s = with_edit (NoCall, (it_editor (rw_item s))\<lparr>e_draft := t\<rparr>) s"
| "item_step ch m (OnEditKey k sh) s = with_edit (onEditKey k sh ch m (it_editor (rw_item s))) s"
| "item_step ch m OnCancelEdit s = with_edit (NoCall, (it_editor (rw_item s))\<lparr>e_editing := False\<rparr>) s"
| "item_step ch m OnSaveEdit s = with_edit (saveEdit ch m (it_editor (rw_item s))) s"
| "item_step ch m (OnReaction e) s = s\<lparr>rw_client := toggleReaction ch (m_id m) e (rw_client s)\<rparr>"
| "item_step ch m OnDismiss s = s\<lparr>rw_client := setc (dismissLocal ch (m_id m)) (rw_client s)\<rparr>"
| "item_step ch m OnToggleReactOpen s = with_react (\<not> it_reactOpen (rw_item s), rw_client s) s"
| "item_step ch m OnCloseReact s = with_react (False, rw_client s) s"
| "item_step ch m (OnPickReaction e) s =
     with_react (onPickReaction ch (m_id m) e (it_reactOpen (rw_item s), rw_client s)) s"
| "item_step ch m OnStartEdit s = with_edit (NoCall, startEdit (utf16 (m_content m)) (it_editor (rw_item s))) s"
| "item_step ch m (OnRemove confirmed) s = s\<lparr>rw_client := remove_message confirmed ch (m_id m) (rw_client s)\<rparr>"
| "item_step ch m (OnDocumentDown inside) s = s\<lparr>rw_item := react_onDown inside (rw_item s)\<rparr>"
| "item_step ch m OnEditSaved s = with_edit (NoCall, edit_saved (it_editor (rw_item s))) s"
| "item_step ch m (OnEditFailed e) s =
     (let p = edit_failed e (rw_client s, it_editor (rw_item s))
      in s\<lparr>rw_client := fst p, rw_item := (rw_item s)\<lparr>it_editor := snd p\<rparr>\<rparr>)"

section \<open>Controls and links\<close>

lemma attachment_offers [html_simps]: "offers (attachment_html B b att # r) = offers r"
  by (simp add: attachment_html_def html_simps Let_def split: attachment_view.split)

lemma attachment_links [html_simps]:
  "links (attachment_html B b att # r) = set_option (safeAttachmentURL (br_parse_url B) att) \<union> links r"
  by (auto simp: attachment_html_def attachmentView_def html_simps Let_def split: option.split)

lemma reaction_row_tree [html_simps]:
  "offers (reaction_row toggle name rs # r) = toggle ` r_emoji ` set rs \<union> offers r"
  "links (reaction_row toggle name rs # r) = links r"
  by (auto simp: reaction_row_def html_simps)

lemma edit_tree [html_simps]:
  "offers (edit_html ed # r) = {CancelEdit, SaveEdit} \<union> (if e_busy ed then {} else {SetDraft, EditKey}) \<union> offers r"
  "links (edit_html ed # r) = links r"
  by (auto simp: edit_html_def html_simps)

lemma content_tree [html_simps]:
  "offers (content_html B name m) =
     ToggleReaction ` r_emoji ` set (or_empty (m_reactions m)) \<union> (if m_failed m then {Dismiss} else {})"
  "links (content_html B name m) =
     (\<Union>att \<in> set (m_attachments m). set_option (safeAttachmentURL (br_parse_url B) att))"
  by (auto simp: content_html_def html_simps Let_def)

lemma actions_tree [html_simps]:
  "offers (actions_html me owner m ro # r) =
     (if canReact m then {ToggleReactOpen} \<union> (if ro then {CloseReact, PickReaction} else {}) else {})
     \<union> (if canEdit me m then {StartEdit} else {}) \<union> (if canDelete me owner m then {Remove} else {}) \<union> offers r"
  "links (actions_html me owner m ro # r) = links r"
  by (simp_all add: actions_html_def html_simps insert_commute Un_assoc)

text \<open>The controls a row offers.\<close>

definition row_controls :: "user option \<Rightarrow> string \<Rightarrow> bool \<Rightarrow> msg \<Rightarrow> item \<Rightarrow> item_action set" where
  "row_controls me owner grouped m it =
     (let ed = it_editor it
      in (if grouped then {} else {OpenAuthor})
         \<union> (if e_editing ed then {CancelEdit, SaveEdit} \<union> (if e_busy ed then {} else {SetDraft, EditKey})
            else ToggleReaction ` r_emoji ` set (or_empty (m_reactions m))
              \<union> (if m_failed m then {Dismiss} else {})
              \<union> (if canReact m then {ToggleReactOpen} \<union> (if it_reactOpen it then {CloseReact, PickReaction} else {})
                 else {})
              \<union> (if canEdit me m then {StartEdit} else {})
              \<union> (if canDelete me owner m then {Remove} else {})))"

lemma row_offers:
  "offers [message_html B me owner name grouped m it] = row_controls me owner grouped m it"
  by (cases "e_editing (it_editor it)") (auto simp: message_html_def row_controls_def html_simps Let_def)

lemma row_links:
  "links [message_html B me owner name grouped m it]
     \<subseteq> {a_avatar_url (m_author m)} \<union> (\<Union>att \<in> set (m_attachments m). set_option (safeAttachmentURL (br_parse_url B) att))"
  by (auto simp: message_html_def html_simps Let_def split: if_splits)

section \<open>Runs of a row\<close>

text \<open>
  A row is mounted for one message (its key is the message's id): while it is, the message keeps its
  id, its author and whether it is optimistic. Each event comes with the message shown at the time.
\<close>

definition same_row :: "msg \<Rightarrow> msg \<Rightarrow> bool" where
  "same_row m0 m \<longleftrightarrow> m_id m = m_id m0 \<and> m_author m = m_author m0 \<and> m_optimistic m = m_optimistic m0"

definition usable :: "user option \<Rightarrow> string \<Rightarrow> msg \<Rightarrow> item_event \<Rightarrow> item \<Rightarrow> bool" where
  "usable me owner m e it = (case control e of
     None \<Rightarrow> True | Some x \<Rightarrow> \<exists>B name grouped. x \<in> offers [message_html B me owner name grouped m it])"

definition row_step :: "user option \<Rightarrow> string \<Rightarrow> string \<Rightarrow> msg \<times> item_event \<Rightarrow> row \<Rightarrow> row" where
  "row_step me owner ch me_ev s = (case me_ev of (m, e) \<Rightarrow>
     if usable me owner m e (rw_item s) then item_step ch m e s else s)"

text \<open>
  What a row may ask of the server: to edit the user's own message, to delete the user's own or, in
  the user's guild, any, and to add or remove the user's reaction.
\<close>

definition permitted :: "user option \<Rightarrow> string \<Rightarrow> string \<Rightarrow> msg \<Rightarrow> request \<Rightarrow> bool" where
  "permitted me owner ch m r \<longleftrightarrow>
     (let this = channelPath ch (''/messages/'' @ m_id m)
      in (rq_method r = ''PATCH'' \<and> rq_path r = this \<and> isOwn me m \<and> \<not> m_optimistic m)
         \<or> (rq_method r = ''DELETE'' \<and> rq_path r = this \<and> (isOwn me m \<or> is_me me owner) \<and> \<not> m_optimistic m)
         \<or> (\<exists>emoji. rq_path r = this @ ''/reactions/'' @ encodeURIComponent emoji
              \<and> rq_method r \<in> {''PUT'', ''DELETE''}))"

definition row_inv :: "user option \<Rightarrow> string \<Rightarrow> string \<Rightarrow> msg \<Rightarrow> request list \<Rightarrow> row \<Rightarrow> bool" where
  "row_inv me owner ch m0 before s \<longleftrightarrow>
     (e_editing (it_editor (rw_item s)) \<longrightarrow> canEdit me m0)
     \<and> (\<exists>rs. sent (rw_client s) = before @ rs \<and> list_all (permitted me owner ch m0) rs)"

lemma toggle_sends:
  "\<exists>rs. sent (toggleReaction ch i e a) = sent a @ rs
     \<and> list_all (\<lambda>r. rq_path r = channelPath ch (''/messages/'' @ i) @ ''/reactions/'' @ encodeURIComponent e
          \<and> rq_method r \<in> {''PUT'', ''DELETE''}) rs"
  by (auto simp: toggleReaction_def call_def setc_def reactionPath_def channelPath_def Let_def
      split: option.split)

lemma permitted_reaction:
  "rq_path r = channelPath ch (''/messages/'' @ m_id m) @ ''/reactions/'' @ encodeURIComponent e \<Longrightarrow>
   rq_method r \<in> {''PUT'', ''DELETE''} \<Longrightarrow> permitted me owner ch m r"
  unfolding permitted_def Let_def by blast

lemma row_inv_sends:
  "row_inv me owner ch m0 before s \<Longrightarrow> sent c = sent (rw_client s) @ rs \<Longrightarrow>
   list_all (permitted me owner ch m0) rs \<Longrightarrow> (e_editing (it_editor it) \<longrightarrow> canEdit me m0) \<Longrightarrow>
   row_inv me owner ch m0 before (s\<lparr>rw_item := it, rw_client := c\<rparr>)"
  by (auto simp: row_inv_def)

lemma row_inv_profiles [simp]: "row_inv me owner ch m0 before (s\<lparr>rw_profiles := ps\<rparr>) = row_inv me owner ch m0 before s"
  by (simp add: row_inv_def)

text \<open>What it takes for an event to be usable, for the controls that send.\<close>

lemma usable_cases:
  "usable me owner m OnSaveEdit it \<Longrightarrow> e_editing (it_editor it)"
  "usable me owner m (OnEditKey k sh) it \<Longrightarrow> e_editing (it_editor it)"
  "usable me owner m OnStartEdit it \<Longrightarrow> canEdit me m"
  "usable me owner m (OnRemove b) it \<Longrightarrow> canDelete me owner m"
  by (auto simp: usable_def row_offers row_controls_def Let_def split: if_splits)

lemma row_inv_step:
  assumes inv: "row_inv me owner ch m0 before s" and same: "same_row m0 m"
  shows "row_inv me owner ch m0 before (row_step me owner ch (m, e) s)"
proof (cases "usable me owner m e (rw_item s)")
  case False
  then show ?thesis using inv by (simp add: row_step_def)
next
  case u: True
  have ids: "m_id m = m_id m0" "isOwn me m = isOwn me m0" "m_optimistic m = m_optimistic m0"
    "canEdit me m = canEdit me m0"
    using same unfolding same_row_def isOwn_def canEdit_def by metis+
  have ed: "e_editing (it_editor (rw_item s)) \<longrightarrow> canEdit me m0" using inv by (simp add: row_inv_def)
  have keep: "row_inv me owner ch m0 before (s\<lparr>rw_item := it, rw_client := rw_client s\<rparr>)"
    if "e_editing (it_editor it) \<longrightarrow> canEdit me m0" for it
    using row_inv_sends [OF inv, of "rw_client s" "[]"] that by simp
  have edits: "row_inv me owner ch m0 before (with_edit (saveEdit ch m (it_editor (rw_item s))) s)"
    if "e_editing (it_editor (rw_item s))"
  proof -
    obtain c ed' where c: "saveEdit ch m (it_editor (rw_item s)) = (c, ed')" by fastforce
    have e: "e_editing ed' \<longrightarrow> canEdit me m0" using that ed by blast
    show ?thesis
    proof (cases c)
      case NoCall
      then show ?thesis using keep [of "(rw_item s)\<lparr>it_editor := ed'\<rparr>"] e by (simp add: c with_edit_def)
    next
      case (CallEdit ch' i t)
      then have "ch' = ch" "i = m_id m0" using saveEdit_sends c ids by metis+
      moreover have "row_inv me owner ch m0 before
          (s\<lparr>rw_item := (rw_item s)\<lparr>it_editor := ed'\<rparr>, rw_client := editMessage ch (m_id m0) t (rw_client s)\<rparr>)"
      proof (rule row_inv_sends [OF inv])
        show "sent (editMessage ch (m_id m0) t (rw_client s)) = sent (rw_client s) @
            [\<lparr>rq_method = ''PATCH'', rq_path = channelPath ch (''/messages/'' @ m_id m0),
              rq_body = MessageBody t None\<rparr>]"
          by (simp add: editMessage_def call_def)
      qed (use that ed e in \<open>simp_all add: permitted_def canEdit_def\<close>)
      ultimately show ?thesis using CallEdit by (simp add: c with_edit_def)
    qed
  qed
  have react: "row_inv me owner ch m0 before (s\<lparr>rw_item := it, rw_client := toggleReaction ch (m_id m) x (rw_client s)\<rparr>)"
    if "it_editor it = it_editor (rw_item s)" for it x
  proof -
    obtain rs where rs: "sent (toggleReaction ch (m_id m) x (rw_client s)) = sent (rw_client s) @ rs"
      "list_all (\<lambda>r. rq_path r = channelPath ch (''/messages/'' @ m_id m) @ ''/reactions/'' @ encodeURIComponent x
          \<and> rq_method r \<in> {''PUT'', ''DELETE''}) rs"
      using toggle_sends [of ch "m_id m" x "rw_client s"] by (elim exE conjE)
    have "list_all (permitted me owner ch m0) rs"
      using rs(2) unfolding ids(1) by (rule list.pred_mono_strong) (elim conjE, rule permitted_reaction)
    then show ?thesis using row_inv_sends [OF inv rs(1)] ed that by simp
  qed
  have "row_inv me owner ch m0 before (item_step ch m e s)"
  proof (cases e)
    case (OnOpenAuthor r)
    then show ?thesis using inv by simp
  next
    case (OnSetDraft t)
    then show ?thesis using keep [of "(rw_item s)\<lparr>it_editor := (it_editor (rw_item s))\<lparr>e_draft := t\<rparr>\<rparr>"] ed
      by (simp add: with_edit_def)
  next
    case (OnEditKey k sh)
    then show ?thesis using edits usable_cases(2) u keep [of "rw_item s"] ed
        keep [of "(rw_item s)\<lparr>it_editor := (it_editor (rw_item s))\<lparr>e_editing := False\<rparr>\<rparr>"]
      by (auto simp: onEditKey_def with_edit_def)
  next
    case OnCancelEdit
    then show ?thesis using keep [of "(rw_item s)\<lparr>it_editor := (it_editor (rw_item s))\<lparr>e_editing := False\<rparr>\<rparr>"]
      by (simp add: with_edit_def)
  next
    case OnSaveEdit
    then show ?thesis using edits usable_cases(1) u by simp
  next
    case (OnReaction x)
    then show ?thesis using react [of "rw_item s" x] by simp
  next
    case OnDismiss
    then show ?thesis using inv ed by (simp add: row_inv_def setc_def)
  next
    case OnToggleReactOpen
    then show ?thesis using inv by (simp add: row_inv_def with_react_def)
  next
    case OnCloseReact
    then show ?thesis using inv by (simp add: row_inv_def with_react_def)
  next
    case (OnPickReaction x)
    then show ?thesis using react [of "(rw_item s)\<lparr>it_reactOpen := False\<rparr>" x]
      by (simp add: onPickReaction_def with_react_def)
  next
    case OnStartEdit
    then show ?thesis using u usable_cases(3) ids
        keep [of "(rw_item s)\<lparr>it_editor := startEdit (utf16 (m_content m)) (it_editor (rw_item s))\<rparr>"]
      by (auto simp: with_edit_def)
  next
    case (OnRemove b)
    then have d: "canDelete me owner m" using u usable_cases(4) by metis
    have "row_inv me owner ch m0 before (s\<lparr>rw_item := rw_item s, rw_client := deleteMessage ch (m_id m) (rw_client s)\<rparr>)"
    proof (rule row_inv_sends [OF inv])
      show "sent (deleteMessage ch (m_id m) (rw_client s)) = sent (rw_client s) @
          [\<lparr>rq_method = ''DELETE'', rq_path = channelPath ch (''/messages/'' @ m_id m), rq_body = NoBody\<rparr>]"
        by (simp add: deleteMessage_def call_def)
      show "list_all (permitted me owner ch m0)
          [\<lparr>rq_method = ''DELETE'', rq_path = channelPath ch (''/messages/'' @ m_id m), rq_body = NoBody\<rparr>]"
        using d ids by (simp add: permitted_def canDelete_def)
    qed (rule ed)
    then show ?thesis using OnRemove inv by (simp add: remove_message_def)
  next
    case (OnDocumentDown inside)
    then show ?thesis using inv by (simp add: row_inv_def react_onDown_def)
  next
    case OnEditSaved
    then show ?thesis using keep [of "(rw_item s)\<lparr>it_editor := edit_saved (it_editor (rw_item s))\<rparr>"]
      by (simp add: with_edit_def edit_saved_def)
  next
    case (OnEditFailed x)
    then show ?thesis using inv by (simp add: row_inv_def edit_failed_def toastc_def Let_def)
  qed
  then show ?thesis using u by (simp add: row_step_def)
qed

interpretation row_runs: invariant_steps "row_step me owner ch" "row_inv me owner ch m0 before" "\<lambda>me_ev. same_row m0 (fst me_ev)"
  for me owner ch m0 before
  by unfold_locales (metis prod.collapse row_inv_step)

text \<open>
  C28: a message's row can do no more than its user may: whatever controls are used in whatever order,
  while the message may change under the row, every request it sends edits the user's own message,
  deletes the user's own or, for the owner of the guild, any, or toggles a reaction, and no edit or
  deletion concerns a message still being sent; edit and delete are offered exactly then; and the row loads
  and leads to nothing but the author's picture and the safe links of its attachments.
\<close>
theorem row_requests_permitted:
  assumes "list_all (\<lambda>x. same_row m0 (fst x)) es"
    and "s = fold (row_step me owner ch) es \<lparr>rw_item = new_item, rw_client = a, rw_profiles = ps\<rparr>"
    and "row = [message_html B me owner name grouped m (rw_item s)]"
  shows "(\<exists>rs. sent (rw_client s) = sent a @ rs \<and> list_all (permitted me owner ch m0) rs)
    \<and> (StartEdit \<in> offers row \<longleftrightarrow> \<not> e_editing (it_editor (rw_item s)) \<and> isOwn me m \<and> \<not> m_optimistic m)
    \<and> (Remove \<in> offers row \<longleftrightarrow> \<not> e_editing (it_editor (rw_item s))
         \<and> (isOwn me m \<or> is_me me owner) \<and> \<not> m_optimistic m)
    \<and> links row \<subseteq> {a_avatar_url (m_author m)}
         \<union> {u. \<exists>att \<in> set (m_attachments m). safeAttachmentURL (br_parse_url B) att = Some u}"
proof -
  have i: "row_inv me owner ch m0 (sent a) s"
    unfolding assms(2) by (rule row_runs.run [OF _ assms(1)]) (simp add: row_inv_def new_item_def)
  have "\<exists>rs. sent (rw_client s) = sent a @ rs \<and> list_all (permitted me owner ch m0) rs"
    using i by (simp add: row_inv_def)
  moreover have "links row \<subseteq> {a_avatar_url (m_author m)}
      \<union> {u. \<exists>att \<in> set (m_attachments m). safeAttachmentURL (br_parse_url B) att = Some u}"
    using row_links [of B me owner name grouped m "rw_item s"] assms(3) by fastforce
  ultimately show ?thesis
    by (simp add: assms(3) row_offers row_controls_def canEdit_def canDelete_def Let_def image_iff)
qed

definition ann :: user where
  "ann = \<lparr>u_id = ''ann'', u_username = ''ann'', u_email = None, u_avatar_url = None, u_bio = None,
     u_pronouns = None, u_accent_color = None, u_created_at = None\<rparr>"

definition anns_message :: msg where
  "anns_message = \<lparr>m_id = ''m'', m_channel_id = ''c'', m_guild_id = ''g'',
     m_author = \<lparr>a_id = ''ann'', a_username = ''ann'', a_avatar_url = ''/files/a.png''\<rparr>, m_content = ''hi'',
     m_attachments = [], m_reactions = None, m_created_at = Some 0, m_edited_at = None,
     m_optimistic = False, m_failed = False\<rparr>"

lemma row_requests_permitted_witness:
  "\<forall>a ps. \<exists>rs. sent (rw_client (fold (row_step (Some ann) ''bob'' ''c'') [(anns_message, OnRemove True)]
       \<lparr>rw_item = new_item, rw_client = a, rw_profiles = ps\<rparr>)) = sent a @ rs
     \<and> list_all (permitted (Some ann) ''bob'' ''c'' anns_message) rs"
proof (intro allI)
  fix a ps
  show "\<exists>rs. sent (rw_client (fold (row_step (Some ann) ''bob'' ''c'') [(anns_message, OnRemove True)]
       \<lparr>rw_item = new_item, rw_client = a, rw_profiles = ps\<rparr>)) = sent a @ rs
     \<and> list_all (permitted (Some ann) ''bob'' ''c'' anns_message) rs"
    using row_requests_permitted [of anns_message "[(anns_message, OnRemove True)]" _ "Some ann" "''bob''" "''c''" a ps,
        OF _ refl refl] by (simp add: same_row_def)
qed

end
