(* ===== verification/Chat_Html.thy ===== *)
theory Chat_Html imports Message_Html Composer Gif_Picker Guild_View Chat_Properties
begin

text \<open>
  The conversation on screen: the markup of \<open>MessagePane.jsx\<close>, \<open>TypingIndicator.jsx\<close>, \<open>MessageInput.jsx\<close>
  and \<open>GifPicker.jsx\<close>, over the stores they read and the states of the rows and of the composer. The
  lemmas say which rows a pane has, which loading notes it draws, and which controls the composer offers.
\<close>

section \<open>The composer\<close>

datatype composer_action =
    CloseSheet | PickEmoji | GifText | KeepOpen | ChooseGif gif | GifEnter gif | GifLeave gif
  | FireFx string | StormSwitch | RemoveChip nat | ChooseFiles | FilesChosen | TextInput | TextKey
  | ToolButton panel

definition EFFECT_LABELS :: "string obj" where
  "EFFECT_LABELS =
     [(''lightning'', [CHR 0xE2, CHR 0x9A, CHR 0xA1] @ '' Lightning''),
      (''confetti'', [CHR 0xF0, CHR 0x9F, CHR 0x8E, CHR 0x89] @ '' Confetti''),
      (''hearts'', [CHR 0xE2, CHR 0x9D, CHR 0xA4, CHR 0xEF, CHR 0xB8, CHR 0x8F] @ '' Hearts''),
      (''snow'', [CHR 0xE2, CHR 0x9D, CHR 0x84, CHR 0xEF, CHR 0xB8, CHR 0x8F] @ '' Snow''),
      (''rain'', [CHR 0xF0, CHR 0x9F, CHR 0x8C, CHR 0xA7, CHR 0xEF, CHR 0xB8, CHR 0x8F] @ '' Rain'')]"

text \<open>
  The picture of a GIF: still, or moving while the pointer is on it. \<open>hover\<close> says on which GIFs the
  last of the two mouse events was \<open>mouseenter\<close>.
\<close>

definition gif_cell :: "(string \<Rightarrow> bool) \<Rightarrow> gif \<Rightarrow> composer_action html" where
  "gif_cell hover g =
     El ''button'' ([(''key'', gif_id g), (''className'', ''gif-cell''), (''title'', ''Send this GIF'')]
                    @ (if gif_width g \<noteq> 0 \<and> gif_height g \<noteq> 0
                       then [(''aspectRatio'', showNat (gif_width g) @ '' / '' @ showNat (gif_height g))] else []))
       [(''onClick'', ChooseGif g)]
       [El ''img'' [(''src'', if hover (gif_id g) then gif_url g else gif_preview g), (''alt'', []), (''loading'', ''lazy'')]
          [(''onMouseEnter'', GifEnter g), (''onMouseLeave'', GifLeave g)] []]"

definition gif_status :: "string \<Rightarrow> composer_action html" where
  "gif_status t = divE ''gif-status'' [Txt t]"

definition gif_picker_html :: "(string \<Rightarrow> bool) \<Rightarrow> picker \<Rightarrow> composer_action html" where
  "gif_picker_html hover p =
     El ''div'' (cls ''gif-picker-pop'') [(''onMouseDown'', KeepOpen)]
       [divE ''gif-search''
          [El ''input'' [(''type'', ''text''), (''placeholder'', ''Search Tenor''), (''value'', utf8 (gp_query p))]
             [(''onChange'', GifText)] []],
        divE ''gif-grid''
          (case panel_shows p of
             GifsLoading \<Rightarrow> [gif_status (''Loading'' @ dots)]
           | GifsFailed \<Rightarrow> [gif_status (''Couldn'' @ [CHR 0xE2, CHR 0x80, CHR 0x99] @ ''t load GIFs. Try again.'')]
           | NoResults \<Rightarrow> [gif_status ''No results.'']
           | GifGrid gs \<Rightarrow> map (gif_cell hover) gs)]"

definition fx_menu :: "bool \<Rightarrow> composer_action html" where
  "fx_menu storm =
     El ''div'' (cls ''composer-pop fx effects-menu'') [(''onMouseDown'', KeepOpen)]
       [divE ''effects-menu-title'' [Txt ''Effects''],
        divE ''effects-menu-grid''
          (map (\<lambda>t. El ''button'' [(''key'', t), (''className'', ''effects-menu-item'')] [(''onClick'', FireFx t)]
                      [Txt (or_empty (oget EFFECT_LABELS t))]) EFFECT_TYPES),
        El ''label'' (cls ''storm-toggle'') []
          [El ''span'' [] [] [Txt ''Storm Mode''],
           buttonE (cls_if ''switch'' storm ''on'')
             [(''type'', ''button''), (''role'', ''switch''), (''aria-checked'', if storm then ''true'' else ''false'')]
             StormSwitch [spanE ''switch-knob'' []]]]"

definition upload_chip :: "nat \<times> upload_file \<Rightarrow> composer_action html" where
  "upload_chip p =
     El ''div'' [(''key'', f_name (snd p) @ ''-'' @ showNat (fst p)), (''className'', ''upload-chip'')] []
       [spanE ''file-name'' [Txt (f_name (snd p))],
        buttonE ''icon-btn'' [(''title'', ''Remove attachment'')] (RemoveChip (fst p)) [icon ''CloseIcon'' 14]]"

definition tool_button :: "composer \<Rightarrow> panel \<Rightarrow> string \<Rightarrow> composer_action html list \<Rightarrow> composer_action html" where
  "tool_button c p tip ic =
     buttonE (cls_if ''icon-btn composer-tool'' (c_panel c = Some p) ''active'') [(''title'', tip)] (ToolButton p) ic"

text \<open>What the composer reads besides its own state.\<close>

record composer_props =
  cp_name :: string
  cp_gifs :: gif_store
  cp_storm :: bool
  cp_picker :: picker
  cp_hover :: "string \<Rightarrow> bool"
  cp_bundle :: bool

definition composer_html :: "composer_props \<Rightarrow> composer \<Rightarrow> composer_action html" where
  "composer_html P c =
     divE ''message-input-area''
       (given (c_panel c \<noteq> None) [El ''div'' (cls ''sheet-backdrop'') [(''onMouseDown'', CloseSheet)] []]
        @ given (c_panel c = Some EmojiPanel) [divE ''composer-pop emoji'' [emoji_picker (cp_bundle P) [] PickEmoji]]
        @ given (c_panel c = Some GifPanel) [divE ''composer-pop gif'' [gif_picker_html (cp_hover P) (cp_picker P)]]
        @ given (c_panel c = Some FxPanel) [fx_menu (cp_storm P)]
        @ given (0 < length (c_files c))
            [divE ''upload-chips'' (map upload_chip (zip [0..<length (c_files c)] (c_files c)))]
        @ [divE ''message-input''
             ([buttonE ''icon-btn attach'' [(''title'', ''Attach files'')] ChooseFiles [icon ''PaperclipIcon'' 20],
               El ''input'' [(''type'', ''file''), (''multiple'', []), (''hidden'', [])] [(''onChange'', FilesChosen)] [],
               El ''textarea'' [(''rows'', ''1''), (''placeholder'', ''Message #'' @ cp_name P), (''value'', utf8 (c_text c))]
                 [(''onChange'', TextInput), (''onKeyDown'', TextKey)] []]
              @ (case char_counter c of
                   None \<Rightarrow> []
                 | Some n \<Rightarrow> [spanE (cls_if ''char-counter'' (n < 0) ''over'') [Txt (showInt n)]])
              @ [divE ''composer-tools''
                   (given (gif_button (cp_gifs P)) [tool_button c GifPanel ''Send a GIF'' [icon ''GifIcon'' 22]]
                    @ [tool_button c FxPanel ''Effects'' [icon ''BoltIcon'' 20],
                       tool_button c EmojiPanel ''Emoji'' [icon ''SmileIcon'' 22]])])])"

section \<open>Typing notices\<close>

definition typing_html :: "int \<Rightarrow> string \<Rightarrow> chat \<Rightarrow> 'a html" where
  "typing_html now ch s =
     (let names = map ty_username (activeTyping now ch s)
      in divE ''typing-bar''
           (given (0 < length names)
              [spanE ''typing-dots'' [El ''span'' [] [] [], El ''span'' [] [] [], El ''span'' [] [] []],
               spanE ''typing-text''
                 (if length names = 1 then [El ''b'' [] [] [Txt (hd names)], Txt ('' is typing'' @ dots)]
                  else if length names \<le> 3 then [El ''b'' [] [] [Txt (join_by '', '' names)], Txt ('' are typing'' @ dots)]
                  else [Txt (''Several people are typing'' @ dots)])]))"

text \<open>While there are entries, an interval of a second prunes those that have expired.\<close>

definition typing_interval :: "string \<Rightarrow> chat \<Rightarrow> bool" where
  "typing_interval ch s \<longleftrightarrow> (case oget (typingByChannel s) ch of None \<Rightarrow> False | Some typing \<Rightarrow> typing \<noteq> [])"

definition typing_tick :: "int \<Rightarrow> string \<Rightarrow> chat \<Rightarrow> chat" where
  "typing_tick now ch s = (if typing_interval ch s then pruneTyping now ch s else s)"

section \<open>The pane\<close>

datatype pane_action = RowAction string item_action | PaneScroll | ComposerAction composer_action

record pane_props =
  pp_me :: "user option"
  pp_chat :: chat
  pp_profiles :: "user obj"
  pp_items :: "string \<Rightarrow> item"
  pp_composer :: composer
  pp_tools :: composer_props
  pp_now :: int

definition selected_conv :: "chat \<Rightarrow> conv option" where
  "selected_conv s =
     (if truthy (selectedChannelId s) then oget (messagesByChannel s) (the (selectedChannelId s)) else None)"

definition selected_channel :: "chat \<Rightarrow> channel option" where
  "selected_channel s =
     (if truthy (selectedGuildId s) \<and> truthy (selectedChannelId s)
      then List.find (\<lambda>c. Some (ch_id c) = selectedChannelId s)
             (or_empty (oget (channelsByGuild s) (the (selectedGuildId s)))) else None)"

definition message_row :: "browser \<Rightarrow> pane_props \<Rightarrow> guild \<Rightarrow> msg \<times> bool \<Rightarrow> pane_action html" where
  "message_row B P g mg = (case mg of (m, grouped) \<Rightarrow>
     El ''MessageItem'' [(''key'', m_id m)] []
       [map_html (RowAction (m_id m))
          (message_html B (pp_me P) (g_owner_id g) (reactor_name (pp_me P) (pp_chat P) (pp_profiles P) m)
             grouped m (pp_items P (m_id m)))])"

definition channel_start :: "channel \<Rightarrow> 'a html" where
  "channel_start c =
     divE ''channel-start''
       [divE ''channel-start-icon'' [icon ''HashIcon'' 36],
        El ''h3'' [] [] [Txt (''Welcome to #'' @ ch_name c @ ''!'')],
        El ''p'' [] [] [Txt (''This is the start of the #'' @ ch_name c @ '' channel.'')]]"

definition messages_html :: "browser \<Rightarrow> pane_props \<Rightarrow> guild \<Rightarrow> channel \<Rightarrow> pane_action html" where
  "messages_html B P g c =
     (let cv = selected_conv (pp_chat P)
      in El ''div'' (cls ''messages-scroll'') [(''onScroll'', PaneScroll)]
           [divE ''messages-inner''
              (case cv of
                 None \<Rightarrow> []
               | Some k \<Rightarrow>
                   given (loaded k \<and> \<not> hasMore k) [channel_start c]
                   @ given (loadingOlder k) [divE ''messages-loading'' [Txt (''Loading older messages'' @ dots)]]
                   @ map (message_row B P g) (group_rows None (items k))
                   @ given (\<not> loaded k) [divE ''messages-loading'' [Txt (''Loading messages'' @ dots)]])])"

definition empty_pane :: "string \<Rightarrow> string \<Rightarrow> 'a html" where
  "empty_pane h t =
     El ''main'' (cls ''message-pane empty-pane'') []
       [divE ''empty-state'' [El ''h3'' [] [] [Txt h], El ''p'' [] [] [Txt t]]]"

definition pane_html :: "browser \<Rightarrow> pane_props \<Rightarrow> pane_action html" where
  "pane_html B P =
     (let s = pp_chat P
      in case find_guild s of
           None \<Rightarrow> empty_pane ''No guild selected'' ''Pick a guild on the left, or create one with the + button.''
         | Some g \<Rightarrow> (case selected_channel s of
             None \<Rightarrow> empty_pane ''No channel selected''
               (if length (or_empty (oget (channelsByGuild s) (g_id g))) = 0 then ''This guild has no channels yet.''
                else ''Select a channel to start chatting.'')
           | Some c \<Rightarrow>
               El ''main'' (cls ''message-pane'') []
                 [El ''header'' (cls ''channel-header'') []
                    ([spanE ''channel-header-hash'' [icon ''HashIcon'' 22], spanE ''channel-title'' [Txt (ch_name c)]]
                     @ given (ch_topic c \<noteq> [])
                         [spanE ''header-divider'' [],
                          El ''span'' [(''className'', ''channel-topic''), (''title'', ch_topic c)] [] [Txt (ch_topic c)]]),
                  messages_html B P g c,
                  map_html ComposerAction (composer_html (pp_tools P) (pp_composer P)),
                  typing_html (pp_now P) (ch_id c) s]))"

section \<open>What the composer offers\<close>

lemma gif_cell_offers [html_simps]: "offers (gif_cell hover g # r) = {ChooseGif g, GifEnter g, GifLeave g} \<union> offers r"
  by (auto simp: gif_cell_def html_simps)

lemma gif_status_offers [html_simps]: "offers (gif_status t # r) = offers r"
  by (simp add: gif_status_def html_simps)

lemma upload_chip_offers [html_simps]: "offers (upload_chip p # r) = {RemoveChip (fst p)} \<union> offers r"
  by (simp add: upload_chip_def html_simps)

lemma emoji_picker_offers [html_simps]: "offers (emoji_picker bundle c x # r) = (if bundle then {x} else {}) \<union> offers r"
  by (simp add: emoji_picker_def html_simps)

lemma tool_button_offers [html_simps]: "offers (tool_button c p tip [icon n k] # r) = {ToolButton p} \<union> offers r"
  by (simp add: tool_button_def html_simps)

lemma fx_menu_offers [html_simps]:
  "offers (fx_menu storm # r) = {KeepOpen, StormSwitch} \<union> FireFx ` set EFFECT_TYPES \<union> offers r"
  by (auto simp: fx_menu_def html_simps)

lemma gif_picker_offers [html_simps]:
  "offers (gif_picker_html hover p # r) = {KeepOpen, GifText}
     \<union> (case panel_shows p of GifGrid gs \<Rightarrow> (\<Union>g \<in> set gs. {ChooseGif g, GifEnter g, GifLeave g}) | _ \<Rightarrow> {}) \<union> offers r"
  by (auto simp: gif_picker_html_def html_simps split: gif_panel.splits)

definition panel_controls :: "composer_props \<Rightarrow> panel \<Rightarrow> composer_action set" where
  "panel_controls P p = insert CloseSheet (case p of
     EmojiPanel \<Rightarrow> if cp_bundle P then {PickEmoji} else {}
   | GifPanel \<Rightarrow> {KeepOpen, GifText} \<union> (case panel_shows (cp_picker P) of
        GifGrid gs \<Rightarrow> (\<Union>g \<in> set gs. {ChooseGif g, GifEnter g, GifLeave g}) | _ \<Rightarrow> {})
   | FxPanel \<Rightarrow> {KeepOpen, StormSwitch} \<union> FireFx ` set EFFECT_TYPES)"

lemma composer_offers:
  "offers [composer_html P c] =
     {ChooseFiles, FilesChosen, TextInput, TextKey, ToolButton FxPanel, ToolButton EmojiPanel}
     \<union> (if gif_button (cp_gifs P) then {ToolButton GifPanel} else {})
     \<union> RemoveChip ` {0..<length (c_files c)}
     \<union> (case c_panel c of None \<Rightarrow> {} | Some p \<Rightarrow> panel_controls P p)"
proof -
  have "(\<Union>z \<in> set (zip [0..<length fs] fs). offers [upload_chip z]) = RemoveChip ` {0..<length fs}" for fs
  proof -
    have "fst ` set (zip [0..<length fs] fs) = {0..<length fs}"
      by (simp flip: set_map)
    then show ?thesis by (simp add: html_simps UNION_singleton_eq_range flip: image_image)
  qed
  moreover have "offers (case char_counter c of None \<Rightarrow> []
     | Some n \<Rightarrow> [spanE (cls_if ''char-counter'' (n < 0) ''over'') [Txt (showInt n)]]) = {}"
    by (simp add: html_simps split: option.split)
  ultimately show ?thesis
    by (cases "c_panel c"; cases "the (c_panel c)")
      (auto simp: composer_html_def panel_controls_def html_simps)
qed

section \<open>What the pane shows\<close>

lemma message_row_keys [drawn_simps]: "keys_of ''MessageItem'' (message_row B P g mg # r) = m_id (fst mg) # keys_of ''MessageItem'' r"
  by (simp add: message_row_def drawn_simps split: prod.split)

lemma composer_keys [drawn_simps]: "keys_of ''MessageItem'' (composer_html P c # r) = keys_of ''MessageItem'' r"
  by (auto simp: composer_html_def emoji_picker_def gif_picker_html_def gif_cell_def gif_status_def fx_menu_def
      upload_chip_def tool_button_def icon_def drawn_simps split: option.split gif_panel.split prod.split)

lemma typing_keys [drawn_simps]: "keys_of ''MessageItem'' (typing_html now ch s # r) = keys_of ''MessageItem'' r"
  by (simp add: typing_html_def drawn_simps Let_def)

text \<open>The class of the loading notes is used for nothing else.\<close>

lemma cls_if_ne: "CHR '' '' \<notin> set d \<Longrightarrow> d \<noteq> cls_if a b c"
  by (auto simp: cls_if_def)

lemma note_ne [drawn_simps]: "''messages-loading'' \<noteq> cls_if a b c"
  by (rule cls_if_ne) simp

lemma gif_cell_drawn [drawn_simps]:
  "drawn (gif_cell hover g # r) = {''gif-cell''} \<union> drawn r"
  by (auto simp: gif_cell_def drawn_simps)

lemma composer_drawn [drawn_simps]:
  "''messages-loading'' \<in> drawn (composer_html P c # r) \<longleftrightarrow> ''messages-loading'' \<in> drawn r"
  by (simp add: composer_html_def emoji_picker_def gif_picker_html_def gif_status_def fx_menu_def
      upload_chip_def tool_button_def drawn_simps split: option.split gif_panel.split)

lemma typing_drawn [drawn_simps]:
  "''messages-loading'' \<in> drawn (typing_html now ch s # r) \<longleftrightarrow> ''messages-loading'' \<in> drawn r"
  by (simp add: typing_html_def drawn_simps Let_def)

lemma attachment_drawn [drawn_simps]:
  "''messages-loading'' \<in> drawn (attachment_html B q att # r) \<longleftrightarrow> ''messages-loading'' \<in> drawn r"
  by (simp add: attachment_html_def drawn_simps Let_def split: attachment_view.split)

lemma reactions_drawn [drawn_simps]:
  "''messages-loading'' \<in> drawn (reaction_row f name rs # r) \<longleftrightarrow> ''messages-loading'' \<in> drawn r"
  by (simp add: reaction_row_def drawn_simps)

lemma edit_drawn [drawn_simps]: "''messages-loading'' \<in> drawn (edit_html ed # r) \<longleftrightarrow> ''messages-loading'' \<in> drawn r"
  by (simp add: edit_html_def drawn_simps)

lemma content_drawn [drawn_simps]: "''messages-loading'' \<notin> drawn (content_html B name m)"
  by (simp add: content_html_def drawn_simps Let_def)

lemma actions_drawn [drawn_simps]:
  "''messages-loading'' \<in> drawn (actions_html me o' m b # r) \<longleftrightarrow> ''messages-loading'' \<in> drawn r"
  by (simp add: actions_html_def drawn_simps)

lemma message_class_ne [drawn_simps]: "''messages-loading'' \<noteq> join_by '' '' (message_class grouped m)"
  by (simp add: message_class_def)

lemma row_drawn [drawn_simps]:
  "''messages-loading'' \<in> drawn (message_row B P g mg # r) \<longleftrightarrow> ''messages-loading'' \<in> drawn r"
  by (simp add: message_row_def message_html_def drawn_simps Let_def split: prod.split)

text \<open>
  The pane of a channel has one row per message of its conversation, in the conversation's order, and
  a loading note exactly while the conversation is loading, or loading older messages.
\<close>

lemma pane_rows:
  "keys_of ''MessageItem'' [pane_html B P] =
     (if find_guild (pp_chat P) \<noteq> None \<and> selected_channel (pp_chat P) \<noteq> None
      then (case selected_conv (pp_chat P) of None \<Rightarrow> [] | Some k \<Rightarrow> ids_of (items k)) else [])"
proof -
  have "map (\<lambda>mg. m_id (fst mg)) (group_rows None ms) = ids_of ms" for ms
    using arg_cong [OF group_rows_msgs [of None ms], of "map m_id"] by (simp add: comp_def)
  then show ?thesis
    by (simp add: pane_html_def empty_pane_def messages_html_def channel_start_def drawn_simps Let_def
        concat_map_singleton split: option.split)
qed

lemma pane_note:
  "''messages-loading'' \<in> drawn [pane_html B P] \<longleftrightarrow>
     find_guild (pp_chat P) \<noteq> None \<and> selected_channel (pp_chat P) \<noteq> None
     \<and> (case selected_conv (pp_chat P) of None \<Rightarrow> False | Some k \<Rightarrow> loadingOlder k \<or> \<not> loaded k)"
  by (auto simp: pane_html_def empty_pane_def messages_html_def channel_start_def drawn_simps Let_def
      split: option.split)


text \<open>A visit: the guilds, the channels of the first and the first page of its channel arrive.\<close>

definition visit :: "event list" where
  "visit =
     [DoLoadGuilds,
      Reply 0 (GuildsReply [\<lparr>g_id = ''g'', g_name = ''Guild'', g_owner_id = ''bob'', g_icon_url = []\<rparr>]),
      Reply 0 (ChannelsReply [\<lparr>ch_id = ''general'', ch_guild_id = ''g'', ch_name = ''talk'', ch_type = ''text'', ch_topic = []\<rparr>]),
      Reply 0 (MessagesReply [sample_msg ''m2'' ''bob'' ''hey'', sample_msg ''m1'' ''bob'' ''yo''])]"

definition visited :: client where
  "visited = the (follow length (initial_client (Some ada)) visit)"

lemma visited_follow: "follow length (initial_client (Some ada)) visit = Some visited"
  unfolding visited_def by code_simp

lemma visited_shows:
  "map_option ch_id (selected_channel (chat visited)) = Some ''general''
   \<and> map_option (ids_of \<circ> items) (conv_at (chat visited) ''general'') = Some [''m1'', ''m2'']
   \<and> map_option g_id (find_guild (chat visited)) = Some ''g''"
  by code_simp


end
