(* ===== verification/Form_Html.thy ===== *)
theory Form_Html imports Html Forms
begin

text \<open>
  Dialogs, pages and cards: the markup of \<open>Modal.jsx\<close>, \<open>CreateChannelModal.jsx\<close>, \<open>AddGuildModal.jsx\<close>,
  \<open>InviteModal.jsx\<close>, \<open>LoginPage.jsx\<close>, \<open>RegisterPage.jsx\<close>, \<open>EditProfileModal.jsx\<close>,
  \<open>SettingsPopover.jsx\<close> and \<open>ProfileCard.jsx\<close>, over the states of theories \<open>Forms\<close>, \<open>Edit_Profile\<close>,
  \<open>Settings\<close> and \<open>Profile_Card\<close>, and the routes of \<open>App.jsx\<close>. The lemmas say that a button is enabled
  exactly when using it does something.
\<close>

section \<open>Forms in general\<close>

text \<open>
  Whether the forms of a tree can be submitted. A button in a form submits it unless its type is
  \<open>button\<close>; a form is submitted by its first such button, or by Enter, and neither when that button is
  disabled.
\<close>

fun submit_buttons :: "'a html \<Rightarrow> bool list" where
  "submit_buttons (Txt s) = []"
| "submit_buttons (El t as hs cs) =
     (if t = ''button'' \<and> (''type'', ''button'') \<notin> set as then [\<not> off as] else []) @ concat (map submit_buttons cs)"

fun forms_in :: "'a html \<Rightarrow> bool list" where
  "forms_in (Txt s) = []"
| "forms_in (El t as hs cs) =
     (if t = ''form'' then [case concat (map submit_buttons cs) of [] \<Rightarrow> False | b # bs \<Rightarrow> b]
      else concat (map forms_in cs))"

definition error_line :: "string \<Rightarrow> 'a html list" where
  "error_line e = given (e \<noteq> []) [divE ''form-error'' [Txt e]]"

definition fieldE :: "string \<Rightarrow> 'a html \<Rightarrow> 'a html" where
  "fieldE label input = El ''label'' (cls ''field'') [] [El ''span'' [] [] [Txt label], input]"

section \<open>Dialogs\<close>

definition modal_html :: "string \<Rightarrow> 'a \<Rightarrow> 'a \<Rightarrow> 'a html list \<Rightarrow> 'a html" where
  "modal_html title close press children =
     El ''div'' (cls ''modal-overlay'') [(''onMouseDown'', press)]
       [El ''div'' [(''className'', ''modal''), (''role'', ''dialog''), (''aria-modal'', ''true'')] []
          [divE ''modal-header''
             [El ''h2'' [] [] [Txt title],
              buttonE ''icon-btn'' [(''aria-label'', ''Close'')] close [icon ''CloseIcon'' 20]],
           divE ''modal-body'' children]]"

text \<open>Escape closes a dialog, and a press on the overlay itself, not on what it contains.\<close>

definition modal_onKey :: "('s \<Rightarrow> 's) \<Rightarrow> string \<Rightarrow> 's \<Rightarrow> 's" where
  "modal_onKey onClose key s = (if key = ''Escape'' then onClose s else s)"

definition modal_onDown :: "('s \<Rightarrow> 's) \<Rightarrow> bool \<Rightarrow> 's \<Rightarrow> 's" where
  "modal_onDown onClose on_overlay s = (if on_overlay then onClose s else s)"

datatype form_action =
    CloseDialog | PressOverlay | SubmitForm | NameInput | TopicInput | CodeInput | SetType string
  | SetTab bool | EmailInput | PasswordInput | UsernameInput | CopyInvite

definition dialog_actions :: "string \<Rightarrow> bool \<Rightarrow> form_action html" where
  "dialog_actions label can =
     divE ''modal-actions''
       [El ''button'' [(''type'', ''button''), (''className'', ''btn ghost'')] [(''onClick'', CloseDialog)] [Txt ''Cancel''],
        El ''button'' ([(''type'', ''submit''), (''className'', ''btn primary'')] @ disabled (\<not> can)) [] [Txt label]]"

definition type_option :: "string \<Rightarrow> string \<Rightarrow> string \<Rightarrow> string \<Rightarrow> string \<Rightarrow> form_action html" where
  "type_option current t ic label desc =
     El ''button'' [(''type'', ''button''), (''className'', cls_if ''channel-type-option'' (current = t) ''active'')]
       [(''onClick'', SetType t)]
       [icon ic 22, spanE ''channel-type-label'' [Txt label], spanE ''channel-type-desc'' [Txt desc]]"

definition channel_dialog :: "(channel_fields, channel_request) form \<Rightarrow> form_action html" where
  "channel_dialog s =
     (let x = fm_fields s
      in modal_html ''Create Channel'' CloseDialog PressOverlay
           [El ''form'' [] [(''onSubmit'', SubmitForm)]
              ([divE ''field''
                  [El ''span'' [] [] [Txt ''Channel type''],
                   divE ''channel-type-select''
                     [type_option (cf_type x) ''text'' ''HashIcon'' ''Text'' ''Send messages, images, and files'',
                      type_option (cf_type x) ''voice'' ''VolumeIcon'' ''Voice'' ''Talk with voice, video, and screen share'']],
                fieldE ''Channel name''
                  (El ''input'' [(''autoFocus'', []), (''value'', utf8 (cf_name x)),
                      (''placeholder'', if cf_type x = ''voice'' then ''General'' else ''new-channel''), (''maxLength'', ''100'')]
                     [(''onChange'', NameInput)] []),
                fieldE ''Topic (optional)''
                  (El ''input'' [(''value'', utf8 (cf_topic x)),
                      (''placeholder'', ''What'' @ [CHR 0x27] @ ''s this channel about?''), (''maxLength'', ''1024'')]
                     [(''onChange'', TopicInput)] [])]
               @ error_line (f_error s)
               @ [dialog_actions (if f_busy s then ''Creating'' @ dots else ''Create Channel'')
                    (channel_valid x \<and> \<not> f_busy s)])])"

definition tab_button :: "bool \<Rightarrow> bool \<Rightarrow> string \<Rightarrow> form_action html" where
  "tab_button current t label =
     El ''button'' [(''type'', ''button''), (''className'', cls_if ''tab'' (current = t) ''active'')]
       [(''onClick'', SetTab t)] [Txt label]"

definition guild_dialog :: "(guild_fields, guild_request) form \<Rightarrow> form_action html" where
  "guild_dialog s =
     (let x = fm_fields s
      in modal_html (if gf_create x then ''Create a guild'' else ''Join a guild'') CloseDialog PressOverlay
           [divE ''tabs'' [tab_button (gf_create x) True ''Create'', tab_button (gf_create x) False ''Join with invite''],
            El ''form'' [] [(''onSubmit'', SubmitForm)]
              ([if gf_create x
                then fieldE ''Guild name''
                       (El ''input'' [(''autoFocus'', []), (''value'', utf8 (gf_name x)), (''placeholder'', ''My Cool Server''),
                          (''maxLength'', ''100'')] [(''onChange'', NameInput)] [])
                else fieldE ''Invite code''
                       (El ''input'' [(''autoFocus'', []), (''value'', utf8 (gf_code x)), (''placeholder'', ''e.g. aB3xYz19'')]
                          [(''onChange'', CodeInput)] [])]
               @ error_line (f_error s)
               @ [dialog_actions (if f_busy s then ''Working'' @ dots else if gf_create x then ''Create Guild'' else ''Join Guild'')
                    (guild_valid x \<and> \<not> f_busy s)])])"

text \<open>The code is replaced by eight middle dots until it is known.\<close>

definition no_code :: string where
  "no_code = concat (replicate 8 [CHR 0xC2, CHR 0xB7])"

definition invite_html :: "invite_dialog \<Rightarrow> form_action html" where
  "invite_html d =
     modal_html ''Invite People'' CloseDialog PressOverlay
       ([El ''p'' (cls ''modal-hint'') []
           [Txt (''Share this invite code '' @ [CHR 0xE2, CHR 0x80, CHR 0x94] @ '' anyone can join from the ''),
            El ''b'' [] [] [Txt ''+''], Txt '' button in their guild rail.'']]
        @ error_line (iv_error d)
        @ [divE ''invite-row''
             [El ''code'' (cls ''invite-code'') [] [Txt (case iv_code d of Some c \<Rightarrow> c | None \<Rightarrow> no_code)],
              El ''button'' ([(''className'', ''btn primary'')] @ disabled (iv_code d = None)) [(''onClick'', CopyInvite)]
                [Txt (if iv_copied d then ''Copied!'' else ''Copy'')]]])"

section \<open>The account pages\<close>

definition email_field :: "account_fields \<Rightarrow> (string \<times> string) list \<Rightarrow> form_action html" where
  "email_field x focus =
     fieldE ''Email'' (El ''input'' ([(''type'', ''email'')] @ focus @ [(''required'', []), (''autoComplete'', ''email''),
       (''value'', utf8 (af_email x))]) [(''onChange'', EmailInput)] [])"

definition password_field :: "account_fields \<Rightarrow> string \<Rightarrow> form_action html" where
  "password_field x auto =
     fieldE ''Password'' (El ''input'' [(''type'', ''password''), (''required'', []), (''autoComplete'', auto),
       (''value'', utf8 (af_password x))] [(''onChange'', PasswordInput)] [])"

definition account_card :: "string \<Rightarrow> string \<Rightarrow> string \<Rightarrow> form_action html list \<Rightarrow> string \<Rightarrow> bool \<Rightarrow>
    string \<Rightarrow> string \<Rightarrow> string \<Rightarrow> form_action html" where
  "account_card h sub err inputs label busy ask path name =
     divE ''auth-page''
       [El ''form'' (cls ''auth-card'') [(''onSubmit'', SubmitForm)]
          ([El ''h1'' [] [] [Txt h], El ''p'' (cls ''auth-sub'') [] [Txt sub]]
           @ error_line err @ inputs
           @ [El ''button'' (cls ''btn primary full'' @ disabled busy) [] [Txt label],
              El ''p'' (cls ''auth-switch'') [] [Txt (ask @ '' ''), El ''Link'' [(''to'', path)] [] [Txt name]]])]"

definition go_home :: "'a html" where
  "go_home = El ''Navigate'' [(''to'', ''/''), (''replace'', [])] [] []"

definition login_html :: "user option \<Rightarrow> (account_fields, account_request) form \<Rightarrow> form_action html" where
  "login_html user s =
     (if user \<noteq> None then go_home
      else account_card ''Welcome back!'' (''We'' @ [CHR 0x27] @ ''re so excited to see you again!'') (f_error s)
             [email_field (fm_fields s) [(''autoFocus'', [])], password_field (fm_fields s) ''current-password'']
             (if f_busy s then ''Logging in'' @ dots else ''Log In'') (f_busy s)
             ''Need an account?'' ''/register'' ''Register'')"

definition register_html :: "user option \<Rightarrow> (account_fields, account_request) form \<Rightarrow> form_action html" where
  "register_html user s =
     (if user \<noteq> None then go_home
      else account_card ''Create an account'' ''Join Discurd and start chatting.'' (f_error s)
             [fieldE ''Username'' (El ''input'' [(''autoFocus'', []), (''required'', []), (''autoComplete'', ''username''),
                (''maxLength'', ''32''), (''value'', utf8 (af_username (fm_fields s)))] [(''onChange'', UsernameInput)] []),
              email_field (fm_fields s) [], password_field (fm_fields s) ''new-password'']
             (if f_busy s then ''Creating account'' @ dots else ''Register'') (f_busy s)
             ''Already have an account?'' ''/login'' ''Log In'')"

section \<open>The user's own profile and settings\<close>

datatype settings_action =
    ChoosePicture | PictureChosen | PronounsInput | BioInput | AccentSwitch | AccentInput | SaveProfile
  | CloseProfile | ProfileOverlay | NameText | NameKey | SaveNameClick | StormToggle | LogOut | StayOpen

text \<open>The row with the avatar: the file chosen while it is being uploaded, by its object URL.\<close>

definition avatar_row :: "browser \<Rightarrow> (upload_file \<Rightarrow> string) \<Rightarrow> user \<Rightarrow> upload_file option \<Rightarrow> bool \<Rightarrow> nat \<Rightarrow>
    settings_action html" where
  "avatar_row B object_url u chosen uploading k =
     divE ''settings-avatar-row''
       [avatar B (Some (u_username u)) (case chosen of Some f \<Rightarrow> Some (object_url f) | None \<Rightarrow> u_avatar_url u) k,
        El ''div'' [] []
          [divE ''settings-username'' [Txt (u_username u)],
           El ''button'' (cls ''btn small'' @ disabled uploading) [(''onClick'', ChoosePicture)]
             [Txt (if uploading then ''Uploading'' @ dots else ''Change Avatar'')],
           El ''input'' [(''type'', ''file''), (''accept'', ''image/*''), (''hidden'', [])] [(''onChange'', PictureChosen)] []]]"

definition too_long :: "string \<Rightarrow> nat \<Rightarrow> 'a html" where
  "too_long what n =
     divE ''form-error small'' [Txt (what @ '' must be '' @ showNat n @ '' characters or fewer.'')]"

definition profile_dialog :: "browser \<Rightarrow> (upload_file \<Rightarrow> string) \<Rightarrow> user \<Rightarrow> edit_form \<Rightarrow> settings_action html" where
  "profile_dialog B object_url u f =
     modal_html ''Edit Profile'' CloseProfile ProfileOverlay
       ([avatar_row B object_url u (ef_preview f) (ef_uploading f) 72,
         divE ''settings-divider'' [],
         fieldE ''Pronouns''
           (El ''input'' [(''value'', utf8 (ef_pronouns f)), (''maxLength'', showNat (PRONOUNS_MAX + 10)),
              (''placeholder'', ''e.g. they/them'')] [(''onChange'', PronounsInput)] [])]
        @ given (pronounsOver f) [too_long ''Pronouns'' PRONOUNS_MAX]
        @ [El ''label'' (cls ''field'') []
             [El ''span'' [] []
                [Txt ''About Me'', spanE (cls_if ''field-counter'' (bioOver f) ''over'') [Txt (showInt (bio_left f))]],
              El ''textarea'' [(''className'', ''profile-bio-input''), (''value'', utf8 (ef_bio f)), (''rows'', ''3''),
                  (''maxLength'', showNat (BIO_MAX + 40)), (''placeholder'', ''Tell everyone a little about yourself'')]
                [(''onChange'', BioInput)] []]]
        @ given (bioOver f) [too_long ''Bio'' BIO_MAX]
        @ [divE ''field''
             [El ''span'' [] [] [Txt ''Accent Color''],
              divE ''accent-row''
                [El ''label'' (cls ''accent-toggle'') []
                   [El ''input'' [(''type'', ''checkbox''), (''checked'', if ef_accentOn f then ''true'' else ''false'')]
                      [(''onChange'', AccentSwitch)] [], Txt ''Use a custom accent''],
                 El ''input'' ([(''type'', ''color''), (''className'', ''accent-color-input''), (''value'', ef_accent f)]
                     @ disabled (\<not> ef_accentOn f)) [(''onChange'', AccentInput)] []]],
           divE ''modal-actions''
             [El ''button'' (cls ''btn ghost'' @ disabled (ef_saving f)) [(''onClick'', CloseProfile)] [Txt ''Cancel''],
              El ''button'' (cls ''btn primary'' @ disabled (\<not> canSave f)) [(''onClick'', SaveProfile)]
                [Txt (if ef_saving f then ''Saving'' @ dots else ''Save'')]]])"

definition settings_html :: "browser \<Rightarrow> (upload_file \<Rightarrow> string) \<Rightarrow> bool \<Rightarrow> user \<Rightarrow> settings \<Rightarrow> settings_action html" where
  "settings_html B object_url storm u st =
     El ''div'' (cls ''settings-popover'') [(''onMouseDown'', StayOpen)]
       ([avatar_row B object_url u (st_preview st) (st_uploading st) 56,
         divE ''settings-divider'' [],
         fieldE ''Username''
           (El ''input'' [(''value'', utf8 (st_username st)), (''maxLength'', ''32'')]
              [(''onChange'', NameText), (''onKeyDown'', NameKey)] [])]
        @ given (\<not> usernameValid st \<and> trim (st_username st) \<noteq> [])
            [divE ''form-error small''
               [Txt (''2'' @ [CHR 0xE2, CHR 0x80, CHR 0x93] @ ''32 characters: letters, numbers, underscores.'')]]
        @ [El ''button'' (cls ''btn primary full'' @ disabled (\<not> usernameValid st \<or> \<not> usernameChanged st \<or> st_saving st))
             [(''onClick'', SaveNameClick)] [Txt (if st_saving st then ''Saving'' @ dots else ''Save Username'')],
           divE ''settings-divider'' [],
           El ''label'' (cls ''storm-toggle settings-storm'') []
             [El ''span'' [] [] [Txt ''Storm Mode''],
              buttonE (cls_if ''switch'' storm ''on'')
                [(''type'', ''button''), (''role'', ''switch''), (''aria-checked'', if storm then ''true'' else ''false'')]
                StormToggle [spanE ''switch-knob'' []]],
           divE ''settings-divider'' [],
           El ''button'' (cls ''btn danger full'') [(''onClick'', LogOut)] [Txt ''Log Out'']])"

section \<open>The profile card\<close>

definition formatMemberSince :: "browser \<Rightarrow> int option \<Rightarrow> string option" where
  "formatMemberSince B created = (case created of None \<Rightarrow> None | Some t \<Rightarrow> Some (br_long B (br_date B (Some t))))"

datatype card_action = CloseCard | EditProfile | InDialog settings_action

definition profile_section :: "string \<Rightarrow> string \<Rightarrow> string \<Rightarrow> 'a html" where
  "profile_section label c text =
     divE ''profile-section'' [divE ''profile-section-label'' [Txt label], divE c [Txt text]]"

definition section_html :: "browser \<Rightarrow> card_section \<Rightarrow> card_action html list" where
  "section_html B x = (case x of
     LoadingLine \<Rightarrow> [divE ''profile-loading'' [Txt (''Loading'' @ dots)]]
   | ErrorLine \<Rightarrow> [divE ''profile-loading'' [Txt (''Couldn'' @ [CHR 0xE2, CHR 0x80, CHR 0x99] @ ''t load this profile.'')]]
   | ProfileBody p accent online isMe \<Rightarrow>
       [divE ''profile-name-row''
          (spanE ''profile-username'' [Txt (u_username p)]
           # given (truthy (u_pronouns p)) [spanE ''profile-pronouns'' [Txt (or_string (u_pronouns p))]]),
        divE ''profile-status-line''
          [spanE (''profile-status-dot '' @ (if online then ''online'' else ''off'')) [],
           Txt (if online then ''Online'' else ''Offline'')]]
       @ (case formatMemberSince B (u_created_at p) of
            None \<Rightarrow> []
          | Some t \<Rightarrow> given (t \<noteq> []) [profile_section ''Member Since'' ''profile-section-text'' t])
       @ given (truthy (u_bio p)) [profile_section ''About Me'' ''profile-section-text bio'' (or_string (u_bio p))]
       @ given isMe [buttonE ''btn small full profile-edit-btn'' [] EditProfile [Txt ''Edit Profile'']])"

record card_view =
  cd_store :: profile_store
  cd_editing :: bool
  cd_form :: edit_form

definition card_isMe :: "user option \<Rightarrow> profile_store \<Rightarrow> bool" where
  "card_isMe me st = (case p_open st of None \<Rightarrow> False | Some (u, r) \<Rightarrow> is_me me u)"

definition dialog_shown :: "user option \<Rightarrow> card_view \<Rightarrow> bool" where
  "dialog_shown me c \<longleftrightarrow> p_open (cd_store c) \<noteq> None \<and> cd_editing c \<and> card_isMe me (cd_store c)"

definition card_html :: "browser \<Rightarrow> (upload_file \<Rightarrow> string) \<Rightarrow> string \<times> string \<Rightarrow> user option \<Rightarrow> chat \<Rightarrow> card_view \<Rightarrow>
    card_action html list" where
  "card_html B object_url pos me s c =
     (let st = cd_store c; p = card_profile me st; online = card_online me s st
      in if p_open st = None then []
         else [El ''div'' (cls ''sheet-backdrop profile-backdrop'') [(''onMouseDown'', CloseCard)] [],
               El ''div'' [(''className'', ''profile-card''), (''left'', fst pos), (''top'', snd pos), (''width'', ''320'')] []
                 [El ''div'' [(''className'', ''profile-banner''),
                              (''background'', case p of None \<Rightarrow> default_accent | Some v \<Rightarrow> accent_of v)] [] [],
                  divE ''profile-avatar-wrap''
                    [avatar B (Some (case p of Some v \<Rightarrow> if u_username v = [] then ''?'' else u_username v | None \<Rightarrow> ''?''))
                       (Option.bind p u_avatar_url) 80,
                     spanE (''presence-dot big '' @ (if online then ''online'' else ''off'')) []],
                  divE ''profile-body'' (concat (map (section_html B) (card_sections me s st)))]]
              @ (if dialog_shown me c
                 then (case me of None \<Rightarrow> [] | Some u \<Rightarrow> [map_html InDialog (profile_dialog B object_url u (cd_form c))])
                 else []))"

text \<open>
  Where the mouse is pressed. The effects: a press that is not inside the card closes it, and another
  card, or none, ends the editing. The dialog is beside the card in the markup, not inside it.
\<close>

datatype press_place = OnCard | OnDialog | OnDialogOverlay | Elsewhere

definition card_editing :: "profile_store \<Rightarrow> card_view \<Rightarrow> card_view" where
  "card_editing st c =
     c\<lparr>cd_store := st,
       cd_editing := (cd_editing c \<and> map_option fst (p_open st) = map_option fst (p_open (cd_store c)))\<rparr>"

definition card_press :: "press_place \<Rightarrow> card_view \<Rightarrow> card_view" where
  "card_press pl c =
     (let c1 = modal_onDown (\<lambda>x. x\<lparr>cd_editing := False\<rparr>) (pl = OnDialogOverlay) c
      in card_editing (card_onDown (pl = OnCard) (cd_store c1)) c1)"

text \<open>So the dialog cannot be used with the mouse: the press of any click inside it takes it away.\<close>

lemma press_in_dialog_closes_it:
  "dialog_shown me c \<Longrightarrow> \<not> dialog_shown me (card_press OnDialog c) \<and> p_open (cd_store (card_press OnDialog c)) = None"
  by (simp add: dialog_shown_def card_press_def card_editing_def card_onDown_def closeCard_def modal_onDown_def)

lemma press_in_card_keeps_it: "card_press OnCard c = c"
  by (simp add: card_press_def card_editing_def card_onDown_def modal_onDown_def)

section \<open>Routes\<close>

datatype page = LoginShown | RegisterShown | Booting | Shell | Redirect string

definition login_page :: "user option \<Rightarrow> page \<Rightarrow> page" where
  "login_page user pg = (if user \<noteq> None then Redirect ''/'' else pg)"

definition guarded :: "bool \<Rightarrow> auth \<Rightarrow> page" where
  "guarded failed a = (case requireAuth failed a of
     LoginRedirect \<Rightarrow> Redirect ''/login'' | BootScreen \<Rightarrow> Booting | Children \<Rightarrow> Shell)"

definition route :: "auth \<Rightarrow> bool \<Rightarrow> string \<Rightarrow> page" where
  "route a failed path =
     (if path = ''/login'' then login_page (au_user a) LoginShown
      else if path = ''/register'' then login_page (au_user a) RegisterShown
      else guarded failed a)"

text \<open>A redirect unmounts the page it leaves, so the guard of the next one has not failed.\<close>

fun follow_redirects :: "nat \<Rightarrow> auth \<Rightarrow> bool \<Rightarrow> string \<Rightarrow> page" where
  "follow_redirects 0 a failed path = route a failed path"
| "follow_redirects (Suc n) a failed path = (case route a failed path of
     Redirect p \<Rightarrow> follow_redirects n a False p | pg \<Rightarrow> pg)"

lemma redirect_loop:
  assumes "au_user a \<noteq> None" "\<not> truthy (refreshToken a)" "\<not> truthy (accessToken a)"
  shows "\<exists>p. follow_redirects n a failed path = Redirect p"
proof -
  have "\<exists>p. route a f q = Redirect p" for f q
    using assms by (simp add: route_def login_page_def guarded_def requireAuth_def)
  then show ?thesis
  proof (induction n arbitrary: failed path)
    case (Suc n)
    obtain p where "route a failed path = Redirect p" using Suc.prems [of failed path] by blast
    then show ?case using Suc by simp
  qed simp
qed

text \<open>
  C36: following the redirects of the routes ends, at most at the third page, unless there is a user
  without any token: then the guard sends to the login page and the login page sends back, for ever.
  Every other session ends on a page: the application or the boot screen, the login or the
  registration.
\<close>
theorem redirects_settle:
  "(if au_user a \<noteq> None \<and> \<not> truthy (refreshToken a) \<and> \<not> truthy (accessToken a)
    then \<forall>n. \<exists>p. follow_redirects n a failed path = Redirect p
    else follow_redirects 2 a failed path \<in> {LoginShown, RegisterShown, Booting, Shell})"
proof (cases "au_user a \<noteq> None \<and> \<not> truthy (refreshToken a) \<and> \<not> truthy (accessToken a)")
  case True
  then show ?thesis using redirect_loop [of a] by simp
next
  case False
  then show ?thesis
    by (auto simp: numeral_2_eq_2 route_def login_page_def guarded_def requireAuth_def split: view.splits if_splits)
qed

text \<open>
  A save of the profile that was answered after the user had signed out puts the user back without a
  token, and so starts that loop.
\<close>

lemma save_after_logout_loops:
  assumes "w_tab w = clearSession t"
  shows "\<exists>p. follow_redirects n (fst (w_tab (save_ok u w))) failed path = Redirect p"
proof -
  have "fst (w_tab (save_ok u w)) = \<lparr>au_user = Some u, accessToken = None, refreshToken = None\<rparr>"
    using clearSession_simps [of t] by (cases "clearSession t") (simp add: save_ok_def assms setUser_def)
  then show ?thesis by (intro redirect_loop) simp_all
qed

section \<open>Honest buttons\<close>

lemmas form_html_defs = channel_dialog_def guild_dialog_def invite_html_def login_html_def register_html_def
  modal_html_def dialog_actions_def type_option_def tab_button_def fieldE_def error_line_def account_card_def
  email_field_def password_field_def icon_def given_def

lemma in_disabled: "x \<in> set (disabled b) \<longleftrightarrow> b \<and> x = (''disabled'', [])"
  by (auto simp: disabled_def)

lemma channel_form_button: "forms_in (channel_dialog s) = [channel_valid (fm_fields s) \<and> \<not> f_busy s]"
  by (simp add: form_html_defs html_simps in_disabled Let_def)

lemma guild_form_button: "forms_in (guild_dialog s) = [guild_valid (fm_fields s) \<and> \<not> f_busy s]"
  by (simp add: form_html_defs html_simps in_disabled Let_def)

lemma account_form_buttons:
  "forms_in (login_html None s) = [\<not> f_busy s]" "forms_in (register_html None s) = [\<not> f_busy s]"
  by (simp_all add: form_html_defs html_simps in_disabled)

lemma modal_offers [html_simps]: "offers (modal_html t x y cs # r) = {x, y} \<union> offers cs \<union> offers r"
  by (auto simp: modal_html_def html_simps)

lemma too_long_offers [html_simps]: "offers (too_long w n # r) = offers r"
  by (simp add: too_long_def html_simps)

lemma fieldE_offers [html_simps]: "offers (fieldE l i # r) = offers [i] \<union> offers r"
  by (auto simp: fieldE_def html_simps)

lemma avatar_row_offers [html_simps]:
  "offers (avatar_row B url u ch up k # r) = {PictureChosen} \<union> (if up then {} else {ChoosePicture}) \<union> offers r"
  by (simp add: avatar_row_def html_simps)

lemma profile_dialog_offers:
  "offers [profile_dialog B url u f] =
     {CloseProfile, ProfileOverlay, PictureChosen, PronounsInput, BioInput, AccentSwitch}
     \<union> (if ef_uploading f then {} else {ChoosePicture}) \<union> (if ef_accentOn f then {AccentInput} else {})
     \<union> (if canSave f then {SaveProfile} else {})"
  by (auto simp: profile_dialog_def html_simps)

lemma settings_offers:
  "offers [settings_html B url storm u st] =
     {StayOpen, PictureChosen, NameText, NameKey, StormToggle, LogOut} \<union> (if st_uploading st then {} else {ChoosePicture})
     \<union> (if usernameValid st \<and> usernameChanged st \<and> \<not> st_saving st then {SaveNameClick} else {})"
  by (auto simp: settings_html_def html_simps)

lemma invite_offers:
  "offers [invite_html d] = {CloseDialog, PressOverlay} \<union> (if iv_code d = None then {} else {CopyInvite})"
  by (auto simp: invite_html_def error_line_def html_simps)


end
