(* ===== verification/Shell_Html.thy ===== *)
theory Shell_Html imports Html Guild_View Profile_Store Chat_Machine
begin

text \<open>
  The frame of the application: the markup of \<open>AppShell.jsx\<close> and of the navigation around the messages
  (\<open>GuildRail.jsx\<close>, \<open>ChannelSidebar.jsx\<close>, \<open>VoiceControlBar.jsx\<close>, \<open>UserPanel.jsx\<close>, \<open>MemberList.jsx\<close>,
  \<open>MobileTopBar.jsx\<close>, \<open>VoiceStage.jsx\<close>, \<open>LightningButton.jsx\<close>, \<open>Toasts.jsx\<close>), over the state \<open>app\<close> that
  joins the stores they read with the switches the components keep. \<open>nav_act\<close> is what each control
  does. Dialogs and panes modelled elsewhere appear as elements named after their component.
\<close>

section \<open>State and actions\<close>

datatype nav_action =
    NavGuild string | NavRailAdd | NavRailAddClose | NavShellAdd | NavShellAddClose
  | NavMenu | NavInvite | NavInviteClose | NavCreateMenu | NavCreateHeader | NavCreateClose
  | NavText string | NavVoice string string | NavShowStage | NavToggle device | NavLeave
  | NavSettings | NavDrawer | NavMembers | NavProfile string | NavLightning
  | NavTouchStart | NavTouchEnd direction | NavBackdrop | NavDismiss nat

record app =
  ap_client :: client
  ap_voice :: voice
  ap_shell :: shell
  ap_profiles :: profile_store
  ap_railAdd :: bool
  ap_shellAdd :: bool
  ap_menuOpen :: bool
  ap_showInvite :: bool
  ap_showCreate :: bool
  ap_settings :: bool

definition initial_app :: "user option \<Rightarrow> app" where
  "initial_app u =
     \<lparr>ap_client = initial_client u, ap_voice = initial_voice,
      ap_shell = \<lparr>ui_state = initial_ui, touchRef = None, shown_guild = None, shown_channel = None\<rparr>,
      ap_profiles = initial_profiles, ap_railAdd = False, ap_shellAdd = False, ap_menuOpen = False,
      ap_showInvite = False, ap_showCreate = False, ap_settings = False\<rparr>"

abbreviation ap_chat :: "app \<Rightarrow> chat" where
  "ap_chat w \<equiv> chat (ap_client w)"

section \<open>Toasts, lightning, guilds\<close>

definition toasts_html :: "toast_store \<Rightarrow> nav_action html list" where
  "toasts_html ts = given (toasts ts \<noteq> [])
     [divE ''toasts''
        (map (\<lambda>t. El ''div'' [(''key'', showNat (t_id t)), (''className'', ''toast toast-'' @ t_type t), (''role'', ''alert'')]
                    [(''onClick'', NavDismiss (t_id t))] [Txt (t_message t)]) (toasts ts))]"

definition lightning_html :: "nav_action html" where
  "lightning_html = buttonE ''lightning-fab'' [(''title'', ''Strike lightning (Alt+L)''), (''aria-label'', ''Strike lightning'')]
     NavLightning [icon ''BoltIcon'' 24]"

definition guild_button :: "browser \<Rightarrow> chat \<Rightarrow> guild \<Rightarrow> nav_action html" where
  "guild_button B s g =
     El ''button'' [(''key'', g_id g), (''title'', g_name g),
                    (''className'', cls_if ''guild-icon'' (Some (g_id g) = selectedGuildId s) ''active'')]
       [(''onClick'', NavGuild (g_id g))]
       [spanE ''guild-pill'' [],
        if g_icon_url g \<noteq> [] then El ''img'' [(''src'', g_icon_url g), (''alt'', [])] [] []
        else spanE ''guild-letter'' [Txt (br_initial B (g_name g))]]"

definition guild_rail_html :: "browser \<Rightarrow> app \<Rightarrow> nav_action html" where
  "guild_rail_html B w =
     El ''nav'' [(''className'', ''guild-rail''), (''aria-label'', ''Guilds'')] []
       (map (guild_button B (ap_chat w)) (guilds (ap_chat w))
        @ [buttonE ''guild-icon add-guild'' [(''title'', ''Add a guild'')] NavRailAdd [icon ''PlusIcon'' 22]]
        @ given (ap_railAdd w) [El ''AddGuildModal'' [] [(''onClose'', NavRailAddClose)] []])"

section \<open>The channel sidebar\<close>

definition voice_participant :: "browser \<Rightarrow> descriptor \<times> bool \<Rightarrow> nav_action html" where
  "voice_participant B pb = (case pb of (p, speaking) \<Rightarrow>
     El ''div'' [(''key'', ds_identity p), (''className'', cls_if ''voice-participant'' speaking ''speaking'')] []
       ([spanE ''voice-participant-avatar'' [avatar B (Some (ds_name p)) (Some (ds_avatarUrl p)) 24],
         spanE ''voice-participant-name'' [Txt (ds_name p)]]
        @ given (\<not> ds_micEnabled p)
            [El ''span'' [(''className'', ''voice-participant-muted''), (''title'', ''Muted'')] [] [icon ''MicOffIcon'' 14]]))"

definition voice_item :: "browser \<Rightarrow> voice \<Rightarrow> string \<Rightarrow> channel \<Rightarrow> nav_action html" where
  "voice_item B v guildId c =
     El ''div'' [(''key'', ch_id c), (''className'', ''voice-channel'')] []
       (El ''button'' (cls (cls_if (cls_if ''channel-item voice'' (voice_active v c) ''active'') (inHere v c) ''joined''))
          [(''onClick'', NavVoice (ch_id c) guildId)]
          ([spanE ''hash'' [icon ''VolumeIcon'' 18], spanE ''channel-item-name'' [Txt (ch_name c)]]
           @ given (vconnecting v \<and> roomChannelId v = Some (ch_id c)) [spanE ''voice-joining'' [Txt dots]])
        # given (inHere v c \<and> 0 < length (participants v))
            [divE ''voice-participants'' (map (voice_participant B) (voice_members v c))])"

definition guild_menu :: "app \<Rightarrow> guild \<Rightarrow> bool \<Rightarrow> nav_action html" where
  "guild_menu w g owner =
     divE ''guild-header''
       (buttonE ''guild-header-btn'' [] NavMenu
          [spanE ''guild-header-name'' [Txt (g_name g)],
           spanE ''chevron'' [if ap_menuOpen w then icon ''CloseIcon'' 16 else icon ''ChevronDownIcon'' 18]]
        # given (ap_menuOpen w)
            [divE ''dropdown''
               (El ''button'' [] [(''onClick'', NavInvite)] [Txt ''Invite People'']
                # given owner [El ''button'' [] [(''onClick'', NavCreateMenu)] [Txt ''Create Channel'']])])"

definition text_item :: "chat \<Rightarrow> voice \<Rightarrow> channel \<Rightarrow> nav_action html" where
  "text_item s v c =
     El ''button'' [(''key'', ch_id c), (''className'', cls_if ''channel-item'' (channel_active s v c) ''active'')]
       [(''onClick'', NavText (ch_id c))]
       [spanE ''hash'' [Txt ''#''], spanE ''channel-item-name'' [Txt (ch_name c)]]"

definition channel_list :: "browser \<Rightarrow> chat \<Rightarrow> voice \<Rightarrow> guild \<Rightarrow> bool \<Rightarrow> nav_action html" where
  "channel_list B s v g owner =
     (let cs = sidebar_channels s
      in divE ''channel-list''
           ([divE ''channel-list-header''
               (El ''span'' [] [] [Txt ''Text Channels'']
                # given owner [buttonE ''icon-btn'' [(''title'', ''Create Channel'')] NavCreateHeader [icon ''PlusIcon'' 16]])]
            @ map (text_item s v) (textChannels cs)
            @ given (0 < length (voiceChannels cs))
                (divE ''channel-list-header voice-header'' [El ''span'' [] [] [Txt ''Voice Channels'']]
                 # map (voice_item B v (g_id g)) (voiceChannels cs))
            @ given (cs = []) [divE ''sidebar-empty'' [Txt ''No channels yet'']]))"

definition voice_bar :: "chat \<Rightarrow> voice \<Rightarrow> nav_action html list" where
  "voice_bar s v = given (vconnected v)
     [divE ''voice-control-bar''
        [buttonE ''voice-status'' [(''title'', ''Return to call'')] NavShowStage
           [spanE ''voice-status-label'' [spanE ''voice-status-dot'' [], Txt ''Voice Connected''],
            spanE ''voice-status-channel'' [Txt (stage_title s v)]],
         divE ''voice-controls''
           [buttonE (cls_if ''voice-ctl'' (\<not> localMic v) ''off'') [(''title'', if localMic v then ''Mute'' else ''Unmute'')]
              (NavToggle Microphone) [if localMic v then icon ''MicIcon'' 18 else icon ''MicOffIcon'' 18],
            buttonE (cls_if ''voice-ctl'' (localCam v) ''active'')
              [(''title'', if localCam v then ''Turn off camera'' else ''Turn on camera'')]
              (NavToggle Camera) [if localCam v then icon ''VideoIcon'' 18 else icon ''VideoOffIcon'' 18],
            buttonE (cls_if ''voice-ctl'' (localScreen v) ''active'')
              [(''title'', if localScreen v then ''Stop sharing'' else ''Share your screen'')]
              (NavToggle Screen) [icon ''ScreenShareIcon'' 18],
            buttonE ''voice-ctl hangup'' [(''title'', ''Disconnect'')] NavLeave [icon ''PhoneOffIcon'' 18]]]]"

definition user_panel :: "browser \<Rightarrow> app \<Rightarrow> nav_action html list" where
  "user_panel B w = (case authUser (ap_client w) of
     None \<Rightarrow> []
   | Some u \<Rightarrow>
       [divE ''user-panel''
          ([divE ''user-panel-avatar''
              [avatar B (Some (u_username u)) (u_avatar_url u) 32, spanE ''presence-dot online'' []],
            divE ''user-panel-name''
              [El ''div'' [(''className'', ''username''), (''title'', u_username u)] [] [Txt (u_username u)],
               divE ''user-sub'' [Txt ''online'']],
            buttonE (cls_if ''icon-btn gear'' (ap_settings w) ''active'') [(''title'', ''User Settings'')] NavSettings
              [icon ''GearIcon'' 20]]
           @ given (ap_settings w) [El ''SettingsPopover'' [] [] []])])"

definition sidebar_html :: "browser \<Rightarrow> app \<Rightarrow> nav_action html" where
  "sidebar_html B w =
     (let s = ap_chat w; v = ap_voice w; owner = isOwner (authUser (ap_client w)) s
      in El ''aside'' (cls ''channel-sidebar'') []
           ((case find_guild s of
               Some g \<Rightarrow> [guild_menu w g owner, channel_list B s v g owner]
             | None \<Rightarrow> [divE ''guild-header'' [spanE ''guild-header-name muted'' [Txt ''Discurd'']], divE ''channel-list'' []])
            @ voice_bar s v @ user_panel B w
            @ given (ap_showInvite w \<and> find_guild s \<noteq> None) [El ''InviteModal'' [] [(''onClose'', NavInviteClose)] []]
            @ given (ap_showCreate w \<and> find_guild s \<noteq> None)
                [El ''CreateChannelModal'' [] [(''onClose'', NavCreateClose)] []]))"

section \<open>Members, the top bar, the stage\<close>

definition member_row :: "browser \<Rightarrow> bool \<Rightarrow> gmember \<Rightarrow> nav_action html" where
  "member_row B offline m =
     El ''div'' [(''key'', mb_user_id m), (''className'', cls_if ''member-row clickable'' offline ''offline'')]
       [(''onClick'', NavProfile (mb_user_id m))]
       ([spanE ''member-avatar''
           [avatar B (Some (mb_username m)) (Some (mb_avatar_url m)) 32,
            spanE (''presence-dot '' @ (if mb_status m = ''online'' then ''online'' else ''off'')) []],
         El ''span'' [(''className'', ''member-name''), (''title'', mb_username m)] [] [Txt (mb_username m)]]
        @ given (mb_is_owner m)
            [El ''span'' [(''className'', ''owner-crown''), (''title'', ''Guild Owner'')] [] [icon ''CrownIcon'' 14]])"

definition member_group :: "browser \<Rightarrow> bool \<Rightarrow> string \<Rightarrow> gmember list \<Rightarrow> nav_action html list" where
  "member_group B offline label ms = given (ms \<noteq> [])
     [divE ''member-group'' (divE ''member-group-label'' [Txt label] # map (member_row B offline) ms)]"

definition dash_count :: "string \<Rightarrow> gmember list \<Rightarrow> string" where
  "dash_count what ms = what @ [CHR 0x20, CHR 0xE2, CHR 0x80, CHR 0x94, CHR 0x20] @ showNat (length ms)"

definition guild_members :: "chat \<Rightarrow> gmember list" where
  "guild_members s = (if truthy (selectedGuildId s)
     then or_empty (oget (membersByGuild s) (the (selectedGuildId s))) else [])"

definition member_list_html :: "browser \<Rightarrow> string comparator \<Rightarrow> chat \<Rightarrow> nav_action html list" where
  "member_list_html B cmp s = (case find_guild s of
     None \<Rightarrow> []
   | Some g \<Rightarrow>
       (let ms = guild_members s;
            on = online_members cmp ms; off = offline_members cmp ms
        in [El ''aside'' [(''className'', ''member-list''), (''aria-label'', ''Members'')] []
              (member_group B False (dash_count ''Online'' on) on @ member_group B True (dash_count ''Offline'' off) off)]))"

definition top_bar_html :: "chat \<Rightarrow> voice \<Rightarrow> nav_action html" where
  "top_bar_html s v =
     (let isVoice = (voiceView v \<and> find_channel s (roomGuildId v) (roomChannelId v) \<noteq> None)
      in El ''header'' (cls ''mobile-top-bar'') []
           [buttonE ''icon-btn topbar-btn'' [(''aria-label'', ''Open navigation''), (''title'', ''Menu'')] NavDrawer
              [icon ''MenuIcon'' 24],
            spanE ''topbar-title''
              [spanE ''topbar-hash'' [if isVoice then icon ''VolumeIcon'' 18 else icon ''HashIcon'' 18],
               spanE ''topbar-name'' [Txt (top_title s v)]],
            if find_guild s \<noteq> None
            then buttonE ''icon-btn topbar-btn'' [(''aria-label'', ''Show members''), (''title'', ''Members'')] NavMembers
                   [icon ''PeopleIcon'' 24]
            else El ''span'' [(''className'', ''topbar-btn''), (''aria-hidden'', ''true'')] [] []])"

text \<open>The tiles keep a state of their own, which the effect of theory \<open>Guild_View\<close> sets.\<close>

definition tile_html :: "browser \<Rightarrow> tile \<Rightarrow> descriptor \<Rightarrow> nav_action html" where
  "tile_html B t p =
     El ''div'' [(''key'', ds_identity p),
                 (''className'', cls_if ''voice-tile'' (ds_isSpeaking p \<and> ds_micEnabled p) ''speaking'')] []
       ([El ''video''
           [(''className'', cls_if (''voice-video '' @ (if tl_active t then [] else ''hidden'')) (tl_isScreen t) ''contain''),
            (''autoPlay'', []), (''playsInline'', []), (''muted'', [])] [] []]
        @ given (\<not> tl_active t)
            [divE ''voice-tile-avatar'' [avatar B (Some (ds_name p)) (Some (ds_avatarUrl p)) 80]]
        @ [divE ''voice-tile-overlay''
             (given (\<not> ds_micEnabled p)
                [El ''span'' [(''className'', ''voice-tile-muted''), (''title'', ''Muted'')] [] [icon ''MicOffIcon'' 16]]
              @ [spanE ''voice-tile-name'' [Txt (ds_name p), Txt (if ds_isLocal p then '' (you)'' else [])]])])"

definition remote_audio :: "voice \<Rightarrow> nav_action html" where
  "remote_audio v =
     El ''div'' [(''className'', ''voice-audio-sinks''), (''aria-hidden'', ''true'')] []
       (map (\<lambda>(k, t). El ''audio'' [(''key'', k), (''autoPlay'', [])] [] []) (getRemoteAudioTracks v))"

definition stage_html :: "browser \<Rightarrow> (string \<Rightarrow> tile) \<Rightarrow> chat \<Rightarrow> voice \<Rightarrow> nav_action html" where
  "stage_html B tiles s v =
     El ''main'' (cls ''voice-stage'') []
       [El ''header'' (cls ''channel-header'') []
          [spanE ''channel-header-hash'' [icon ''VolumeIcon'' 22],
           spanE ''channel-title'' [Txt (stage_title s v)],
           spanE ''header-divider'' [],
           spanE ''voice-connected-label'' [Txt ''Voice Connected'']],
        divE ''voice-stage-body''
          [case stage_shows v of
             ConnectingNote \<Rightarrow> divE ''voice-stage-connecting'' [Txt (''Connecting to voice'' @ dots)]
           | Grid ps \<Rightarrow> El ''div'' [(''className'', ''voice-grid''), (''data-count'', showNat (length ps))] []
                          (map (\<lambda>p. tile_html B (tiles (ds_identity p)) p) ps)],
        remote_audio v]"

section \<open>The shell\<close>

definition welcome_html :: "app \<Rightarrow> nav_action html" where
  "welcome_html w =
     divE ''no-guilds''
       ([El ''h2'' [] [] [Txt ''Welcome to Discurd''],
         El ''p'' [] [] [Txt (''You'' @ [CHR 0x27] @ ''re not in any guilds yet. Create your own, or join one with an invite code.'')],
         buttonE ''btn primary'' [] NavShellAdd [Txt ''Create or join a guild'']]
        @ given (ap_shellAdd w) [El ''AddGuildModal'' [] [(''onClose'', NavShellAddClose)] []])"

definition no_guilds :: "chat \<Rightarrow> bool" where
  "no_guilds s \<longleftrightarrow> guildsLoaded s \<and> \<not> 0 < length (guilds s)"

definition shell_html :: "browser \<Rightarrow> string comparator \<Rightarrow> (string \<Rightarrow> tile) \<Rightarrow> app \<Rightarrow> nav_action html" where
  "shell_html B cmp tiles w =
     (let s = ap_chat w; v = ap_voice w; u = ui_state (ap_shell w)
      in divE ''app-shell''
           (given (guildsLoaded s \<and> \<not> wsConnected s) [divE ''reconnect-bar'' [Txt (''Connecting'' @ dots)]]
            @ [El ''EffectsOverlay'' [] [] [], El ''ProfileCard'' [] [] [], lightning_html, top_bar_html s v,
               El ''div'' (cls (cls_if ''nav-drawer'' (navOpen u) ''open''))
                 [(''onTouchStart'', NavTouchStart), (''onTouchEnd'', NavTouchEnd Left)]
                 (guild_rail_html B w # given (\<not> no_guilds s) [sidebar_html B w])]
            @ (if no_guilds s then [welcome_html w]
               else [if voiceView v then stage_html B tiles s v else El ''MessagePane'' [] [] [],
                     El ''div'' (cls (cls_if ''members-drawer'' (membersOpen u) ''open''))
                       [(''onTouchStart'', NavTouchStart), (''onTouchEnd'', NavTouchEnd Right)]
                       (member_list_html B cmp s)])
            @ given (navOpen u \<or> membersOpen u) [El ''div'' (cls ''drawer-backdrop'') [(''onClick'', NavBackdrop)] []]))"

text \<open>\<open>App.jsx\<close> shows the toasts beside the route.\<close>

definition app_html :: "browser \<Rightarrow> string comparator \<Rightarrow> (string \<Rightarrow> tile) \<Rightarrow> app \<Rightarrow> nav_action html list" where
  "app_html B cmp tiles w = shell_html B cmp tiles w # toasts_html (toastState (ap_client w))"

section \<open>What the controls do\<close>

definition in_ui :: "(ui \<Rightarrow> ui) \<Rightarrow> app \<Rightarrow> app" where
  "in_ui f w = w\<lparr>ap_shell := (ap_shell w)\<lparr>ui_state := f (ui_state (ap_shell w))\<rparr>\<rparr>"

text \<open>The handlers of each component; the actions of the others leave its state alone.\<close>

fun rail_act :: "nav_action \<Rightarrow> app \<Rightarrow> app" where
  "rail_act (NavGuild g) w = w\<lparr>ap_client := selectGuild g (ap_client w)\<rparr>"
| "rail_act NavRailAdd w = w\<lparr>ap_railAdd := True\<rparr>"
| "rail_act NavRailAddClose w = w\<lparr>ap_railAdd := False\<rparr>"
| "rail_act _ w = w"

fun sidebar_act :: "nav_action \<Rightarrow> app \<Rightarrow> app" where
  "sidebar_act NavMenu w = w\<lparr>ap_menuOpen := \<not> ap_menuOpen w\<rparr>"
| "sidebar_act NavInvite w = w\<lparr>ap_menuOpen := False, ap_showInvite := True\<rparr>"
| "sidebar_act NavInviteClose w = w\<lparr>ap_showInvite := False\<rparr>"
| "sidebar_act NavCreateMenu w = w\<lparr>ap_menuOpen := False, ap_showCreate := True\<rparr>"
| "sidebar_act NavCreateHeader w = w\<lparr>ap_showCreate := True\<rparr>"
| "sidebar_act NavCreateClose w = w\<lparr>ap_showCreate := False\<rparr>"
| "sidebar_act (NavText c) w =
     (case openTextChannel c (ap_client w, ap_voice w, ui_state (ap_shell w)) of (a, v, u) \<Rightarrow>
        in_ui (\<lambda>_. u) (w\<lparr>ap_client := a, ap_voice := v\<rparr>))"
| "sidebar_act (NavVoice c g) w =
     (case openVoiceChannel c g (ap_client w, ap_voice w, ui_state (ap_shell w)) of (a, v, u) \<Rightarrow>
        in_ui (\<lambda>_. u) (w\<lparr>ap_client := a, ap_voice := v\<rparr>))"
| "sidebar_act _ w = w"

fun voice_bar_act :: "nav_action \<Rightarrow> app \<Rightarrow> app" where
  "voice_bar_act NavShowStage w = w\<lparr>ap_voice := (ap_voice w)\<lparr>viewVoiceStage := True\<rparr>\<rparr>"
| "voice_bar_act (NavToggle d) w = w\<lparr>ap_voice := toggle_device d (ap_voice w)\<rparr>"
| "voice_bar_act NavLeave w = w\<lparr>ap_voice := leave (ap_voice w)\<rparr>"
| "voice_bar_act _ w = w"

fun user_panel_act :: "nav_action \<Rightarrow> app \<Rightarrow> app" where
  "user_panel_act NavSettings w = w\<lparr>ap_settings := \<not> ap_settings w\<rparr>"
| "user_panel_act _ w = w"

fun top_bar_act :: "nav_action \<Rightarrow> app \<Rightarrow> app" where
  "top_bar_act NavDrawer w = in_ui toggleNav w"
| "top_bar_act NavMembers w = in_ui toggleMembers w"
| "top_bar_act _ w = w"

fun member_act :: "rect \<Rightarrow> nav_action \<Rightarrow> app \<Rightarrow> app" where
  "member_act r (NavProfile i) w = w\<lparr>ap_profiles := snd (openProfileFromEvent r (Some i) (ap_profiles w))\<rparr>"
| "member_act r _ w = w"

fun lightning_act :: "nav_action \<Rightarrow> app \<Rightarrow> app" where
  "lightning_act NavLightning w = w\<lparr>ap_client := trigger ''lightning'' (ap_client w)\<rparr>"
| "lightning_act _ w = w"

fun toast_act :: "nav_action \<Rightarrow> app \<Rightarrow> app" where
  "toast_act (NavDismiss i) w = w\<lparr>ap_client := (ap_client w)\<lparr>toastState := dismiss i (toastState (ap_client w))\<rparr>\<rparr>"
| "toast_act _ w = w"

fun shell_act :: "int \<times> int \<Rightarrow> nav_action \<Rightarrow> app \<Rightarrow> app" where
  "shell_act pt NavShellAdd w = w\<lparr>ap_shellAdd := True\<rparr>"
| "shell_act pt NavShellAddClose w = w\<lparr>ap_shellAdd := False\<rparr>"
| "shell_act pt NavTouchStart w = w\<lparr>ap_shell := onTouchStart pt (ap_shell w)\<rparr>"
| "shell_act pt (NavTouchEnd d) w = w\<lparr>ap_shell := swipeClose pt d (ap_shell w)\<rparr>"
| "shell_act pt NavBackdrop w = in_ui closeDrawers w"
| "shell_act pt _ w = w"

text \<open>An action of the page, with the clicked element's place \<open>r\<close> and the touch \<open>pt\<close>.\<close>

definition nav_act :: "rect \<Rightarrow> int \<times> int \<Rightarrow> nav_action \<Rightarrow> app \<Rightarrow> app" where
  "nav_act r pt x w =
     rail_act x (sidebar_act x (voice_bar_act x (user_panel_act x (top_bar_act x (member_act r x
       (lightning_act x (toast_act x (shell_act pt x w))))))))"

text \<open>A press outside the open menu, or outside the open settings, closes it.\<close>

definition menu_onDoc :: "bool \<Rightarrow> app \<Rightarrow> app" where
  "menu_onDoc inside w = (if ap_menuOpen w \<and> \<not> inside then w\<lparr>ap_menuOpen := False\<rparr> else w)"

definition settings_onDoc :: "bool \<Rightarrow> app \<Rightarrow> app" where
  "settings_onDoc inside w = (if ap_settings w \<and> \<not> inside then w\<lparr>ap_settings := False\<rparr> else w)"

section \<open>The controls of each part\<close>

lemma toasts_offers [html_simps]: "offers (toasts_html ts) = NavDismiss ` t_id ` set (toasts ts)"
  by (auto simp: toasts_html_def html_simps)

lemma lightning_offers [html_simps]: "offers (lightning_html # r) = {NavLightning} \<union> offers r"
  by (simp add: lightning_html_def html_simps)

lemma guild_button_offers [html_simps]: "offers (guild_button B s g # r) = {NavGuild (g_id g)} \<union> offers r"
  by (simp add: guild_button_def html_simps)

lemma guild_rail_offers [html_simps]:
  "offers (guild_rail_html B w # r) = NavGuild ` g_id ` set (guilds (ap_chat w)) \<union> {NavRailAdd}
     \<union> (if ap_railAdd w then {NavRailAddClose} else {}) \<union> offers r"
  by (auto simp: guild_rail_html_def html_simps)

lemma voice_participant_offers [html_simps]: "offers (voice_participant B pb # r) = offers r"
  by (simp add: voice_participant_def html_simps split: prod.split)

lemma voice_item_offers [html_simps]:
  "offers (voice_item B v g c # r) = {NavVoice (ch_id c) g} \<union> offers r"
  by (auto simp: voice_item_def html_simps)

lemma text_item_offers [html_simps]: "offers (text_item s v c # r) = {NavText (ch_id c)} \<union> offers r"
  by (simp add: text_item_def html_simps)

lemma guild_menu_offers [html_simps]:
  "offers (guild_menu w g owner # r) = {NavMenu}
     \<union> (if ap_menuOpen w then {NavInvite} \<union> (if owner then {NavCreateMenu} else {}) else {}) \<union> offers r"
  by (auto simp: guild_menu_def html_simps)

lemma channel_list_offers [html_simps]:
  "offers (channel_list B s v g owner # r) = (if owner then {NavCreateHeader} else {})
     \<union> NavText ` ch_id ` set (textChannels (sidebar_channels s))
     \<union> (\<lambda>c. NavVoice (ch_id c) (g_id g)) ` set (voiceChannels (sidebar_channels s)) \<union> offers r"
  by (auto simp: channel_list_def html_simps Let_def)

definition call_controls :: "nav_action set" where
  "call_controls = {NavShowStage, NavToggle Microphone, NavToggle Camera, NavToggle Screen, NavLeave}"

lemma voice_bar_offers [html_simps]:
  "offers (voice_bar s v) = (if vconnected v then call_controls else {})"
  by (auto simp: voice_bar_def html_simps call_controls_def)

lemma user_panel_offers [html_simps]:
  "offers (user_panel B w) = (if authUser (ap_client w) = None then {} else {NavSettings})"
  by (auto simp: user_panel_def html_simps split: option.split)

text \<open>The sidebar, by whether a guild is selected.\<close>

definition guild_controls :: "app \<Rightarrow> guild \<Rightarrow> nav_action set" where
  "guild_controls w g =
     (let owner = isOwner (authUser (ap_client w)) (ap_chat w); cs = sidebar_channels (ap_chat w)
      in {NavMenu} \<union> (if ap_menuOpen w then {NavInvite} \<union> (if owner then {NavCreateMenu} else {}) else {})
         \<union> (if owner then {NavCreateHeader} else {})
         \<union> NavText ` ch_id ` set (textChannels cs) \<union> (\<lambda>c. NavVoice (ch_id c) (g_id g)) ` set (voiceChannels cs)
         \<union> (if ap_showInvite w then {NavInviteClose} else {}) \<union> (if ap_showCreate w then {NavCreateClose} else {}))"

lemma sidebar_offers [html_simps]:
  "offers (sidebar_html B w # r) =
     (case find_guild (ap_chat w) of None \<Rightarrow> {} | Some g \<Rightarrow> guild_controls w g)
     \<union> (if vconnected (ap_voice w) then call_controls else {})
     \<union> (if authUser (ap_client w) = None then {} else {NavSettings}) \<union> offers r"
  by (cases "find_guild (ap_chat w)")
    (auto simp: sidebar_html_def html_simps guild_controls_def Let_def)

lemma member_row_offers [html_simps]: "offers (member_row B q m # r) = {NavProfile (mb_user_id m)} \<union> offers r"
  by (simp add: member_row_def html_simps)

lemma member_group_offers [html_simps]:
  "offers (member_group B q l ms) = NavProfile ` mb_user_id ` set ms"
  by (auto simp: member_group_def html_simps)

lemma member_list_offers [html_simps]:
  "offers (member_list_html B cmp s) =
     (if find_guild s = None then {} else NavProfile ` mb_user_id ` set (guild_members s))"
proof (cases "find_guild s")
  case (Some g)
  have "set (online_members cmp ms) \<union> set (offline_members cmp ms) = set ms" for ms
    using arg_cong [OF members_shown_once [of cmp ms], of set_mset] by simp
  then show ?thesis
    using Some by (simp add: member_list_html_def html_simps Let_def guild_members_def image_Un [symmetric])
qed (simp add: member_list_html_def html_simps)

lemma top_bar_offers [html_simps]:
  "offers (top_bar_html s v # r) = {NavDrawer} \<union> (if find_guild s \<noteq> None then {NavMembers} else {}) \<union> offers r"
  by (auto simp: top_bar_html_def html_simps Let_def)

lemma tile_offers [html_simps]: "offers (tile_html B t p # r) = offers r"
  by (simp add: tile_html_def html_simps)

lemma stage_offers [html_simps]: "offers (stage_html B tiles s v # r) = offers r"
  by (auto simp: stage_html_def remote_audio_def html_simps split: stage_body.split prod.split)

lemma welcome_offers [html_simps]:
  "offers (welcome_html w # r) = {NavShellAdd} \<union> (if ap_shellAdd w then {NavShellAddClose} else {}) \<union> offers r"
  by (auto simp: welcome_html_def html_simps)

text \<open>What the shell offers.\<close>

definition shell_controls :: "app \<Rightarrow> nav_action set" where
  "shell_controls w =
     (let s = ap_chat w; u = ui_state (ap_shell w)
      in {NavLightning, NavDrawer, NavTouchStart, NavTouchEnd Left, NavRailAdd}
         \<union> (if find_guild s \<noteq> None then {NavMembers} else {})
         \<union> NavGuild ` g_id ` set (guilds s) \<union> (if ap_railAdd w then {NavRailAddClose} else {})
         \<union> (if no_guilds s then {NavShellAdd} \<union> (if ap_shellAdd w then {NavShellAddClose} else {})
            else (case find_guild s of None \<Rightarrow> {} | Some g \<Rightarrow> guild_controls w g)
              \<union> (if vconnected (ap_voice w) then call_controls else {})
              \<union> (if authUser (ap_client w) = None then {} else {NavSettings}) \<union> {NavTouchEnd Right}
              \<union> (if find_guild s = None then {} else NavProfile ` mb_user_id ` set (guild_members s)))
         \<union> (if navOpen u \<or> membersOpen u then {NavBackdrop} else {})
         \<union> NavDismiss ` t_id ` set (toasts (toastState (ap_client w))))"

lemma app_offers: "offers (app_html B cmp tiles w) = shell_controls w"
proof (cases "no_guilds (ap_chat w)")
  case True
  then show ?thesis
    by (simp add: app_html_def shell_html_def shell_controls_def html_simps Let_def insert_commute Un_ac)
next
  case False
  then show ?thesis
    by (simp add: app_html_def shell_html_def shell_controls_def html_simps Let_def insert_commute Un_ac)
qed


definition sidebar_shown :: "app \<Rightarrow> bool" where
  "sidebar_shown w \<longleftrightarrow> \<not> no_guilds (ap_chat w) \<and> find_guild (ap_chat w) \<noteq> None"

lemma in_if: "x \<in> (if b then A else B) \<longleftrightarrow> (b \<and> x \<in> A) \<or> (\<not> b \<and> x \<in> B)"
  by simp


lemma text_offered:
  "NavText c \<in> shell_controls w \<longleftrightarrow> sidebar_shown w \<and> c \<in> ch_id ` set (textChannels (sidebar_channels (ap_chat w)))"
  by (cases "find_guild (ap_chat w)")
    (auto simp: shell_controls_def sidebar_shown_def guild_controls_def call_controls_def Let_def in_if)

lemma find_key: "c \<in> f ` set xs \<Longrightarrow> map_option f (List.find (\<lambda>x. Some (f x) = Some c) xs) = Some c"
  by (induction xs) auto

text \<open>What selecting a channel leaves and brings about.\<close>

lemma selectChannel_facts:
  "c \<noteq> [] \<Longrightarrow> selectedChannelId (chat (selectChannel (Some c) a)) = Some c"
  "selectedGuildId (chat (selectChannel d a)) = selectedGuildId (chat a)"
  "channelsByGuild (chat (selectChannel d a)) = channelsByGuild (chat a)"
  "c \<noteq> [] \<Longrightarrow> (case oget (messagesByChannel (chat (selectChannel (Some c) a))) c of
     None \<Rightarrow> False | Some k \<Rightarrow> loaded k \<or> loadingInitial k)"
  by (auto simp: selectChannel_def loadMessages_def loadingConv_def setc_def call_def Let_def split: option.splits)

text \<open>
  C40: every offered channel can be opened: a click on a text channel shows the message pane, closes the
  navigation drawer, and makes that channel, found among those of the guild, the one whose
  conversation is shown; that conversation is loaded or being loaded.
\<close>
theorem offered_channel_opens:
  assumes "NavText c \<in> offers (app_html B cmp tiles w)" "c \<noteq> []"
  shows "let w' = nav_act r pt (NavText c) w; s' = ap_chat w'
    in \<not> voiceView (ap_voice w') \<and> \<not> navOpen (ui_state (ap_shell w')) \<and> selectedChannelId s' = Some c
     \<and> map_option ch_id (find_channel s' (selectedGuildId s') (selectedChannelId s')) = Some c
     \<and> (case oget (messagesByChannel s') c of None \<Rightarrow> False | Some k \<Rightarrow> loaded k \<or> loadingInitial k)"
proof -
  let ?s = "ap_chat w"
  have "c \<in> ch_id ` set (sidebar_channels ?s)"
    using assms by (auto simp: app_offers text_offered textChannels_def)
  then have "map_option ch_id (find_channel ?s (selectedGuildId ?s) (Some c)) = Some c"
    using find_key [of c ch_id] by (auto simp: find_channel_def sidebar_channels_def split: if_splits)
  then have "map_option ch_id (find_channel (chat (selectChannel (Some c) a)) (selectedGuildId ?s) (Some c)) = Some c"
    if "chat a = ?s" for a
    using that by (auto simp: find_channel_def selectChannel_facts split: if_splits)
  then show ?thesis
    by (simp add: nav_act_def openTextChannel_def voiceView_def closeNav_def in_ui_def selectChannel_facts assms(2)
        Let_def)
qed

text \<open>A visitor of a guild with one text channel.\<close>

definition visitor :: app where
  "visitor = (initial_app None)\<lparr>ap_client := (initial_client None)\<lparr>chat := initial_chat\<lparr>
       guilds := [\<lparr>g_id = ''g'', g_name = ''Guild'', g_owner_id = ''bob'', g_icon_url = []\<rparr>],
       guildsLoaded := True, selectedGuildId := Some ''g'',
       channelsByGuild := [(''g'', [\<lparr>ch_id = ''c'', ch_guild_id = ''g'', ch_name = ''talk'', ch_type = ''text'',
                                    ch_topic = []\<rparr>])]\<rparr>\<rparr>\<rparr>"

lemma offered_channel_opens_witness:
  "\<forall>r pt. selectedChannelId (ap_chat (nav_act r pt (NavText ''c'') visitor)) = Some ''c''"
proof (intro allI)
  fix r pt
  have "NavText ''c'' \<in> offers (app_html undefined undefined undefined visitor)"
    by (simp add: app_offers text_offered visitor_def initial_client_def initial_chat_def sidebar_shown_def
        no_guilds_def find_guild_def sidebar_channels_def textChannels_def oget_def Let_def)
  then show "selectedChannelId (ap_chat (nav_act r pt (NavText ''c'') visitor)) = Some ''c''"
    using offered_channel_opens [of "''c''" _ _ _ visitor r pt] by (simp add: Let_def)
qed

end
