(* ===== verification/Application.thy ===== *)
theory Application imports Gateway_Properties Chat_Properties
begin

text \<open>
  The parts at work together: the gateway client, the chat store with its requests, and the session
  they share, while \<open>AppShell.jsx\<close> is mounted or not. The gateway client acts on the store by the calls
  it emits, carried out at once and in order. The theorem says that this composition is a run of the
  chat machine, so that what holds in its runs holds in the application, and that the store's
  connection flag tells the truth.
\<close>

section \<open>Composition\<close>

record application =
  app_gateway :: gateway
  app_client :: client

text \<open>The calls on the chat store among what the gateway client has done.\<close>

fun chat_calls :: "gw_out list \<Rightarrow> event list" where
  "chat_calls [] = []"
| "chat_calls (Chat e # xs) = e # chat_calls xs"
| "chat_calls (_ # xs) = chat_calls xs"

definition gateway_does :: "gw_event \<Rightarrow> application \<Rightarrow> application" where
  "gateway_does e w =
     (let g = app_gateway w; g' = gw_step e g
      in \<lparr>app_gateway = g',
          app_client = fold handle (chat_calls (drop (length (out g)) (out g'))) (app_client w)\<rparr>)"

text \<open>The mount effect of \<open>AppShell.jsx\<close> and its cleanup.\<close>

definition mount_shell :: "application \<Rightarrow> application" where
  "mount_shell w = gateway_does Connect (w\<lparr>app_client := loadGuilds (app_client w)\<rparr>)"

definition unmount_shell :: "application \<Rightarrow> application" where
  "unmount_shell w = gateway_does Disconnect w"

text \<open>
  A request of the store fails or succeeds; the shell toasts the failure of the guild list, which the
  store hands back to it.
\<close>

definition store_replies :: "nat \<Rightarrow> reply \<Rightarrow> application \<Rightarrow> application" where
  "store_replies i r w =
     (let a = app_client w; b = handle (Reply i r) a
      in w\<lparr>app_client :=
            (if i < length (tasks a) \<and> tasks a ! i = LoadGuilds
             then (case r of Err e \<Rightarrow> toastc e b | _ \<Rightarrow> b) else b)\<rparr>)"

datatype app_event =
    MountShell
  | UnmountShell
  | GatewayStep gw_event
  | StoreReply nat reply
  | UserStep event
  | SessionIs auth

fun app_step :: "app_event \<Rightarrow> application \<Rightarrow> application" where
  "app_step MountShell w = mount_shell w"
| "app_step UnmountShell w = unmount_shell w"
| "app_step (GatewayStep e) w = gateway_does e w"
| "app_step (StoreReply i r) w = store_replies i r w"
| "app_step (UserStep e) w = w\<lparr>app_client := handle e (app_client w)\<rparr>"
| "app_step (SessionIs s) w =
     \<lparr>app_gateway = gw_step (AuthChanges s) (app_gateway w),
      app_client = handle (DoSetUser (au_user s)) (app_client w)\<rparr>"

text \<open>
  What the environment may do. The server keeps its contract; the gateway's own entry points are called
  by the shell only, and the shell is not mounted again while an earlier token is awaited; what the
  gateway client does to the store nobody else does.
\<close>

fun user_event :: "event \<Rightarrow> bool" where
  "user_event (Reply i r) = False"
| "user_event (Gateway now ev) = False"
| "user_event (DoSetWsConnected v) = False"
| "user_event (DoSetUser u) = False"
| "user_event DoResync = False"
| "user_event _ = True"

fun gateway_event_ok :: "gw_event \<Rightarrow> bool" where
  "gateway_event_ok Connect = False"
| "gateway_event_ok Disconnect = False"
| "gateway_event_ok (AuthChanges s) = False"
| "gateway_event_ok (Frame s now (Dispatch ev)) = server_event ev"
| "gateway_event_ok _ = True"

fun app_accepts :: "(string \<Rightarrow> nat) \<Rightarrow> application \<Rightarrow> app_event \<Rightarrow> bool" where
  "app_accepts rank w MountShell = (awaitingToken (app_gateway w) = 0)"
| "app_accepts rank w UnmountShell = True"
| "app_accepts rank w (GatewayStep e) = gateway_event_ok e"
| "app_accepts rank w (StoreReply i r) = accepts rank (app_client w) (Reply i r)"
| "app_accepts rank w (UserStep e) = user_event e"
| "app_accepts rank w (SessionIs s) = True"

definition start_app :: "auth \<Rightarrow> application" where
  "start_app s = \<lparr>app_gateway = initial_gateway s, app_client = initial_client (au_user s)\<rparr>"

inductive app_reachable :: "(string \<Rightarrow> nat) \<Rightarrow> application \<Rightarrow> bool" for rank where
  app_start: "app_reachable rank (start_app s)"
| app_more: "app_reachable rank w \<Longrightarrow> app_accepts rank w e \<Longrightarrow> app_reachable rank (app_step e w)"

section \<open>What the gateway client does to the store\<close>

lemma chat_calls_append [simp]: "chat_calls (xs @ ys) = chat_calls xs @ chat_calls ys"
  by (induction xs rule: chat_calls.induct) simp_all

text \<open>A frame appends to the output the calls it makes.\<close>

fun frame_calls :: "nat \<Rightarrow> frame \<Rightarrow> gateway \<Rightarrow> event list" where
  "frame_calls now (Ready u) g = DoSetWsConnected True
     # (case u of None \<Rightarrow> [] | Some x \<Rightarrow> [DoSetUser (Some (merge_user (au_user (session g)) x))])
     @ (if identifiedOnce g then [DoResync] else [])"
| "frame_calls now (Dispatch ev) g = [Gateway now ev]"
| "frame_calls now _ g = []"

fun step_calls :: "gw_event \<Rightarrow> gateway \<Rightarrow> event list" where
  "step_calls Disconnect g = [DoSetWsConnected False]"
| "step_calls TokenErr g =
     (if awaitingToken g > 0 \<and> truthy (refreshToken (session g)) then [DoSetWsConnected False] else [])"
| "step_calls (Closed s) g =
     (if s \<in> fst ` set (sockets g) \<and> ws g = Some s then [DoSetWsConnected False] else [])"
| "step_calls (Frame s now f) g = (case map_of (sockets g) s of None \<Rightarrow> [] | Some t \<Rightarrow> frame_calls now f g)"
| "step_calls _ g = []"

lemma emits_frame: "\<exists>xs. out (handleFrame s t now f g) = out g @ xs \<and> chat_calls xs = frame_calls now f g"
  by (cases f) (auto simp: emit_def stopHeartbeat_def Let_def split: option.split)

lemma emits_step: "\<exists>xs. out (gw_step e g) = out g @ xs \<and> chat_calls xs = step_calls e g"
proof (cases e)
  case (Frame s now f)
  then show ?thesis using emits_frame by (auto split: option.split)
qed (auto simp: gw_ops Let_def split: option.split)

lemma gateway_does_calls:
  "gateway_does e w = \<lparr>app_gateway = gw_step e (app_gateway w),
     app_client = fold handle (step_calls e (app_gateway w)) (app_client w)\<rparr>"
proof -
  obtain xs where "out (gw_step e (app_gateway w)) = out (app_gateway w) @ xs"
    "chat_calls xs = step_calls e (app_gateway w)" using emits_step by blast
  then show ?thesis by (simp add: gateway_does_def Let_def)
qed

section \<open>What keeps the connection flag and the user\<close>

definition link :: "client \<Rightarrow> bool \<times> user option" where
  "link a = (wsConnected (chat a), authUser a)"

lemma link_basic [simp]:
  "(\<And>s. wsConnected (f s) = wsConnected s) \<Longrightarrow> link (setc f a) = link a"
  "link (toastc e a) = link a" "link (rejectc e a) = link a" "link (call v p b t a) = link a"
  "link (a\<lparr>tasks := ts\<rparr>) = link a" "link (a\<lparr>sent := rs\<rparr>) = link a" "link (a\<lparr>fx := x\<rparr>) = link a"
  "link (a\<lparr>tempCounter := n\<rparr>) = link a" "link (a\<lparr>toastState := y\<rparr>) = link a"
  by (simp_all add: link_def setc_def toastc_def rejectc_def call_def)

lemma ws_ops [simp]:
  "wsConnected (withConv s ch h) = wsConnected s"
  "wsConnected (withItems s ch k) = wsConnected s"
  "wsConnected (applyReactionAdd me ev s) = wsConnected s"
  "wsConnected (applyReactionRemove me ev s) = wsConnected s"
  "wsConnected (applyTypingStart me now c u n s) = wsConnected s"
  "wsConnected (pruneTyping now c s) = wsConnected s"
  "wsConnected (applyPresenceUpdate u g st s) = wsConnected s"
  "wsConnected (applyChannelCreate c' s) = wsConnected s"
  "wsConnected (applyGuildCreate g' s) = wsConnected s"
  "wsConnected (addMember g m s) = wsConnected s"
  "wsConnected (applyPatch p s) = wsConnected s"
  "wsConnected (applyMessageCreate me m' s) = wsConnected s"
  by (simp_all add: withItems_def applyReactionAdd_def applyReactionRemove_def applyTypingStart_def
      pruneTyping_def applyPresenceUpdate_def applyChannelCreate_def applyGuildCreate_def addMember_def applyPatch_def
      split: option.split)

lemma ws_items [simp]:
  "wsConnected (addOptimistic ch m s) = wsConnected s" "wsConnected (markFailed ch i s) = wsConnected s"
  "wsConnected (resolveOptimistic ch i m s) = wsConnected s" "wsConnected (dismissLocal ch i s) = wsConnected s"
  "wsConnected (applyMessageUpdate m s) = wsConnected s" "wsConnected (applyMessageDelete i ch s) = wsConnected s"
  "wsConnected (apply_reaction b me ev s) = wsConnected s"
  by (simp_all add: addOptimistic_def markFailed_def resolveOptimistic_def dismissLocal_def applyMessageUpdate_def
      applyMessageDelete_def apply_reaction_def)

lemma link_load [simp]:
  "link (loadMessages c a) = link a" "link (loadMessages_ok c ms a) = link a" "link (loadMessages_err c e a) = link a"
  "link (loadMembers g b a) = link a" "link (loadMembers_ok g mbs a) = link a" "link (loadGuilds a) = link a"
  "link (loadOlder c a) = link a" "link (loadOlder_ok c ms a) = link a" "link (loadOlder_err c e a) = link a"
  by (simp_all add: loadMessages_def loadMessages_ok_def loadMessages_err_def loadMembers_def loadMembers_ok_def
      loadGuilds_def loadOlder_def loadOlder_ok_def loadOlder_err_def Let_def split: option.split)

lemma link_selectChannel [simp]: "link (selectChannel ch a) = link a"
  by (simp add: selectChannel_def Let_def split: option.split)

lemma link_selectGuild_cont [simp]: "link (selectGuild_cont g cs a) = link a"
  by (simp add: selectGuild_cont_def Let_def)

lemma link_selectGuild [simp]: "link (selectGuild g a) = link a" "link (selectGuild_ok g cs a) = link a"
  by (simp_all add: selectGuild_def selectGuild_ok_def Let_def split: option.split)

lemma link_guilds [simp]:
  "link (loadGuilds_ok gs a) = link a" "link (enterGuild g' a) = link a" "link (createChannel_ok g c a) = link a"
  by (simp_all add: loadGuilds_ok_def enterGuild_def createChannel_ok_def Let_def)

lemma link_send [simp]:
  "link (sendNext c i m fs atts a) = link a" "link (sendFailed c i e a) = link a"
  "link (toggleReaction_err b ev e a) = link a" "link (toggleReaction c i e a) = link a"
  by (simp_all add: sendNext_def postMessage_def sendFailed_def toggleReaction_err_def toggleReaction_def Let_def
      split: list.split option.split)

lemma link_user [simp]:
  "link (sendMessage c g m fs now a) = link a" "link (sendGif c g gf now a) = link a" "link (editMessage c i m a) = link a"
  "link (deleteMessage c i a) = link a" "link (createGuild n a) = link a" "link (joinGuild n a) = link a"
  "link (createChannel g n t k a) = link a" "link (createInvite g a) = link a" "link (trigger k a) = link a"
  "link (applyMemberAdd mb a) = link a" "link (playRemote u g' k a) = link a" "link (resync a) = link a"
  by (simp_all add: sendMessage_def sendGif_def editMessage_def deleteMessage_def createGuild_def joinGuild_def
      createChannel_def createInvite_def trigger_def applyMemberAdd_def playRemote_def resync_def Let_def split: option.split)

lemma link_resync [simp]:
  "link (resync_guilds gs a) = link a" "link (resync_channels g c gs cs ms a) = link a" "link (resync_messages p c' ms' a) = link a"
  by (simp_all add: resync_guilds_def resync_channels_def resync_messages_def Let_def split: option.split)

lemma link_resume [simp]: "link (resume t r a) = link a"
  by (simp add: resume_def split: task.split reply.split)

lemma link_gateway [simp]: "link (handleGatewayEvent now ev a) = link a"
  by (cases ev) simp_all

text \<open>Only three events of the chat machine touch the flag or the user.\<close>

fun link_step :: "event \<Rightarrow> bool \<times> user option \<Rightarrow> bool \<times> user option" where
  "link_step (DoSetWsConnected v) (c, u) = (v, u)"
| "link_step (DoSetUser x) (c, u) = (c, x)"
| "link_step DoReset (c, u) = (False, u)"
| "link_step _ l = l"

lemma link_handle: "link (handle e a) = link_step e (link a)"
proof (cases e)
  case (DoSetWsConnected v)
  then show ?thesis by (simp add: link_def setc_def setWsConnected_def)
next
  case (DoSetUser u)
  then show ?thesis by (simp add: link_def)
next
  case DoReset
  then show ?thesis by (simp add: link_def setc_def reset_def)
qed simp_all

section \<open>Every run of the application is a run of the chat machine\<close>

definition app_inv :: "application \<Rightarrow> bool" where
  "app_inv w \<longleftrightarrow> gw_single (app_gateway w)
     \<and> snd (link (app_client w)) = au_user (session (app_gateway w))
     \<and> (fst (link (app_client w)) \<longrightarrow> ws (app_gateway w) \<noteq> None)"

lemma app_inv_start: "app_inv (start_app s)"
  by (simp add: app_inv_def start_app_def single_initial link_def initial_client_def initial_chat_def)
    (simp add: initial_gateway_def)

lemma app_inv_gateway:
  assumes i: "app_inv w" and o: "orderly (app_gateway w) e" and n: "\<And>a. e \<noteq> AuthChanges a"
  shows "app_inv (gateway_does e w)"
proof -
  let ?g = "app_gateway w"
  obtain c u where l: "link (app_client w) = (c, u)" by fastforce
  have s: "gw_single (gw_step e ?g)" "gw_single ?g" using i o by (simp_all add: app_inv_def gw_single_step)
  show ?thesis
  proof (cases e)
    case (Frame k now f)
    show ?thesis
    proof (cases "map_of (sockets ?g) k")
      case None
      then show ?thesis using i Frame by (simp add: gateway_does_calls app_inv_def)
    next
      case (Some t)
      then have "k \<in> set (map fst (sockets ?g))" by (auto dest: map_of_SomeD intro: rev_image_eqI)
      then have w: "ws ?g = Some k" using s(2) by (auto simp: gw_single_def split: option.splits)
      then show ?thesis using i s(1) Some Frame l
        by (cases f) (auto simp: gateway_does_calls app_inv_def link_handle emit_def stopHeartbeat_def Let_def
            simp del: handle.simps split: option.splits)
    qed
  next
    case (Closed k)
    then show ?thesis using i s(1) l by (auto simp: gateway_does_calls app_inv_def link_handle gw_ops Let_def simp del: handle.simps)
  qed (use i s(1) l n in \<open>auto simp: gateway_does_calls app_inv_def link_handle gw_ops Let_def
      simp del: handle.simps split: option.splits\<close>)
qed

lemma app_inv_step:
  assumes i: "app_inv w" and a: "app_accepts rank w e"
  shows "app_inv (app_step e w)"
proof (cases e)
  case MountShell
  have "app_inv (w\<lparr>app_client := loadGuilds (app_client w)\<rparr>)" using i by (simp add: app_inv_def)
  then show ?thesis using a MountShell by (simp add: mount_shell_def app_inv_gateway orderly_def)
next
  case UnmountShell
  then show ?thesis using i by (simp add: unmount_shell_def app_inv_gateway orderly_def)
next
  case (GatewayStep x)
  then have "orderly (app_gateway w) x" "\<And>s. x \<noteq> AuthChanges s" using a by (auto simp: orderly_def)
  then show ?thesis using i GatewayStep by (simp add: app_inv_gateway)
next
  case (StoreReply k r)
  then show ?thesis using i by (simp add: app_inv_def store_replies_def link_handle Let_def del: handle.simps split: reply.split)
next
  case (UserStep x)
  obtain c u where "link (app_client w) = (c, u)" by fastforce
  then show ?thesis using i a UserStep by (cases x) (auto simp: app_inv_def link_handle simp del: handle.simps)
next
  case (SessionIs s)
  obtain c u where "link (app_client w) = (c, u)" by fastforce
  then show ?thesis using i SessionIs
    by (auto simp: app_inv_def link_handle gw_single_def places_def simp del: handle.simps)
qed

text \<open>Reachability: each call of the gateway client is a step the chat machine accepts.\<close>

lemma reachable_calls:
  "reachable rank a \<Longrightarrow> list_all (\<lambda>e. \<forall>a. accepts rank a e) es \<Longrightarrow> reachable rank (fold handle es a)"
  by (induction es arbitrary: a) (auto intro: reachable.step)

lemma calls_accepted:
  "gateway_event_ok e \<or> e = Connect \<or> e = Disconnect \<Longrightarrow> list_all (\<lambda>e. \<forall>a. accepts rank a e) (step_calls e g)"
proof (cases e)
  case (Frame s now f)
  then show "gateway_event_ok e \<or> e = Connect \<or> e = Disconnect \<Longrightarrow> ?thesis"
    by (cases f) (auto split: option.split)
qed auto

lemma user_accepted: "user_event e \<Longrightarrow> accepts rank a e"
  by (cases e) simp_all

lemma reachable_toast: "reachable rank a \<Longrightarrow> reachable rank (toastc e a)"
  using reachable.step [of rank a "DoToast (Push e ''error'')"] by (simp add: toastc_def toast_def)

lemma app_step_reachable:
  assumes r: "reachable rank (app_client w)" and a: "app_accepts rank w e"
  shows "reachable rank (app_client (app_step e w))"
proof (cases e)
  case MountShell
  have "reachable rank (loadGuilds (app_client w))" using reachable.step [OF r, of DoLoadGuilds] by simp
  then show ?thesis using MountShell calls_accepted [of Connect]
    by (simp add: mount_shell_def gateway_does_calls)
next
  case UnmountShell
  then show ?thesis using reachable_calls [OF r calls_accepted [of Disconnect]]
    by (simp add: unmount_shell_def gateway_does_calls)
next
  case (GatewayStep x)
  then show ?thesis using reachable_calls [OF r calls_accepted [of x]] a by (simp add: gateway_does_calls)
next
  case (StoreReply k x)
  have b: "reachable rank (handle (Reply k x) (app_client w))"
    using reachable.step [OF r] a StoreReply by (metis app_accepts.simps(4))
  show ?thesis
  proof (cases x)
    case (Err m)
    then show ?thesis using b reachable_toast [OF b] StoreReply
      by (simp add: store_replies_def Let_def del: handle.simps)
  qed (use b StoreReply in \<open>simp_all add: store_replies_def Let_def del: handle.simps\<close>)
next
  case (UserStep x)
  then show ?thesis using reachable.step [OF r user_accepted] a by simp
next
  case (SessionIs s)
  then show ?thesis using reachable.step [OF r, of "DoSetUser (au_user s)"] by simp
qed

lemma app_reachable_inv: "app_reachable rank w \<Longrightarrow> app_inv w \<and> reachable rank (app_client w)"
proof (induction rule: app_reachable.induct)
  case (app_start s)
  then show ?case using app_inv_start by (simp add: start_app_def reachable.start)
next
  case (app_more w e)
  then show ?case using app_inv_step app_step_reachable by blast
qed


text \<open>A first visit: the shell is mounted, the guild list arrives, the socket is identified.\<close>

fun app_follow :: "(string \<Rightarrow> nat) \<Rightarrow> application \<Rightarrow> app_event list \<Rightarrow> application option" where
  "app_follow rank w [] = Some w"
| "app_follow rank w (e # es) = (if app_accepts rank w e then app_follow rank (app_step e w) es else None)"

lemma app_follow_reachable: "app_reachable rank w \<Longrightarrow> app_follow rank w es = Some v \<Longrightarrow> app_reachable rank v"
  by (induction es arbitrary: w) (auto split: if_splits intro: app_more)

definition first_visit :: "reply \<Rightarrow> app_event list" where
  "first_visit r =
     [MountShell, StoreReply 0 r, GatewayStep (TokenOk ''a''), GatewayStep (Frame 0 0 (Hello None)),
      GatewayStep (Frame 0 0 (Ready None))]"

lemmas app_eval = first_visit_def start_app_def gateway_does_calls mount_shell_def store_replies_def
  initial_client_def gw_eval loadGuilds_def call_def dropNth_def resume_def setc_def setWsConnected_def
  hello_interval_def


text \<open>
  The list of the guilds is requested once, when the shell is mounted. When that request fails the
  error is toasted and nothing asks again: the first READY does not re-synchronise, so the user is
  connected, without guilds and without a request for them, until the socket is lost or the page is
  loaded again.
\<close>

lemma guild_list_never_retried:
  "\<exists>w. app_follow length (start_app gw_user) (first_visit (Err ''offline'')) = Some w
     \<and> wsConnected (chat (app_client w)) \<and> guilds (chat (app_client w)) = []
     \<and> \<not> guildsLoaded (chat (app_client w)) \<and> tasks (app_client w) = []
     \<and> map t_message (toasts (toastState (app_client w))) = [''offline'']"
  by (simp add: app_eval stopHeartbeat_def emit_def rejectc_def toastc_def toast_def push_def initial_toasts_def
      initial_chat_def)

end
