(* ===== verification/Whole_Client.thy ===== *)
theory Whole_Client imports Application Settings Format Api_Properties
begin

text \<open>
  The application with the API client: the requests of the chat store become calls of \<open>api.js\<close>, the
  results of the calls resume the operations that await them, \<open>open\<close> of \<open>gateway.js\<close> gets its token from
  \<open>ensureFreshAccessToken\<close>, and one session is shared by all. In \<open>Application\<close> a reply and a token were
  the environment's; here the environment is the network alone, with the user, the other components
  that call the API, and the other tabs. A settled promise runs its continuation in a step of its own
  (\<open>Continue\<close>, \<open>ContinueToken\<close>), in the order of settling; other steps may come between, which allows
  more runs than a browser, where the continuations come first. \<open>decode\<close> and \<open>engine\<close> are parameters:
  what an operation reads from JSON values, and the messages of errors thrown by the browser.
\<close>

section \<open>From requests of the store to calls of the API\<close>

text \<open>\<open>JSON.stringify\<close> of the bodies the store posts, properties in the order of the source.\<close>

definition json_object :: "(string \<times> string) list \<Rightarrow> string" where
  "json_object kvs = ''{'' @ join_by '','' (map (\<lambda>(k, v). json_string k @ '':'' @ v) kvs) @ ''}''"

definition json_attachment :: "attachment \<Rightarrow> string" where
  "json_attachment a = json_object [(''url'', json_string (at_url a)), (''filename'', json_string (at_filename a)),
     (''size'', showInt (at_size a)), (''content_type'', json_string (at_content_type a))]"

definition present :: "string \<Rightarrow> 'a option \<Rightarrow> ('a \<Rightarrow> string) \<Rightarrow> (string \<times> string) list" where
  "present k x f = (case x of None \<Rightarrow> [] | Some y \<Rightarrow> [(k, f y)])"

fun payload_of :: "body \<Rightarrow> payload" where
  "payload_of NoBody = Undefined"
| "payload_of (FileBody f) = Form f"
| "payload_of (MessageBody content atts) = Json (json_object ((''content'', json_string content)
     # present ''attachments'' atts (\<lambda>xs. ''['' @ join_by '','' (map json_attachment xs) @ '']'')))"
| "payload_of (NameBody name) = Json (json_object [(''name'', json_string name)])"
| "payload_of (ChannelBody name topic kind) = Json (json_object ((''name'', json_string name)
     # present ''topic'' topic json_string @ present ''type'' kind json_string))"
| "payload_of (EffectBody kind) = Json (json_object [(''type'', json_string kind)])"

definition api_call :: "nat \<Rightarrow> request \<Rightarrow> api_request" where
  "api_call n r = (case rq_body r of
     FileBody f \<Rightarrow> api_upload n (rq_path r) f
   | b \<Rightarrow> if rq_method r = ''GET'' then api_get n (rq_path r)
         else if rq_method r = ''DELETE'' then api_del n (rq_path r)
         else if rq_method r = ''PUT'' then api_put n (rq_path r) (payload_of b)
         else if rq_method r = ''PATCH'' then api_patch n (rq_path r) (payload_of b)
         else api_post n (rq_path r) (payload_of b))"

section \<open>The client as a whole\<close>

text \<open>
  What a suspended operation of the store awaits: the id of a call, or its value when the call is one
  of a \<open>Promise.all\<close> and has been answered. \<open>awaits\<close> is how many calls an operation waits for.
\<close>

datatype 'd slot = Waiting nat | Got "'d json_body option"

fun awaits :: "task \<Rightarrow> nat" where
  "awaits (ResyncGuild g cid gs) = 2"
| "awaits _ = 1"

text \<open>
  \<open>sys_calls\<close> lists, beside the suspended operations of the store, what each awaits; \<open>sys_opening\<close> the
  calls of \<open>ensureFreshAccessToken\<close> that \<open>open\<close> of \<open>gateway.js\<close> awaits. \<open>sys_seen\<close> and \<open>sys_heard\<close> count
  the settled promises whose continuations have run.
\<close>

record 'd system =
  sys_app :: application
  sys_api :: "'d api_state"
  sys_calls :: "'d slot list list"
  sys_opening :: "nat list"
  sys_next :: nat
  sys_seen :: nat
  sys_heard :: nat

fun deal :: "nat \<Rightarrow> task list \<Rightarrow> 'd slot list list" where
  "deal n [] = []"
| "deal n (t # ts) = map Waiting [n..<n + awaits t] # deal (n + awaits t) ts"

definition issue_all :: "(string \<Rightarrow> int option) \<Rightarrow> nat \<Rightarrow> request list \<Rightarrow> 'd api_state \<Rightarrow> 'd api_state" where
  "issue_all exp_of n rs a = fold (api_step exp_of) (map2 (\<lambda>i r. Issue (api_call i r)) [n..<n + length rs] rs) a"

definition ensure_all :: "(string \<Rightarrow> int option) \<Rightarrow> int \<Rightarrow> nat list \<Rightarrow> 'd api_state \<Rightarrow> 'd api_state" where
  "ensure_all exp_of now ns a = fold (ensureFreshAccessToken exp_of now) ns a"

text \<open>
  After a step of the application to \<open>w\<close>: its new requests are made, its new calls of \<open>open\<close> ask for a
  token, and the user it may have set is in the session. \<open>kept\<close> is what the older operations await.
\<close>

definition after_app ::
  "(string \<Rightarrow> int option) \<Rightarrow> int \<Rightarrow> 'd slot list list \<Rightarrow> application \<Rightarrow> 'd system \<Rightarrow> 'd system" where
  "after_app exp_of now kept w s =
     (let a = app_client (sys_app s); b = app_client w;
          rs = drop (length (sent a)) (sent b);
          ts = drop (length kept) (tasks b);
          n = sys_next s; m = n + length rs;
          k = awaitingToken (app_gateway w) - awaitingToken (app_gateway (sys_app s));
          api = (sys_api s)\<lparr>tab := (session (app_gateway w), snd (tab (sys_api s)))\<rparr>
      in s\<lparr>sys_app := w,
           sys_api := ensure_all exp_of now [m..<m + k] (issue_all exp_of n rs api),
           sys_calls := kept @ deal n ts, sys_opening := sys_opening s @ [m..<m + k],
           sys_next := m + k\<rparr>)"

text \<open>After a step of the API client: the session it may have changed is the application's.\<close>

definition after_api :: "'d api_state \<Rightarrow> 'd system \<Rightarrow> 'd system" where
  "after_api a s = s\<lparr>sys_api := a, sys_app := app_step (SessionIs (fst (tab a))) (sys_app s)\<rparr>"

text \<open>
  The continuation of a settled call. \<open>Promise.all\<close> rejects with the first rejection and resolves when
  its last promise does. \<open>decode\<close> reads the JSON values an operation awaits, \<open>engine\<close> is the message of
  an error the browser throws.
\<close>

definition message_of :: "(api_error \<Rightarrow> string) \<Rightarrow> api_error \<Rightarrow> string" where
  "message_of engine e = (case e of ApiError st code m \<Rightarrow> m | _ \<Rightarrow> engine e)"

datatype 'd delivery = Nobody | Partly nat "'d slot list" | Fully nat reply

definition fill :: "nat \<Rightarrow> 'd json_body option \<Rightarrow> 'd slot \<Rightarrow> 'd slot" where
  "fill n d x = (if x = Waiting n then Got d else x)"

fun got :: "'d slot list \<Rightarrow> 'd json_body option list option" where
  "got [] = Some []"
| "got (Waiting n # xs) = None"
| "got (Got d # xs) = map_option (Cons d) (got xs)"

definition delivery_of ::
  "(task \<Rightarrow> 'd json_body option list \<Rightarrow> reply) \<Rightarrow> (api_error \<Rightarrow> string) \<Rightarrow> nat \<Rightarrow> 'd outcome \<Rightarrow> 'd system \<Rightarrow> 'd delivery" where
  "delivery_of decode engine n res s =
     (case List.find (\<lambda>k. Waiting n \<in> set (sys_calls s ! k)) [0..<length (sys_calls s)] of
        None \<Rightarrow> Nobody
      | Some k \<Rightarrow> (case res of
            Rejected e \<Rightarrow> Fully k (Err (message_of engine e))
          | Resolved d \<Rightarrow> (let xs = map (fill n d) (sys_calls s ! k)
              in case got xs of
                   None \<Rightarrow> Partly k xs
                 | Some ds \<Rightarrow> Fully k (decode (tasks (app_client (sys_app s)) ! k) ds))))"

definition next_delivery ::
  "(task \<Rightarrow> 'd json_body option list \<Rightarrow> reply) \<Rightarrow> (api_error \<Rightarrow> string) \<Rightarrow> 'd system \<Rightarrow> 'd delivery" where
  "next_delivery decode engine s =
     (if sys_seen s < length (results (sys_api s))
      then (case results (sys_api s) ! sys_seen s of (n, res) \<Rightarrow> delivery_of decode engine n res s)
      else Nobody)"

definition deliver ::
  "(string \<Rightarrow> int option) \<Rightarrow> (task \<Rightarrow> 'd json_body option list \<Rightarrow> reply) \<Rightarrow> (api_error \<Rightarrow> string) \<Rightarrow> 'd system \<Rightarrow> 'd system" where
  "deliver exp_of decode engine s =
     (let s' = s\<lparr>sys_seen := min (sys_seen s + 1) (length (results (sys_api s)))\<rparr>
      in case next_delivery decode engine s of
           Nobody \<Rightarrow> s'
         | Partly k xs \<Rightarrow> s'\<lparr>sys_calls := (sys_calls s)[k := xs]\<rparr>
         | Fully k r \<Rightarrow> after_app exp_of 0 (dropNth k (sys_calls s)) (app_step (StoreReply k r) (sys_app s)) s')"

text \<open>The continuation of \<open>open\<close>; the token of another caller is none of the gateway's business.\<close>

definition deliver_token :: "(string \<Rightarrow> int option) \<Rightarrow> 'd system \<Rightarrow> 'd system" where
  "deliver_token exp_of s =
     (if sys_heard s < length (token_results (sys_api s))
      then (case token_results (sys_api s) ! sys_heard s of (n, res) \<Rightarrow>
              let s' = s\<lparr>sys_heard := sys_heard s + 1\<rparr>
              in if n \<in> set (sys_opening s)
                 then after_app exp_of 0 (sys_calls s)
                        (app_step (GatewayStep (case res of Inl e \<Rightarrow> TokenErr | Inr t \<Rightarrow> TokenOk t)) (sys_app s))
                        (s'\<lparr>sys_opening := remove1 n (sys_opening s)\<rparr>)
                 else s')
      else s)"

section \<open>Steps and runs\<close>

text \<open>
  A step of the application proper, a call of a component outside it (with or without a token), the
  refresh of the session bootstrap, an answer of the network, a change of the session by another
  component or tab, or the continuation of the next settled promise.
\<close>

datatype 'd sys_event =
    Act int app_event
  | OtherCall api_request
  | OtherToken int
  | OtherRefresh
  | Network "'d api_event"
  | Account "'d api_event"
  | SetUser "user option"
  | Continue
  | ContinueToken

fun sys_step ::
  "(string \<Rightarrow> int option) \<Rightarrow> (task \<Rightarrow> 'd json_body option list \<Rightarrow> reply) \<Rightarrow> (api_error \<Rightarrow> string) \<Rightarrow>
    'd sys_event \<Rightarrow> 'd system \<Rightarrow> 'd system" where
  "sys_step exp_of decode engine (Act now e) s =
     after_app exp_of now (sys_calls s) (app_step e (sys_app s)) s"
| "sys_step exp_of decode engine (OtherCall r) s =
     after_api (api_step exp_of (Issue (r\<lparr>ar_id := sys_next s\<rparr>)) (sys_api s)) (s\<lparr>sys_next := sys_next s + 1\<rparr>)"
| "sys_step exp_of decode engine (OtherToken now) s =
     after_api (api_step exp_of (EnsureToken now (sys_next s)) (sys_api s)) (s\<lparr>sys_next := sys_next s + 1\<rparr>)"
| "sys_step exp_of decode engine OtherRefresh s =
     after_api (refreshSession (WantsToken (sys_next s)) (sys_api s)) (s\<lparr>sys_next := sys_next s + 1\<rparr>)"
| "sys_step exp_of decode engine (Network e) s = after_api (api_step exp_of e (sys_api s)) s"
| "sys_step exp_of decode engine (Account e) s = after_api (api_step exp_of e (sys_api s)) s"
| "sys_step exp_of decode engine (SetUser u) s =
     after_api ((sys_api s)\<lparr>tab := setUser u (tab (sys_api s))\<rparr>) s"
| "sys_step exp_of decode engine Continue s = deliver exp_of decode engine s"
| "sys_step exp_of decode engine ContinueToken s = deliver_token exp_of s"

fun act_ok :: "app_event \<Rightarrow> bool" where
  "act_ok (StoreReply k r) = False"
| "act_ok (SessionIs x) = False"
| "act_ok (GatewayStep (TokenOk t)) = False"
| "act_ok (GatewayStep TokenErr) = False"
| "act_ok _ = True"

fun network_event :: "'d api_event \<Rightarrow> bool" where
  "network_event (Answer i h) = True"
| "network_event (RefreshAnswer k r) = True"
| "network_event _ = False"

fun session_event :: "'d api_event \<Rightarrow> bool" where
  "session_event (LogIn x) = True"
| "session_event LogOut = True"
| "session_event (StorageEvent key v) = True"
| "session_event _ = False"

fun sys_accepts ::
  "(task \<Rightarrow> 'd json_body option list \<Rightarrow> reply) \<Rightarrow> (api_error \<Rightarrow> string) \<Rightarrow> (string \<Rightarrow> nat) \<Rightarrow>
    'd system \<Rightarrow> 'd sys_event \<Rightarrow> bool" where
  "sys_accepts decode engine rank s (Act now e) = (act_ok e \<and> app_accepts rank (sys_app s) e)"
| "sys_accepts decode engine rank s (Network e) = network_event e"
| "sys_accepts decode engine rank s (Account e) = session_event e"
| "sys_accepts decode engine rank s Continue = (case next_delivery decode engine s of
       Fully k r \<Rightarrow> app_accepts rank (sys_app s) (StoreReply k r) | _ \<Rightarrow> True)"
| "sys_accepts decode engine rank s _ = True"

definition start_system :: "string obj \<Rightarrow> 'd system" where
  "start_system ls = \<lparr>sys_app = start_app (load_auth ls), sys_api = initial_api ls, sys_calls = [],
     sys_opening = [], sys_next = 0, sys_seen = 0, sys_heard = 0\<rparr>"

inductive sys_reachable ::
  "(string \<Rightarrow> int option) \<Rightarrow> (task \<Rightarrow> 'd json_body option list \<Rightarrow> reply) \<Rightarrow> (api_error \<Rightarrow> string) \<Rightarrow>
    (string \<Rightarrow> nat) \<Rightarrow> 'd system \<Rightarrow> bool" for exp_of decode engine rank where
  sys_start: "sys_reachable exp_of decode engine rank (start_system ls)"
| sys_more: "sys_reachable exp_of decode engine rank s \<Longrightarrow> sys_accepts decode engine rank s e \<Longrightarrow>
    sys_reachable exp_of decode engine rank (sys_step exp_of decode engine e s)"

section \<open>Every suspended operation has made its calls\<close>

definition grows :: "client \<Rightarrow> client \<Rightarrow> bool" where
  "grows a b \<longleftrightarrow> (\<exists>ts rs. tasks b = tasks a @ ts \<and> sent b = sent a @ rs \<and> length rs = sum_list (map awaits ts))"

named_theorems grow "operations that suspend what they request"

lemma grows_same: "tasks b = tasks a \<Longrightarrow> sent b = sent a \<Longrightarrow> grows a b"
  by (auto simp: grows_def)

lemma grows_refl [grow]: "grows a a"
  by (rule grows_same) simp_all

lemma grows_trans: "grows a b \<Longrightarrow> grows b c \<Longrightarrow> grows a c"
  unfolding grows_def by (metis append.assoc length_append map_append sum_list_append)

lemma grows_by: "(\<And>b. grows b (f b)) \<Longrightarrow> grows a b \<Longrightarrow> grows a (f b)"
  using grows_trans by blast

lemma grows_call [grow]: "awaits t = 1 \<Longrightarrow> grows a b \<Longrightarrow> grows a (call v p bd t b)"
  by (rule grows_by [where f = "call v p bd t"]) (auto simp: grows_def call_def)

lemma grows_basic [grow]:
  "grows a b \<Longrightarrow> grows a (setc f b)" "grows a b \<Longrightarrow> grows a (toastc e b)" "grows a b \<Longrightarrow> grows a (rejectc e b)"
  "grows a b \<Longrightarrow> grows a (b\<lparr>tempCounter := n\<rparr>)" "grows a b \<Longrightarrow> grows a (b\<lparr>fx := x\<rparr>)"
  "grows a b \<Longrightarrow> grows a (b\<lparr>authUser := u\<rparr>)" "grows a b \<Longrightarrow> grows a (b\<lparr>toastState := y\<rparr>)"
  by (simp_all add: grows_def setc_def toastc_def rejectc_def)

lemma grows_load [grow]:
  "grows a b \<Longrightarrow> grows a (loadMessages c b)" "grows a b \<Longrightarrow> grows a (loadMessages_ok c ms b)"
  "grows a b \<Longrightarrow> grows a (loadMessages_err c e b)" "grows a b \<Longrightarrow> grows a (loadMembers g t b)"
  "grows a b \<Longrightarrow> grows a (loadMembers_ok g mbs b)" "grows a b \<Longrightarrow> grows a (loadGuilds b)"
  "grows a b \<Longrightarrow> grows a (loadOlder c b)" "grows a b \<Longrightarrow> grows a (loadOlder_ok c ms b)"
  "grows a b \<Longrightarrow> grows a (loadOlder_err c e b)"
  by (auto simp: loadMessages_def loadMessages_ok_def loadMessages_err_def loadMembers_def loadMembers_ok_def
      loadGuilds_def loadOlder_def loadOlder_ok_def loadOlder_err_def intro!: grow split: option.split)

lemma grows_selectChannel [grow]: "grows a b \<Longrightarrow> grows a (selectChannel ch b)"
  by (auto simp: selectChannel_def Let_def intro!: grow split: option.split)

lemma grows_selectGuild_cont [grow]: "grows a b \<Longrightarrow> grows a (selectGuild_cont g cs b)"
  by (auto simp: selectGuild_cont_def Let_def intro!: grow)

lemma grows_selectGuild [grow]:
  "grows a b \<Longrightarrow> grows a (selectGuild g b)" "grows a b \<Longrightarrow> grows a (selectGuild_ok g cs b)"
  by (auto simp: selectGuild_def selectGuild_ok_def Let_def intro!: grow split: option.split)

lemma grows_guilds [grow]:
  "grows a b \<Longrightarrow> grows a (loadGuilds_ok gs b)" "grows a b \<Longrightarrow> grows a (enterGuild g' b)"
  "grows a b \<Longrightarrow> grows a (createChannel_ok g c b)"
  by (auto simp: loadGuilds_ok_def enterGuild_def createChannel_ok_def Let_def intro!: grow)

lemma grows_send [grow]:
  "grows a b \<Longrightarrow> grows a (sendNext c i m fs atts b)" "grows a b \<Longrightarrow> grows a (sendFailed c i e b)"
  "grows a b \<Longrightarrow> grows a (toggleReaction_err h ev e b)" "grows a b \<Longrightarrow> grows a (toggleReaction c i e b)"
  by (auto simp: sendNext_def postMessage_def sendFailed_def toggleReaction_err_def toggleReaction_def Let_def
      intro!: grow split: list.split option.split)

lemma grows_user [grow]:
  "grows a b \<Longrightarrow> grows a (sendMessage c g m fs now b)" "grows a b \<Longrightarrow> grows a (sendGif c g gf now b)"
  "grows a b \<Longrightarrow> grows a (editMessage c i m b)" "grows a b \<Longrightarrow> grows a (deleteMessage c i b)"
  "grows a b \<Longrightarrow> grows a (createGuild n b)" "grows a b \<Longrightarrow> grows a (joinGuild n b)"
  "grows a b \<Longrightarrow> grows a (createChannel g n t k b)" "grows a b \<Longrightarrow> grows a (createInvite g b)"
  "grows a b \<Longrightarrow> grows a (trigger k b)" "grows a b \<Longrightarrow> grows a (applyMemberAdd mb b)"
  "grows a b \<Longrightarrow> grows a (playRemote u g' k b)" "grows a b \<Longrightarrow> grows a (resync b)"
  by (auto simp: sendMessage_def sendGif_def editMessage_def deleteMessage_def createGuild_def joinGuild_def
      createChannel_def createInvite_def trigger_def applyMemberAdd_def playRemote_def resync_def Let_def
      intro!: grow split: option.split)

lemma grows_both [grow]:
  "awaits t = 2 \<Longrightarrow> grows a b \<Longrightarrow> grows a ((call v p bd t b)\<lparr>sent := sent (call v p bd t b) @ [r]\<rparr>)"
  by (rule grows_by [where f = "\<lambda>b. (call v p bd t b)\<lparr>sent := sent (call v p bd t b) @ [r]\<rparr>"])
    (auto simp: grows_def call_def)

lemma grows_resync [grow]:
  "grows a b \<Longrightarrow> grows a (resync_guilds gs b)" "grows a b \<Longrightarrow> grows a (resync_channels g c gs cs ms b)"
  "grows a b \<Longrightarrow> grows a (resync_messages p c' ms' b)"
  by (auto simp: resync_guilds_def resync_channels_def resync_messages_def Let_def intro!: grow split: option.split)

lemma grows_resume [grow]: "grows a b \<Longrightarrow> grows a (resume t r b)"
  by (cases t) (auto simp: resume_def intro!: grow split: reply.split)

lemma grows_gateway [grow]: "grows a b \<Longrightarrow> grows a (handleGatewayEvent now ev b)"
  by (cases ev) (auto intro!: grow)

lemma grows_handle [grow]: "(\<And>i r. e \<noteq> Reply i r) \<Longrightarrow> grows a b \<Longrightarrow> grows a (handle e b)"
  by (cases e) (auto intro!: grow)

lemma grows_calls: "list_all (\<lambda>e. \<forall>i r. e \<noteq> Reply i r) es \<Longrightarrow> grows a b \<Longrightarrow> grows a (fold handle es b)"
  by (induction es arbitrary: b) (simp_all add: grows_handle)

text \<open>A step of the application suspends what it requests; a reply first ends its operation.\<close>

definition resumed :: "app_event \<Rightarrow> client \<Rightarrow> client" where
  "resumed e a = (case e of StoreReply i r \<Rightarrow> if i < length (tasks a) then a\<lparr>tasks := dropNth i (tasks a)\<rparr> else a | _ \<Rightarrow> a)"

lemma step_calls_no_reply: "list_all (\<lambda>e. \<forall>i r. e \<noteq> Reply i r) (step_calls e g)"
proof (cases e)
  case (Frame s now f)
  then show ?thesis by (cases f) (auto split: option.split)
qed auto

lemma app_grows: "app_accepts rank w e \<Longrightarrow> grows (resumed e (app_client w)) (app_client (app_step e w))"
proof (cases e)
  case (UserStep x)
  then show "app_accepts rank w e \<Longrightarrow> ?thesis" by (cases x) (auto simp: resumed_def intro!: grow)
next
  case (StoreReply i r)
  then show ?thesis by (auto simp: resumed_def store_replies_def Let_def intro!: grow split: reply.split)
qed (auto simp: resumed_def mount_shell_def unmount_shell_def gateway_does_calls simp del: handle.simps
    intro!: grow grows_calls step_calls_no_reply)

section \<open>The API client loses no call\<close>

fun want_ids :: "waiter list \<Rightarrow> nat list" where
  "want_ids [] = []"
| "want_ids (WantsToken n # vs) = n # want_ids vs"
| "want_ids (Retry r # vs) = want_ids vs"

lemma want_ids_append [simp]: "want_ids (xs @ ys) = want_ids xs @ want_ids ys"
  by (induction xs rule: want_ids.induct) simp_all

text \<open>
  From \<open>a\<close>, with the waiters \<open>vs\<close> and the calls \<open>rs\<close> in hand, to \<open>b\<close>: every open call is still open or has
  got its result, and results are only added.
\<close>

definition open_ids :: "'d api_state \<Rightarrow> nat set" where
  "open_ids a = set (map ar_id (pendings a)) \<union> set (retry_ids (waiters a))"

definition carries :: "waiter list \<Rightarrow> 'd api_state \<Rightarrow> 'd api_state \<Rightarrow> bool" where
  "carries vs a b \<longleftrightarrow> (\<exists>xs ys. results b = results a @ xs \<and> token_results b = token_results a @ ys
     \<and> open_ids a \<union> set (retry_ids vs) \<subseteq> open_ids b \<union> set (map fst xs)
     \<and> set (want_ids (waiters a)) \<union> set (want_ids vs) \<subseteq> set (want_ids (waiters b)) \<union> set (map fst ys))"

lemma carriesI:
  assumes "results b = results a @ xs" and "token_results b = token_results a @ ys"
    and "open_ids a \<union> set (retry_ids vs) \<subseteq> open_ids b \<union> set (map fst xs)"
    and "set (want_ids (waiters a)) \<union> set (want_ids vs) \<subseteq> set (want_ids (waiters b)) \<union> set (map fst ys)"
  shows "carries vs a b"
  unfolding carries_def using assms by blast

lemma carries_refl: "carries [] a a"
  by (simp add: carries_def)

lemma carries_trans:
  assumes "carries vs a b" and "carries us b c"
  shows "carries (vs @ us) a c"
proof -
  obtain xs ys where b: "results b = results a @ xs" "token_results b = token_results a @ ys"
    "open_ids a \<union> set (retry_ids vs) \<subseteq> open_ids b \<union> set (map fst xs)"
    "set (want_ids (waiters a)) \<union> set (want_ids vs) \<subseteq> set (want_ids (waiters b)) \<union> set (map fst ys)"
    using assms(1) unfolding carries_def by blast
  obtain xs' ys' where c: "results c = results b @ xs'" "token_results c = token_results b @ ys'"
    "open_ids b \<union> set (retry_ids us) \<subseteq> open_ids c \<union> set (map fst xs')"
    "set (want_ids (waiters b)) \<union> set (want_ids us) \<subseteq> set (want_ids (waiters c)) \<union> set (map fst ys')"
    using assms(2) unfolding carries_def by blast
  have "results c = results a @ (xs @ xs')" "token_results c = token_results a @ (ys @ ys')" using b c by simp_all
  then show ?thesis by (rule carriesI) (use b(3,4) c(3,4) in auto)
qed

lemma carries_fetch: "carries [] a (run_fetch r a) \<and> ar_id r \<in> open_ids (run_fetch r a)"
  by (auto simp: carries_def run_fetch_def open_ids_def)

lemma carries_settle: "carries [w] a (settle_waiter res w a)"
proof (cases w)
  case (Retry r)
  show ?thesis
  proof (cases res)
    case (Inl e)
    then show ?thesis using Retry by (auto simp: carries_def settle_waiter_def open_ids_def)
  next
    case (Inr t)
    then show ?thesis using Retry by (auto simp: carries_def settle_waiter_def open_ids_def run_fetch_def)
  qed
next
  case (WantsToken n)
  then show ?thesis by (auto simp: carries_def settle_waiter_def open_ids_def)
qed

lemma carries_settle_all: "carries vs a (fold (settle_waiter res) vs a)"
proof (induction vs arbitrary: a)
  case Nil
  then show ?case by (simp add: carries_refl)
next
  case (Cons w vs)
  then show ?case using carries_trans [OF carries_settle Cons.IH] by simp
qed

lemma carries_join: "carries [w] a (refreshSession w a)"
proof -
  have "carries [w] a (a\<lparr>inFlight := f, flights := fl, waiters := waiters a @ [w]\<rparr>)" for f fl
    by (auto simp: carries_def open_ids_def)
  from this [where f = "inFlight a" and fl = "flights a"]
    this [where f = True and fl = "flights a @ [the (refreshToken (fst (tab a)))]"]
  show ?thesis by (auto simp: refreshSession_def carries_settle)
qed

lemma carries_after: "carries vs b c \<Longrightarrow> results b = results a \<Longrightarrow> token_results b = token_results a
    \<Longrightarrow> open_ids a \<subseteq> open_ids b \<union> set (retry_ids vs) \<Longrightarrow> set (want_ids (waiters a)) \<subseteq> set (want_ids (waiters b)) \<union> set (want_ids vs)
    \<Longrightarrow> carries [] a c"
  unfolding carries_def by (elim exE conjE) (rule exI, rule exI, intro conjI, simp, simp, auto)

lemma carries_answer:
  assumes i: "i < length (pendings a)"
  shows "carries [] a (response i h a)"
proof -
  let ?r = "pendings a ! i" and ?a = "a\<lparr>pendings := removeNth i (pendings a)\<rparr>"
  have "set (pendings a) \<subseteq> set (removeNth i (pendings a)) \<union> {?r}"
    by (subst removeNth_split [OF i]) (auto simp: removeNth_def)
  then have o: "open_ids a \<subseteq> open_ids ?a \<union> {ar_id ?r}" by (auto simp: open_ids_def)
  have "carries [] a (?a\<lparr>results := results ?a @ [(ar_id ?r, res)]\<rparr>)" for res
    by (rule carriesI [where xs = "[(ar_id ?r, res)]" and ys = "[]"]) (use o in \<open>auto simp: open_ids_def\<close>)
  moreover have "carries [] a (refreshSession (Retry ?r) ?a)"
    by (rule carries_after [OF carries_join]) (use o in simp_all)
  ultimately show ?thesis by (simp add: response_def Let_def split: http.split)
qed

lemma carries_settles: "carries [] a (refresh_settles k reply a)"
proof -
  obtain t res where d: "doRefresh reply (tab a) = (t, res)" by (cases "doRefresh reply (tab a)")
  show ?thesis unfolding refresh_settles_def d prod.case
    by (rule carries_after [OF carries_settle_all]) (auto simp: open_ids_def)
qed

lemma carries_tab [simp]: "carries vs a (b\<lparr>tab := t\<rparr>) = carries vs a b" "carries vs (a\<lparr>tab := t\<rparr>) b = carries vs a b"
  by (simp_all add: carries_def open_ids_def)

lemma carries_ensure: "carries [WantsToken n] a (ensureFreshAccessToken exp_of now n a)"
proof -
  have "carries [WantsToken n] a (a\<lparr>token_results := token_results a @ [(n, res)]\<rparr>)" for res
    by (auto simp: carries_def open_ids_def)
  then show ?thesis by (simp add: ensureFreshAccessToken_def Let_def carries_join)
qed

lemma carries_issue: "carries [Retry r] a (api_step exp_of (Issue r) a)"
  by (auto simp: carries_def open_ids_def run_fetch_def)

lemma carries_less: "carries vs a b \<Longrightarrow> carries [] a b"
  unfolding carries_def by fastforce

lemma carries_step: "carries [] a (api_step exp_of e a)"
proof (cases e)
  case (Issue r)
  then show ?thesis using carries_less [OF carries_issue] by blast
next
  case (Answer i h)
  then show ?thesis by (simp add: carries_answer carries_refl)
next
  case (RefreshAnswer k reply)
  then show ?thesis by (simp add: carries_settles carries_refl)
next
  case (EnsureToken now n)
  then show ?thesis using carries_less [OF carries_ensure] by simp
qed (simp_all add: carries_refl)

lemma carries_issue_all:
  "length ns = length rs \<Longrightarrow>
   carries (map (\<lambda>(i, r). Retry (api_call i r)) (zip ns rs)) a (fold (api_step exp_of) (map2 (\<lambda>i r. Issue (api_call i r)) ns rs) a)"
proof (induction ns rs arbitrary: a rule: list_induct2)
  case Nil
  then show ?case by (simp add: carries_refl)
next
  case (Cons n ns r rs)
  then show ?case using carries_trans [OF carries_issue [where exp_of = exp_of] Cons.IH] by simp
qed

lemma carries_ensure_all: "carries (map WantsToken ns) a (ensure_all exp_of now ns a)"
  unfolding ensure_all_def
proof (induction ns arbitrary: a)
  case Nil
  then show ?case by (simp add: carries_refl)
next
  case (Cons n ns)
  then show ?case using carries_trans [OF carries_ensure Cons.IH] by simp
qed

section \<open>The invariant of the whole client\<close>

definition waits :: "'d slot list \<Rightarrow> nat list" where
  "waits xs = concat (map (\<lambda>x. case x of Waiting n \<Rightarrow> [n] | Got d \<Rightarrow> []) xs)"

definition wait_ids :: "'d slot list list \<Rightarrow> nat list" where
  "wait_ids cs = concat (map waits cs)"

lemma waits_simps [simp]:
  "waits [] = []" "waits (Waiting n # xs) = n # waits xs" "waits (Got d # xs) = waits xs"
  "wait_ids [] = []" "wait_ids (c # cs) = waits c @ wait_ids cs" "wait_ids (cs @ ds) = wait_ids cs @ wait_ids ds"
  by (simp_all add: waits_def wait_ids_def)

lemma waits_map [simp]: "waits (map Waiting ns) = ns"
  by (induction ns) simp_all

lemma waits_set: "n \<in> set (waits xs) \<longleftrightarrow> Waiting n \<in> set xs"
  by (induction xs) (simp, case_tac a, auto)

lemma waits_fill: "waits (map (fill n d) xs) = filter (\<lambda>m. m \<noteq> n) (waits xs)"
  by (induction xs) (simp, case_tac a, auto simp: fill_def)

lemma got_None: "got xs = None \<longleftrightarrow> waits xs \<noteq> []"
  by (induction xs rule: got.induct) auto

lemma deal_ids: "wait_ids (deal n ts) = [n..<n + sum_list (map awaits ts)]"
proof (induction ts arbitrary: n)
  case (Cons t ts)
  then show ?case using upt_add_eq_append [of n "n + awaits t" "sum_list (map awaits ts)"]
    by (simp add: ac_simps)
qed simp

lemma deal_length [simp]: "length (deal n ts) = length ts"
  by (induction ts arbitrary: n) simp_all

lemma awaits_pos [simp]: "awaits t \<noteq> 0"
  by (cases t) simp_all

lemma deal_got: "xs \<in> set (deal n ts) \<Longrightarrow> got xs = None"
  by (induction ts arbitrary: n) (auto simp: got_None)

definition alive :: "'d system \<Rightarrow> nat set" where
  "alive s = open_ids (sys_api s) \<union> set (map fst (drop (sys_seen s) (results (sys_api s))))"

definition token_alive :: "'d system \<Rightarrow> nat set" where
  "token_alive s = set (want_ids (waiters (sys_api s))) \<union> set (map fst (drop (sys_heard s) (token_results (sys_api s))))"

text \<open>What holds apart from the calls and tokens awaited, which a step is about to change.\<close>

definition api_inv :: "'d system \<Rightarrow> bool" where
  "api_inv s \<longleftrightarrow> balanced [] (sys_api s) \<and> sys_seen s \<le> length (results (sys_api s))
     \<and> sys_heard s \<le> length (token_results (sys_api s))"

definition calls_inv :: "'d slot list list \<Rightarrow> 'd system \<Rightarrow> bool" where
  "calls_inv cs s \<longleftrightarrow> (\<forall>xs \<in> set cs. got xs = None) \<and> distinct (wait_ids cs @ sys_opening s)
     \<and> (\<forall>n \<in> set (wait_ids cs @ sys_opening s). n < sys_next s)
     \<and> set (wait_ids cs) \<subseteq> alive s \<and> set (sys_opening s) \<subseteq> token_alive s"

definition sys_inv :: "(string \<Rightarrow> nat) \<Rightarrow> 'd system \<Rightarrow> bool" where
  "sys_inv rank s \<longleftrightarrow> app_reachable rank (sys_app s) \<and> api_inv s \<and> calls_inv (sys_calls s) s
     \<and> session (app_gateway (sys_app s)) = fst (tab (sys_api s))
     \<and> length (sys_calls s) = length (tasks (app_client (sys_app s)))
     \<and> length (sys_opening s) = awaitingToken (app_gateway (sys_app s))"

text \<open>The API client moves on: what was awaited is still alive, and so are the calls just handed to it.\<close>

lemma alive_carried:
  assumes c: "carries vs (sys_api s) (sys_api s')" and a: "api_inv s"
    and "sys_seen s' = sys_seen s" and "sys_heard s' = sys_heard s"
  shows "alive s \<union> set (retry_ids vs) \<subseteq> alive s'" and "token_alive s \<union> set (want_ids vs) \<subseteq> token_alive s'"
    and "sys_seen s' \<le> length (results (sys_api s'))" and "sys_heard s' \<le> length (token_results (sys_api s'))"
proof -
  obtain xs ys where b: "results (sys_api s') = results (sys_api s) @ xs" "token_results (sys_api s') = token_results (sys_api s) @ ys"
    "open_ids (sys_api s) \<union> set (retry_ids vs) \<subseteq> open_ids (sys_api s') \<union> set (map fst xs)"
    "set (want_ids (waiters (sys_api s))) \<union> set (want_ids vs) \<subseteq> set (want_ids (waiters (sys_api s'))) \<union> set (map fst ys)"
    using c unfolding carries_def by blast
  have "sys_seen s \<le> length (results (sys_api s))" "sys_heard s \<le> length (token_results (sys_api s))"
    using a by (simp_all add: api_inv_def)
  then have d: "drop (sys_seen s') (results (sys_api s')) = drop (sys_seen s) (results (sys_api s)) @ xs"
    "drop (sys_heard s') (token_results (sys_api s')) = drop (sys_heard s) (token_results (sys_api s)) @ ys"
    "sys_seen s' \<le> length (results (sys_api s'))" "sys_heard s' \<le> length (token_results (sys_api s'))"
    using assms(3,4) b(1,2) by simp_all
  show "alive s \<union> set (retry_ids vs) \<subseteq> alive s'" using b(3) unfolding alive_def d(1) by auto
  show "token_alive s \<union> set (want_ids vs) \<subseteq> token_alive s'" using b(4) unfolding token_alive_def d(2) by auto
  show "sys_seen s' \<le> length (results (sys_api s'))" "sys_heard s' \<le> length (token_results (sys_api s'))"
    by (rule d(3), rule d(4))
qed

lemma balanced_issue_all: "balanced [] a \<Longrightarrow> balanced [] (fold (api_step exp_of) es a)"
  using balanced_runs.run [of a es exp_of] by simp

lemma balanced_ensure: "balanced [] a \<Longrightarrow> balanced [] (ensureFreshAccessToken exp_of now n a)"
  using balanced_step [of a exp_of "EnsureToken now n"] by simp

lemma balanced_ensure_all: "balanced [] a \<Longrightarrow> balanced [] (ensure_all exp_of now ns a)"
  unfolding ensure_all_def by (induction ns arbitrary: a) (simp_all add: balanced_ensure)

lemma tab_issue_all: "tab (fold (api_step exp_of) (map2 (\<lambda>i r. Issue (api_call i r)) ns rs) a) = tab a"
  by (induction ns rs arbitrary: a rule: list_induct2') simp_all

lemma tab_ensure [simp]: "tab (ensureFreshAccessToken exp_of now n a) = tab a"
  by (simp add: ensureFreshAccessToken_def Let_def)

lemma tab_ensure_all [simp]: "tab (ensure_all exp_of now ns a) = tab a"
  unfolding ensure_all_def by (induction ns arbitrary: a) simp_all

lemma api_call_id [simp]: "ar_id (api_call n r) = n"
  by (simp add: api_call_def api_upload_def api_get_def api_del_def api_put_def api_patch_def api_post_def mk_request_def
      split: body.split)

lemma handed_requests [simp]:
  "length ns = length rs \<Longrightarrow> retry_ids (map (\<lambda>(i, r). Retry (api_call i r)) (zip ns rs)) = ns"
  "want_ids (map (\<lambda>(i, r). Retry (api_call i r)) (zip ns rs)) = []"
  by (induction ns rs rule: list_induct2') simp_all

lemma handed_tokens [simp]: "retry_ids (map WantsToken ms) = []" "want_ids (map WantsToken ms) = ms"
  by (induction ms) simp_all

section \<open>Every step keeps it\<close>

text \<open>The API client takes the new requests and the new wishes for a token.\<close>

lemma taken_over:
  fixes a :: "'d api_state"
  assumes "balanced [] a"
  shows "carries (map (\<lambda>(i, r). Retry (api_call i r)) (zip [n..<n + length rs] rs) @ map WantsToken ms) a
      (ensure_all exp_of now ms (issue_all exp_of n rs a))"
    and "balanced [] (ensure_all exp_of now ms (issue_all exp_of n rs a))"
    and "tab (ensure_all exp_of now ms (issue_all exp_of n rs a)) = tab a"
proof -
  have "carries (map (\<lambda>(i, r). Retry (api_call i r)) (zip [n..<n + length rs] rs)) a (issue_all exp_of n rs a)"
    unfolding issue_all_def by (rule carries_issue_all) simp
  then show "carries (map (\<lambda>(i, r). Retry (api_call i r)) (zip [n..<n + length rs] rs) @ map WantsToken ms) a
      (ensure_all exp_of now ms (issue_all exp_of n rs a))"
    by (rule carries_trans) (rule carries_ensure_all)
  show "balanced [] (ensure_all exp_of now ms (issue_all exp_of n rs a))"
    unfolding issue_all_def by (intro balanced_ensure_all balanced_issue_all assms)
  show "tab (ensure_all exp_of now ms (issue_all exp_of n rs a)) = tab a" by (simp add: issue_all_def tab_issue_all)
qed

text \<open>Fresh ids join those awaited.\<close>

lemma calls_inv_more:
  assumes c: "calls_inv kept s" and w: "wait_ids new = [sys_next s..<m]" "\<forall>xs \<in> set new. got xs = None" "sys_next s \<le> m"
    and f: "sys_opening t = sys_opening s @ [m..<m + k]" "sys_next t = m + k"
    and al: "alive s \<union> {sys_next s..<m} \<subseteq> alive t" "token_alive s \<union> {m..<m + k} \<subseteq> token_alive t"
  shows "calls_inv (kept @ new) t"
proof -
  have old: "i < sys_next s \<and> i < m" if "i \<in> set (wait_ids kept) \<or> i \<in> set (sys_opening s)" for i
  proof -
    have "i < sys_next s" using c that by (auto simp: calls_inv_def)
    then show ?thesis using w(3) by simp
  qed
  have "distinct (wait_ids kept @ sys_opening s)" using c by (simp add: calls_inv_def)
  then have "distinct (wait_ids (kept @ new) @ sys_opening t)" using old by (fastforce simp: w f)
  moreover have "\<forall>i \<in> set (wait_ids (kept @ new) @ sys_opening t). i < sys_next t" using old by (fastforce simp: w f)
  moreover have "set (wait_ids (kept @ new)) \<subseteq> alive t" "set (sys_opening t) \<subseteq> token_alive t"
    using c al by (auto simp: w f calls_inv_def)
  ultimately show ?thesis using c w(2) by (auto simp: calls_inv_def)
qed

lemma after_app_inv:
  fixes s :: "'d system" and kept :: "'d slot list list"
  assumes r: "app_reachable rank w" and a: "api_inv s" and c: "calls_inv kept s"
    and g: "grows (b\<lparr>tasks := old\<rparr>) (app_client w)" "sent b = sent (app_client (sys_app s))" "length old = length kept"
    and t: "length (sys_opening s) + (awaitingToken (app_gateway w) - awaitingToken (app_gateway (sys_app s)))
        = awaitingToken (app_gateway w)"
  shows "sys_inv rank (after_app exp_of now kept w s)"
proof -
  obtain ts rs where ts: "tasks (app_client w) = old @ ts" and rs: "sent (app_client w) = sent (app_client (sys_app s)) @ rs"
    and len: "length rs = sum_list (map awaits ts)"
    using g(1,2) by (auto simp: grows_def)
  define m k where "m = sys_next s + length rs" and "k = awaitingToken (app_gateway w) - awaitingToken (app_gateway (sys_app s))"
  define api where "api = (sys_api s)\<lparr>tab := (session (app_gateway w), snd (tab (sys_api s)))\<rparr>"
  define api2 where "api2 = ensure_all exp_of now [m..<m + k] (issue_all exp_of (sys_next s) rs api)"
  let ?new = "deal (sys_next s) ts :: 'd slot list list"
  let ?s = "s\<lparr>sys_app := w, sys_api := api2, sys_calls := kept @ ?new,
      sys_opening := sys_opening s @ [m..<m + k], sys_next := m + k\<rparr>"
  have s': "after_app exp_of now kept w s = ?s"
    using g(3) unfolding api2_def api_def m_def k_def by (simp add: after_app_def Let_def ts rs)
  have "balanced [] api" using a by (simp add: api_def api_inv_def balanced_other)
  note new = taken_over [OF this, where n = "sys_next s" and rs = rs and ms = "[m..<m + k]" and exp_of = exp_of and now = now,
    folded api2_def m_def]
  have "carries (map (\<lambda>(i, r). Retry (api_call i r)) (zip [sys_next s..<m] rs) @ map WantsToken [m..<m + k]) (sys_api s) (sys_api ?s)"
    using new(1) by (simp add: api_def)
  from alive_carried [OF this a]
  have al: "alive s \<union> {sys_next s..<m} \<subseteq> alive ?s" "token_alive s \<union> {m..<m + k} \<subseteq> token_alive ?s"
    "sys_seen s \<le> length (results api2)" "sys_heard s \<le> length (token_results api2)"
    by (simp_all add: m_def)
  have "calls_inv (kept @ ?new) ?s"
    by (rule calls_inv_more [OF c, where m = m and k = k]) (use al(1,2) in \<open>simp_all add: deal_ids len m_def deal_got\<close>)
  moreover have "api_inv ?s" using new(2) al(3,4) by (simp add: api_inv_def)
  moreover have "fst (tab api2) = session (app_gateway w)" unfolding new(3) by (simp add: api_def)
  ultimately show ?thesis unfolding s' sys_inv_def using r g(3) t by (simp add: ts k_def)
qed

lemma after_api_inv:
  assumes i: "sys_inv rank s" and c: "carries [] (sys_api s) a" and b: "balanced [] a" and n: "sys_next s \<le> n"
  shows "sys_inv rank (after_api a (s\<lparr>sys_next := n\<rparr>))"
proof -
  let ?s = "after_api a (s\<lparr>sys_next := n\<rparr>)"
  have a: "api_inv s" and k: "calls_inv (sys_calls s) s" using i by (simp_all add: sys_inv_def)
  have f: "sys_calls ?s = sys_calls s" "sys_opening ?s = sys_opening s" "sys_next ?s = n" "sys_seen ?s = sys_seen s"
    "sys_heard ?s = sys_heard s" "sys_api ?s = a"
    by (simp_all add: after_api_def)
  have "carries [] (sys_api s) (sys_api ?s)" using c by (simp add: f)
  note al = alive_carried [OF this a f(4,5)]
  have "alive s \<subseteq> alive ?s" "token_alive s \<subseteq> token_alive ?s" using al(1,2) by simp_all
  then have "calls_inv (sys_calls ?s) ?s"
    using k n unfolding calls_inv_def f by (meson order.trans subset_trans less_le_trans)
  moreover have "api_inv ?s" using al(3,4) b by (simp add: api_inv_def f)
  moreover have "app_reachable rank (sys_app ?s)"
    using i by (auto simp: sys_inv_def after_api_def intro!: app_more simp del: app_step.simps)
  moreover have "session (app_gateway (sys_app ?s)) = fst (tab a)"
    "tasks (app_client (sys_app ?s)) = tasks (app_client (sys_app s))"
    "awaitingToken (app_gateway (sys_app ?s)) = awaitingToken (app_gateway (sys_app s))"
    by (simp_all add: after_api_def)
  ultimately show ?thesis using i by (simp add: sys_inv_def f)
qed

lemma act_tokens: "act_ok e \<Longrightarrow> awaitingToken (app_gateway w) \<le> awaitingToken (app_gateway (app_step e w))"
proof (cases e)
  case (GatewayStep x)
  then show "act_ok e \<Longrightarrow> ?thesis"
    by (cases x) (auto simp: gateway_does_calls gw_ops Let_def split: option.split)
qed (auto simp: mount_shell_def unmount_shell_def gateway_does_calls gw_ops Let_def split: option.split)

lemma act_inv:
  assumes i: "sys_inv rank s" and ok: "act_ok e" and acc: "app_accepts rank (sys_app s) e"
  shows "sys_inv rank (after_app exp_of now (sys_calls s) (app_step e (sys_app s)) s)"
proof (rule after_app_inv)
  show "app_reachable rank (app_step e (sys_app s))" using i acc by (auto simp: sys_inv_def intro: app_more)
  have "resumed e (app_client (sys_app s)) = app_client (sys_app s)" using ok by (cases e) (simp_all add: resumed_def)
  then show "grows (app_client (sys_app s)\<lparr>tasks := tasks (app_client (sys_app s))\<rparr>) (app_client (app_step e (sys_app s)))"
    using app_grows [OF acc] by simp
  show "length (sys_opening s) + (awaitingToken (app_gateway (app_step e (sys_app s))) - awaitingToken (app_gateway (sys_app s)))
      = awaitingToken (app_gateway (app_step e (sys_app s)))"
    using act_tokens [OF ok] i by (simp add: sys_inv_def)
qed (use i in \<open>simp_all add: sys_inv_def\<close>)

text \<open>A continuation runs: its result is no longer to be seen, and nobody else awaits it.\<close>

lemma calls_inv_seen:
  assumes c: "calls_inv cs s" and s: "sys_seen s < length (results (sys_api s))" and n: "fst (results (sys_api s) ! sys_seen s) = n"
    and cs: "\<forall>xs \<in> set ds. got xs = None" "distinct (wait_ids ds)" "set (wait_ids ds) \<subseteq> set (wait_ids cs) - {n}"
  shows "calls_inv ds (s\<lparr>sys_seen := sys_seen s + 1\<rparr>)"
proof -
  have "drop (sys_seen s) (results (sys_api s)) = results (sys_api s) ! sys_seen s # drop (sys_seen s + 1) (results (sys_api s))"
    using s by (simp add: Cons_nth_drop_Suc)
  then have "alive s \<subseteq> alive (s\<lparr>sys_seen := sys_seen s + 1\<rparr>) \<union> {n}" using n by (auto simp: alive_def)
  moreover have "token_alive (s\<lparr>sys_seen := sys_seen s + 1\<rparr>) = token_alive s" by (simp add: token_alive_def)
  moreover have "set (wait_ids ds) \<subseteq> set (wait_ids cs)" "n \<notin> set (wait_ids ds)" using cs(3) by auto
  moreover have "set (wait_ids cs) \<subseteq> alive s" using c by (simp add: calls_inv_def)
  ultimately have "set (wait_ids ds) \<subseteq> alive (s\<lparr>sys_seen := sys_seen s + 1\<rparr>)" by blast
  then show ?thesis
    using c cs \<open>token_alive (s\<lparr>sys_seen := sys_seen s + 1\<rparr>) = token_alive s\<close> by (auto simp: calls_inv_def)
qed

lemma calls_inv_heard:
  assumes c: "calls_inv cs s" and s: "sys_heard s < length (token_results (sys_api s))"
    and n: "fst (token_results (sys_api s) ! sys_heard s) = n"
  shows "calls_inv cs (s\<lparr>sys_heard := sys_heard s + 1, sys_opening := remove1 n (sys_opening s)\<rparr>)"
proof -
  let ?s = "s\<lparr>sys_heard := sys_heard s + 1, sys_opening := remove1 n (sys_opening s)\<rparr>"
  have "drop (sys_heard s) (token_results (sys_api s)) =
      token_results (sys_api s) ! sys_heard s # drop (sys_heard s + 1) (token_results (sys_api s))"
    using s by (simp add: Cons_nth_drop_Suc)
  then have "token_alive s \<subseteq> token_alive ?s \<union> {n}" using n by (auto simp: token_alive_def)
  moreover have "alive ?s = alive s" by (simp add: alive_def)
  moreover have "set (remove1 n (sys_opening s)) = set (sys_opening s) - {n}"
    using c by (simp add: calls_inv_def)
  ultimately show ?thesis using c by (auto simp: calls_inv_def)
qed

lemma token_inv:
  assumes i: "sys_inv rank s"
  shows "sys_inv rank (deliver_token exp_of s)"
proof (cases "sys_heard s < length (token_results (sys_api s))")
  case True
  obtain n res where nr: "token_results (sys_api s) ! sys_heard s = (n, res)" by fastforce
  have c: "calls_inv (sys_calls s) s" and a: "api_inv s" and len: "length (sys_opening s) = awaitingToken (app_gateway (sys_app s))"
    using i by (simp_all add: sys_inv_def)
  let ?s = "s\<lparr>sys_heard := sys_heard s + 1, sys_opening := remove1 n (sys_opening s)\<rparr>"
  have k: "calls_inv (sys_calls s) ?s" by (rule calls_inv_heard [OF c True]) (simp add: nr)
  have a': "api_inv ?s" using a True by (simp add: api_inv_def)
  show ?thesis
  proof (cases "n \<in> set (sys_opening s)")
    case False
    then have "sys_inv rank (s\<lparr>sys_heard := sys_heard s + 1\<rparr>)"
      using i k a' by (simp add: sys_inv_def remove1_idem calls_inv_def alive_def token_alive_def api_inv_def)
    then show ?thesis using False True nr by (simp add: deliver_token_def)
  next
    case mine: True
    let ?e = "GatewayStep (case res of Inl e \<Rightarrow> TokenErr | Inr t \<Rightarrow> TokenOk t)"
    have ok: "app_accepts rank (sys_app s) ?e" by (simp split: sum.split)
    have pos: "0 < length (sys_opening s)" using mine by (auto intro: length_pos_if_in_set)
    have "length (remove1 n (sys_opening s)) + 1 = length (sys_opening s)"
      using mine pos by (simp add: length_remove1)
    moreover have "awaitingToken (app_gateway (app_step ?e (sys_app s))) + 1 = awaitingToken (app_gateway (sys_app s))"
      using len pos by (cases res) (simp_all add: gateway_does_calls gw_ops Let_def)
    moreover have "sys_inv rank (after_app exp_of 0 (sys_calls s) (app_step ?e (sys_app s)) ?s)"
    proof (rule after_app_inv [OF _ a' k])
      show "app_reachable rank (app_step ?e (sys_app s))"
        by (rule app_more [OF _ ok]) (use i in \<open>simp add: sys_inv_def\<close>)
      show "grows (app_client (sys_app s)\<lparr>tasks := tasks (app_client (sys_app s))\<rparr>) (app_client (app_step ?e (sys_app s)))"
        using app_grows [OF ok] by (simp add: resumed_def)
    qed (use i calculation len in \<open>simp_all add: sys_inv_def del: app_step.simps\<close>)
    ultimately show ?thesis using mine True nr by (simp add: deliver_token_def Let_def del: app_step.simps)
  qed
next
  case False
  then show ?thesis using i by (simp add: deliver_token_def)
qed

text \<open>The operation that awaits a call, if any.\<close>

lemma find_upt:
  "List.find P [0..<m] = Some k \<Longrightarrow> k < m \<and> P k" "List.find P [0..<m] = None \<Longrightarrow> k < m \<Longrightarrow> \<not> P k"
  by (auto simp: find_Some_iff find_None_iff)

lemma wait_ids_set: "n \<in> set (wait_ids cs) \<longleftrightarrow> (\<exists>k < length cs. Waiting n \<in> set (cs ! k))"
proof -
  have "n \<in> set (wait_ids cs) \<longleftrightarrow> (\<exists>xs \<in> set cs. Waiting n \<in> set xs)" by (auto simp: wait_ids_def waits_set)
  then show ?thesis by (metis in_set_conv_nth)
qed

lemma wait_ids_at:
  assumes "k < length cs"
  shows "wait_ids cs = wait_ids (take k cs) @ waits (cs ! k) @ wait_ids (drop (Suc k) cs)"
    and "wait_ids (dropNth k cs) = wait_ids (take k cs) @ wait_ids (drop (Suc k) cs)"
    and "wait_ids (cs[k := xs]) = wait_ids (take k cs) @ waits xs @ wait_ids (drop (Suc k) cs)"
proof -
  have c: "cs = take k cs @ cs ! k # drop (Suc k) cs" by (rule id_take_nth_drop [OF assms])
  show "wait_ids cs = wait_ids (take k cs) @ waits (cs ! k) @ wait_ids (drop (Suc k) cs)"
    by (subst c) (simp only: waits_simps)
  show "wait_ids (dropNth k cs) = wait_ids (take k cs) @ wait_ids (drop (Suc k) cs)" by (simp add: dropNth_def)
  show "wait_ids (cs[k := xs]) = wait_ids (take k cs) @ waits xs @ wait_ids (drop (Suc k) cs)"
    using assms by (simp add: upd_conv_take_nth_drop)
qed

lemma dropNth_length [simp]: "k < length xs \<Longrightarrow> length (dropNth k xs) = length xs - 1"
  by (simp add: dropNth_def)

lemma dropNth_subset: "set (dropNth k xs) \<subseteq> set xs"
  by (auto simp: dropNth_def dest: in_set_takeD in_set_dropD)

lemma continue_inv:
  assumes i: "sys_inv rank s" and s: "sys_seen s < length (results (sys_api s))" and n: "fst (results (sys_api s) ! sys_seen s) = n"
    and k: "k < length (sys_calls s)" "Waiting n \<in> set (sys_calls s ! k)"
    and acc: "app_accepts rank (sys_app s) (StoreReply k r)"
  shows "sys_inv rank (after_app exp_of now (dropNth k (sys_calls s)) (app_step (StoreReply k r) (sys_app s))
    (s\<lparr>sys_seen := sys_seen s + 1\<rparr>))"
proof (rule after_app_inv)
  have c: "calls_inv (sys_calls s) s" using i by (simp add: sys_inv_def)
  have len: "length (sys_calls s) = length (tasks (app_client (sys_app s)))" using i by (simp add: sys_inv_def)
  show "app_reachable rank (app_step (StoreReply k r) (sys_app s))"
    by (rule app_more [OF _ acc]) (use i in \<open>simp add: sys_inv_def\<close>)
  show "api_inv (s\<lparr>sys_seen := sys_seen s + 1\<rparr>)" using i s by (simp add: sys_inv_def api_inv_def)
  have n': "n \<in> set (waits (sys_calls s ! k))" using k(2) by (simp add: waits_set)
  have d: "distinct (wait_ids (sys_calls s))" using c by (simp add: calls_inv_def)
  note at = wait_ids_at [OF k(1)]
  have "distinct (wait_ids (dropNth k (sys_calls s)))" using d unfolding at(1,2) by auto
  moreover have "set (wait_ids (dropNth k (sys_calls s))) \<subseteq> set (wait_ids (sys_calls s)) - {n}"
    using d n' unfolding at(1,2) by auto
  moreover have "\<forall>xs \<in> set (dropNth k (sys_calls s)). got xs = None"
    using c dropNth_subset [of k "sys_calls s"] by (auto simp: calls_inv_def)
  ultimately show "calls_inv (dropNth k (sys_calls s)) (s\<lparr>sys_seen := sys_seen s + 1\<rparr>)"
    using calls_inv_seen [OF c s n] by blast
  show "grows (app_client (sys_app s)\<lparr>tasks := dropNth k (tasks (app_client (sys_app s)))\<rparr>)
      (app_client (app_step (StoreReply k r) (sys_app s)))"
    using app_grows [OF acc] k(1) len by (simp add: resumed_def)
  show "length (dropNth k (tasks (app_client (sys_app s)))) = length (dropNth k (sys_calls s))" using len k(1) by simp
qed (use i in \<open>simp_all add: sys_inv_def store_replies_def Let_def\<close>)

lemma partly_inv:
  assumes i: "sys_inv rank s" and s: "sys_seen s < length (results (sys_api s))" and n: "fst (results (sys_api s) ! sys_seen s) = n"
    and k: "k < length (sys_calls s)" "Waiting n \<in> set (sys_calls s ! k)"
    and xs: "xs = map (fill n d) (sys_calls s ! k)" "got xs = None"
  shows "sys_inv rank (s\<lparr>sys_seen := sys_seen s + 1, sys_calls := (sys_calls s)[k := xs]\<rparr>)"
proof -
  have c: "calls_inv (sys_calls s) s" and a: "api_inv s" using i by (simp_all add: sys_inv_def)
  have w: "waits xs = filter (\<lambda>m. m \<noteq> n) (waits (sys_calls s ! k))" by (simp add: xs(1) waits_fill)
  have n': "n \<in> set (waits (sys_calls s ! k))" using k(2) by (simp add: waits_set)
  have d: "distinct (wait_ids (sys_calls s))" using c by (simp add: calls_inv_def)
  note at = wait_ids_at [OF k(1)]
  have "distinct (wait_ids ((sys_calls s)[k := xs]))" using d unfolding at(1,3) w by auto
  moreover have "set (wait_ids ((sys_calls s)[k := xs])) \<subseteq> set (wait_ids (sys_calls s)) - {n}"
    using d n' unfolding at(1,3) w by auto
  moreover have "\<forall>ys \<in> set ((sys_calls s)[k := xs]). got ys = None"
    using c xs(2) set_update_subset_insert [of "sys_calls s" k xs] by (auto simp: calls_inv_def)
  ultimately have "calls_inv ((sys_calls s)[k := xs]) (s\<lparr>sys_seen := sys_seen s + 1\<rparr>)"
    using calls_inv_seen [OF c s n] by blast
  then show ?thesis using i a s by (simp add: sys_inv_def calls_inv_def alive_def token_alive_def api_inv_def)
qed

lemma nobody_inv:
  assumes i: "sys_inv rank s" and s: "sys_seen s < length (results (sys_api s))" and n: "fst (results (sys_api s) ! sys_seen s) = n"
    and k: "n \<notin> set (wait_ids (sys_calls s))"
  shows "sys_inv rank (s\<lparr>sys_seen := sys_seen s + 1\<rparr>)"
proof -
  have c: "calls_inv (sys_calls s) s" and a: "api_inv s" using i by (simp_all add: sys_inv_def)
  have "calls_inv (sys_calls s) (s\<lparr>sys_seen := sys_seen s + 1\<rparr>)"
    by (rule calls_inv_seen [OF c s n]) (use c k in \<open>auto simp: calls_inv_def\<close>)
  then show ?thesis using i a s by (simp add: sys_inv_def calls_inv_def alive_def token_alive_def api_inv_def)
qed

lemma deliver_inv:
  assumes i: "sys_inv rank s" and acc: "sys_accepts decode engine rank s Continue"
  shows "sys_inv rank (deliver exp_of decode engine s)"
proof (cases "sys_seen s < length (results (sys_api s))")
  case False
  then have "length (results (sys_api s)) = sys_seen s" using i by (simp add: sys_inv_def api_inv_def)
  then show ?thesis using i by (simp add: deliver_def next_delivery_def)
next
  case True
  obtain n res where nr: "results (sys_api s) ! sys_seen s = (n, res)" by fastforce
  let ?find = "List.find (\<lambda>k. Waiting n \<in> set (sys_calls s ! k)) [0..<length (sys_calls s)]"
  have d: "next_delivery decode engine s = delivery_of decode engine n res s" using True nr by (simp add: next_delivery_def)
  have m: "min (sys_seen s + 1) (length (results (sys_api s))) = sys_seen s + 1" using True by simp
  have f: "fst (results (sys_api s) ! sys_seen s) = n" by (simp add: nr)
  show ?thesis
  proof (cases ?find)
    case None
    then have "n \<notin> set (wait_ids (sys_calls s))" by (auto simp: wait_ids_set dest: find_upt(2))
    then show ?thesis using nobody_inv [OF i True f] None m by (simp add: deliver_def d delivery_of_def Let_def)
  next
    case (Some k)
    then have k: "k < length (sys_calls s)" "Waiting n \<in> set (sys_calls s ! k)" using find_upt(1) by blast+
    show ?thesis
    proof (cases "delivery_of decode engine n res s")
      case Nobody
      then show ?thesis using Some by (simp add: delivery_of_def Let_def split: outcome.splits option.splits)
    next
      case (Partly k' xs)
      then have "k' = k" "\<exists>x. xs = map (fill n x) (sys_calls s ! k)" "got xs = None"
        using Some by (auto simp: delivery_of_def Let_def split: outcome.splits option.splits)
      then show ?thesis using partly_inv [OF i True f k] Partly m by (auto simp: deliver_def d Let_def)
    next
      case (Fully k' r)
      then have "k' = k" using Some by (auto simp: delivery_of_def Let_def split: outcome.splits option.splits)
      moreover have "app_accepts rank (sys_app s) (StoreReply k r)" using acc Fully d calculation by simp
      ultimately show ?thesis using continue_inv [OF i True f k] Fully m
        by (simp add: deliver_def d Let_def del: app_step.simps)
    qed
  qed
qed

lemma sys_inv_start: "sys_inv rank (start_system ls)"
proof -
  have "balanced [] (initial_api ls)" using balanced_run [of _ "[]" ls] by (simp add: api_run_def)
  then show ?thesis
    by (simp add: sys_inv_def start_system_def api_inv_def calls_inv_def app_start)
      (simp add: start_app_def initial_client_def initial_gateway_def initial_api_def)
qed

lemma sys_inv_step:
  assumes i: "sys_inv rank s" and acc: "sys_accepts decode engine rank s e"
  shows "sys_inv rank (sys_step exp_of decode engine e s)"
proof -
  have b: "balanced [] (sys_api s)" using i by (simp add: sys_inv_def api_inv_def)
  have any: "sys_inv rank (after_api (api_step exp_of x (sys_api s)) (s\<lparr>sys_next := n\<rparr>))" if "sys_next s \<le> n" for x n
    by (rule after_api_inv [OF i carries_step balanced_step [OF b] that])
  show ?thesis
  proof (cases e)
    case (Act now x)
    then show ?thesis using act_inv [OF i] acc by simp
  next
    case (OtherCall r)
    then show ?thesis using any [of "sys_next s + 1"] by (simp del: api_step.simps)
  next
    case (OtherToken now)
    then show ?thesis using any [of "sys_next s + 1"] by (simp del: api_step.simps)
  next
    case OtherRefresh
    have "balanced [] (refreshSession (WantsToken (sys_next s)) (sys_api s))"
      using balanced_refreshSession [of "WantsToken (sys_next s)"] b by simp
    then show ?thesis
      using after_api_inv [OF i carries_less [OF carries_join], of "WantsToken (sys_next s)" "sys_next s + 1"] OtherRefresh by simp
  next
    case (Network x)
    then show ?thesis using any [of "sys_next s" x] by simp
  next
    case (Account x)
    then show ?thesis using any [of "sys_next s" x] by simp
  next
    case (SetUser u)
    have "sys_inv rank (after_api ((sys_api s)\<lparr>tab := setUser u (tab (sys_api s))\<rparr>) (s\<lparr>sys_next := sys_next s\<rparr>))"
      by (rule after_api_inv [OF i]) (simp_all add: carries_refl balanced_other b)
    then show ?thesis using SetUser by simp
  next
    case Continue
    then show ?thesis using deliver_inv [OF i] acc by simp
  next
    case ContinueToken
    then show ?thesis using token_inv [OF i] by simp
  qed
qed

lemma sys_reachable_inv: "sys_reachable exp_of decode engine rank s \<Longrightarrow> sys_inv rank s"
  by (induction rule: sys_reachable.induct) (simp_all add: sys_inv_start sys_inv_step)

section \<open>The whole client runs, and settles\<close>

text \<open>
  C20: the components are one program: in every run in which the API client carries out the store's
  requests, shares its session with the gateway client and fetches its tokens, the application is in a
  state of its own runs, the session is the same everywhere, and each suspended operation of the store
  awaits calls that the API client still works on or whose results are about to be handed over.
\<close>
theorem system_runs:
  assumes "sys_reachable exp_of decode engine rank s"
  shows "app_reachable rank (sys_app s) \<and> session (app_gateway (sys_app s)) = fst (tab (sys_api s))
    \<and> list_all2 (\<lambda>t xs. \<exists>n. Waiting n \<in> set xs) (tasks (app_client (sys_app s))) (sys_calls s)
    \<and> set (wait_ids (sys_calls s)) \<subseteq> open_ids (sys_api s) \<union> set (map fst (drop (sys_seen s) (results (sys_api s))))
    \<and> distinct (wait_ids (sys_calls s))"
proof -
  have i: "sys_inv rank s" by (rule sys_reachable_inv [OF assms])
  have "\<exists>n. Waiting n \<in> set xs" if "xs \<in> set (sys_calls s)" for xs
  proof -
    have "waits xs \<noteq> []" using i that by (auto simp: sys_inv_def calls_inv_def got_None)
    then show ?thesis using waits_set by (metis list.set_intros(1) neq_Nil_conv)
  qed
  then show ?thesis using i
    by (auto simp: sys_inv_def calls_inv_def alive_def list_all2_conv_all_nth)
qed

text \<open>Nothing is under way: no fetch, no refresh, and every continuation has run.\<close>

definition quiet :: "'d system \<Rightarrow> bool" where
  "quiet s \<longleftrightarrow> pendings (sys_api s) = [] \<and> flights (sys_api s) = []
     \<and> sys_seen s = length (results (sys_api s)) \<and> sys_heard s = length (token_results (sys_api s))"

lemma app_live: "app_reachable rank w \<Longrightarrow> gw_live (app_gateway w)"
proof (induction rule: app_reachable.induct)
  case (app_start s)
  then show ?case by (simp add: start_app_def initial_gateway_def gw_live_def BACKOFF_MIN_MS_def BACKOFF_MAX_MS_def)
next
  case (app_more w e)
  have "app_gateway (app_step e w) = app_gateway w \<or> (\<exists>x. app_gateway (app_step e w) = gw_step x (app_gateway w))"
    by (cases e) (auto simp: mount_shell_def unmount_shell_def gateway_does_calls store_replies_def Let_def
        simp del: gw_step.simps)
  then show ?case using app_more gw_live_step by metis
qed

lemma quiet_idle:
  assumes i: "sys_inv rank s" and q: "quiet s"
  shows "tasks (app_client (sys_app s)) = []" and "awaitingToken (app_gateway (sys_app s)) = 0"
proof -
  have "waiters (sys_api s) = []"
    using i q balancedD(1,2) [of "[]" "sys_api s"] by (auto simp: sys_inv_def api_inv_def quiet_def split: if_splits)
  then have "alive s = {}" "token_alive s = {}" using q by (simp_all add: alive_def token_alive_def open_ids_def quiet_def)
  then have w: "wait_ids (sys_calls s) = []" "sys_opening s = []" using i by (simp_all add: sys_inv_def calls_inv_def)
  have "sys_calls s = []"
    using i w(1) by (cases "sys_calls s") (auto simp: sys_inv_def calls_inv_def got_None)
  then show "tasks (app_client (sys_app s)) = []" "awaitingToken (app_gateway (sys_app s)) = 0"
    using i w(2) by (simp_all add: sys_inv_def)
qed

text \<open>
  C21: when the network has answered, the whole client is at rest: no operation of the store is
  suspended, every conversation is loaded and idle, every message is delivered or marked as failed, and
  the gateway client is stopped, has a socket or will try again.
\<close>
theorem system_settles:
  assumes "sys_reachable exp_of decode engine rank s" and "quiet s"
  shows "tasks (app_client (sys_app s)) = []
    \<and> (\<forall>ch c. conv_at (chat (app_client (sys_app s))) ch = Some c \<longrightarrow>
         loaded c \<and> \<not> loadingInitial c \<and> \<not> loadingOlder c \<and> (\<forall>m \<in> set (items c). m_optimistic m \<longrightarrow> m_failed m))
    \<and> (stopped (app_gateway (sys_app s)) \<or> ws (app_gateway (sys_app s)) \<noteq> None
       \<or> reconnectTimer (app_gateway (sys_app s)) \<noteq> None)"
proof -
  have i: "sys_inv rank s" by (rule sys_reachable_inv [OF assms(1)])
  then have r: "app_reachable rank (sys_app s)" by (simp add: sys_inv_def)
  then have c: "reachable rank (app_client (sys_app s))" using app_reachable_inv by blast
  note idle = quiet_idle [OF i assms(2)]
  have "loaded c \<and> \<not> loadingInitial c \<and> \<not> loadingOlder c \<and> (\<forall>m \<in> set (items c). m_optimistic m \<longrightarrow> m_failed m)"
    if "conv_at (chat (app_client (sys_app s))) ch = Some c" for ch c
    using reachable_conv [OF c that] idle(1)
    by (auto simp: conv_inv_def wf_conv_def sending_def waiting_ids_def waiting_def)
  then show ?thesis using idle app_live [OF r] by (auto simp: gw_live_def)
qed

text \<open>
  A visit with an expired session: the shell is mounted, the guild list meets a 401, one refresh serves
  it and the gateway, the list arrives.
\<close>

fun sys_follow ::
  "(string \<Rightarrow> int option) \<Rightarrow> (task \<Rightarrow> 'd json_body option list \<Rightarrow> reply) \<Rightarrow> (api_error \<Rightarrow> string) \<Rightarrow>
    (string \<Rightarrow> nat) \<Rightarrow> 'd system \<Rightarrow> 'd sys_event list \<Rightarrow> 'd system option" where
  "sys_follow exp_of decode engine rank s [] = Some s"
| "sys_follow exp_of decode engine rank s (e # es) =
     (if sys_accepts decode engine rank s e
      then sys_follow exp_of decode engine rank (sys_step exp_of decode engine e s) es else None)"

lemma sys_follow_reachable:
  "sys_reachable exp_of decode engine rank s \<Longrightarrow> sys_follow exp_of decode engine rank s es = Some t \<Longrightarrow>
   sys_reachable exp_of decode engine rank t"
  by (induction es arbitrary: s) (auto split: if_splits intro: sys_more)

text \<open>JSON values that are replies already; both halves of a \<open>Promise.all\<close> are joined.\<close>

fun plain_decode :: "task \<Rightarrow> reply json_body option list \<Rightarrow> reply" where
  "plain_decode t [Some b] = jb_data b"
| "plain_decode t [Some b, Some c] = (case (jb_data b, jb_data c) of
     (ChannelsReply cs, MembersReply ms) \<Rightarrow> ChannelsMembersReply cs ms | _ \<Rightarrow> Done)"
| "plain_decode t _ = Done"

definition plain_engine :: "api_error \<Rightarrow> string" where
  "plain_engine e = (if e = NetworkError then ''Failed to fetch'' else ''Unexpected token'')"

definition expired_visit :: "reply sys_event list" where
  "expired_visit = [Act 0 MountShell, Network (Answer 0 (Response 401 None)),
     Network (RefreshAnswer 0 (RefreshReply 200 (Some (Some ''a2'', Some (Some ''r2''))))), ContinueToken,
     Network (Answer 0 (Response 200 (Some \<lparr>jb_error = None, jb_data = GuildsReply []\<rparr>))), Continue]"

definition visited :: "reply system option" where
  "visited = sys_follow no_expiry plain_decode plain_engine length (start_system signed_in_storage) expired_visit"

lemma visited_eval: "case visited of None \<Rightarrow> False | Some s \<Rightarrow> quiet s \<and> ws (app_gateway (sys_app s)) = Some 0
    \<and> guildsLoaded (chat (app_client (sys_app s)))
    \<and> map (fe_url \<circ> snd) (request_log (sys_api s)) = [''/api/v1/users/@me/guilds'', ''/api/v1/users/@me/guilds'']"
  by code_simp

lemma visited_reachable:
  "\<exists>s. visited = Some s \<and> sys_reachable no_expiry plain_decode plain_engine length s"
  using visited_eval sys_follow_reachable [OF sys_start] by (auto simp: visited_def split: option.splits)

lemma system_runs_witness:
  "case visited of None \<Rightarrow> False | Some s \<Rightarrow> app_reachable length (sys_app s)
     \<and> accessToken (session (app_gateway (sys_app s))) = Some ''a2''"
proof -
  obtain s where s: "visited = Some s" "sys_reachable no_expiry plain_decode plain_engine length s"
    using visited_reachable by blast
  have "case visited of None \<Rightarrow> False | Some s \<Rightarrow> accessToken (fst (tab (sys_api s))) = Some ''a2''" by code_simp
  then show ?thesis using system_runs [OF s(2)] by (simp add: s(1))
qed

lemma system_settles_witness:
  "case visited of None \<Rightarrow> False | Some s \<Rightarrow> guildsLoaded (chat (app_client (sys_app s))) \<and> tasks (app_client (sys_app s)) = []"
proof -
  obtain s where s: "visited = Some s" "sys_reachable no_expiry plain_decode plain_engine length s"
    using visited_reachable by blast
  have "quiet s" "guildsLoaded (chat (app_client (sys_app s)))" using visited_eval by (simp_all add: s(1))
  then show ?thesis using system_settles [OF s(2)] by (simp add: s(1))
qed

section \<open>Signing out does not end what was asked\<close>

text \<open>
  Signing out resets the chat store but does not cancel its requests. A page requested for the old
  session and answered after it is put into the store, and the next user of the tab who opens the
  channel is shown it: the conversation counts as loaded, so that nothing is requested with the new
  session. (The \<open>POST\<close> of the logout, which changes nothing here, is left out of the run.)
\<close>

definition logout_race :: "reply sys_event list" where
  "logout_race = [Act 0 (UserStep (DoSelectChannel (Some ''general''))), Act 0 UnmountShell, Act 0 (UserStep DoReset),
     Account LogOut,
     Network (Answer 0 (Response 200 (Some \<lparr>jb_error = None, jb_data = MessagesReply [sample_msg ''m1'' ''bob'' ''secret'']\<rparr>))),
     Continue,
     Account (LogIn \<lparr>se_user = Some (Some ada), se_access = Some ''b1'', se_refresh = Some (Some ''s1'')\<rparr>),
     Act 0 (UserStep (DoSelectChannel (Some ''general'')))]"

lemma late_page_shown_to_next_user:
  "case sys_follow no_expiry plain_decode plain_engine length (start_system signed_in_storage) logout_race of
     None \<Rightarrow> False
   | Some s \<Rightarrow> authUser (app_client (sys_app s)) = Some ada
       \<and> map_option (map m_content \<circ> items) (conv_at (chat (app_client (sys_app s))) ''general'') = Some [''secret'']
       \<and> length (request_log (sys_api s)) = 1 \<and> quiet s"
  by code_simp

end
