(* ===== verification/Call_Stage.thy ===== *)
theory Call_Stage imports Guild_View Voice_Properties
begin

text \<open>
  A call on screen: the voice store with \<open>VoiceStage.jsx\<close>, its \<open>ParticipantTile\<close>s and its
  \<open>AudioSink\<close>s. React keeps the children of a list by their keys: a child whose key is still there is
  rendered again, a new key mounts a child, a key that is gone unmounts its child, which runs the
  clean-up of its effect. The two kinds of children share one contract, the locale
  \<open>keyed_children\<close>. The theorems say that no media track is left attached to an element that is gone,
  and that after a media event the stage shows and plays what the room has.
\<close>

section \<open>Children kept by their keys\<close>

definition reconcile :: "('p \<Rightarrow> 'c) \<Rightarrow> ('p \<Rightarrow> 'c \<Rightarrow> 'c) \<Rightarrow> (string \<times> 'p) list \<Rightarrow> (string \<times> 'c) list \<Rightarrow> (string \<times> 'c) list" where
  "reconcile mount update wanted children =
     map (\<lambda>(k, p). (k, case map_of children k of None \<Rightarrow> mount p | Some c \<Rightarrow> update p c)) wanted"

definition dropped :: "(string \<times> 'p) list \<Rightarrow> (string \<times> 'c) list \<Rightarrow> 'c list" where
  "dropped wanted children = map snd (filter (\<lambda>(k, c). k \<notin> fst ` set wanted) children)"

lemma reconcile_keys: "map fst (reconcile mount update wanted children) = map fst wanted"
  by (simp add: reconcile_def case_prod_unfold)

lemma reconcile_Nil [simp]: "reconcile mount update [] children = []" "dropped [] children = map snd children"
  by (simp_all add: reconcile_def dropped_def case_prod_unfold)

text \<open>
  \<open>inv\<close> holds of a mounted child, \<open>due p\<close> of one whose effect runs when it is rendered with the
  properties \<open>p\<close>; its effect has run makes it \<open>show\<close> them; an unmounted child has \<open>released\<close> what it held.
\<close>

locale keyed_children =
  fixes mount :: "'p \<Rightarrow> 'c"
    and update :: "'p \<Rightarrow> 'c \<Rightarrow> 'c"
    and unmount :: "'c \<Rightarrow> 'c"
    and inv :: "'c \<Rightarrow> bool"
    and due :: "'p \<Rightarrow> 'c \<Rightarrow> bool"
    and shows_it :: "'p \<Rightarrow> 'c \<Rightarrow> bool"
    and released :: "'c \<Rightarrow> bool"
  assumes inv_mount: "inv (mount p)" and inv_update: "inv c \<Longrightarrow> inv (update p c)"
    and shows_mount: "shows_it p (mount p)" and shows_update: "due p c \<Longrightarrow> shows_it p (update p c)"
    and idle_update: "\<not> due p c \<Longrightarrow> update p c = c"
    and unmount_releases: "inv c \<Longrightarrow> released (unmount c)"
begin

lemma reconcile_inv:
  assumes "\<forall>(k, c) \<in> set children. inv c"
  shows "\<forall>(k, c) \<in> set (reconcile mount update wanted children). inv c"
proof -
  have "inv (case map_of children k of None \<Rightarrow> mount p | Some c \<Rightarrow> update p c)" for k p
    using assms by (auto split: option.split dest: map_of_SomeD intro: inv_mount inv_update)
  then show ?thesis by (auto simp: reconcile_def)
qed

lemma dropped_released:
  assumes "\<forall>(k, c) \<in> set children. inv c"
  shows "\<forall>c \<in> set (dropped wanted children). released (unmount c)"
  using assms by (auto simp: dropped_def intro: unmount_releases)

lemma reconcile_shows:
  assumes "\<forall>(k, c) \<in> set children. \<forall>(i, p) \<in> set wanted. due p c"
  shows "list_all2 (\<lambda>(i, p) (k, c). i = k \<and> shows_it p c) wanted (reconcile mount update wanted children)"
proof -
  have "shows_it p (case map_of children i of None \<Rightarrow> mount p | Some c \<Rightarrow> update p c)" if "(i, p) \<in> set wanted" for i p
    using assms that by (fastforce split: option.split dest: map_of_SomeD intro: shows_mount shows_update)
  then show ?thesis by (auto simp: reconcile_def list_all2_conv_all_nth case_prod_unfold)
qed

lemma reconcile_keeps:
  assumes "map_of children k = Some c" and "(k, d) \<in> set (reconcile mount update wanted children)"
    and "\<forall>(i, p) \<in> set wanted. \<not> due p c"
  shows "d = c"
  using assms by (auto simp: reconcile_def idle_update)

end

section \<open>The audio sinks\<close>

record sink =
  sk_attached :: "nat option"
  sk_ops :: "track_op list"

definition new_sink :: sink where
  "new_sink = \<lparr>sk_attached = None, sk_ops = []\<rparr>"

definition sink_cleanup :: "sink \<Rightarrow> sink" where
  "sink_cleanup s = (case sk_attached s of None \<Rightarrow> s
     | Some x \<Rightarrow> s\<lparr>sk_attached := None, sk_ops := sk_ops s @ [Detach x]\<rparr>)"

text \<open>The effect runs when the sink is mounted and when its track changes.\<close>

definition sink_effect :: "nat \<Rightarrow> sink \<Rightarrow> sink" where
  "sink_effect track s =
     (let s1 = sink_cleanup s in s1\<lparr>sk_attached := Some track, sk_ops := sk_ops s1 @ [Attach track]\<rparr>)"

definition mount_sink :: "nat \<Rightarrow> sink" where
  "mount_sink track = sink_effect track new_sink"

definition update_sink :: "nat \<Rightarrow> sink \<Rightarrow> sink" where
  "update_sink track s = (if sk_attached s = Some track then s else sink_effect track s)"

definition sink_inv :: "sink \<Rightarrow> bool" where
  "sink_inv s \<longleftrightarrow> (\<forall>x. holds x (sk_ops s) = (if sk_attached s = Some x then 1 else 0))"

lemma holds_Nil [simp]: "holds x [] = 0"
  by (simp add: holds_def)

lemma sink_released: "sink_inv s \<Longrightarrow> holds x (sk_ops (sink_cleanup s)) = 0"
  by (cases "sk_attached s") (simp_all add: sink_inv_def sink_cleanup_def)

lemma sink_effect_inv: "sink_inv s \<Longrightarrow> sink_inv (sink_effect track s)"
  using sink_released [of s] by (simp add: sink_inv_def sink_effect_def Let_def)

lemma sink_effect_shows: "sk_attached (sink_effect track s) = Some track"
  by (simp add: sink_effect_def Let_def)

interpretation sinks: keyed_children mount_sink update_sink sink_cleanup sink_inv
  "\<lambda>track s. sk_attached s \<noteq> Some track" "\<lambda>track s. sk_attached s = Some track" "\<lambda>s. \<forall>x. holds x (sk_ops s) = 0"
proof
  have "sink_inv new_sink" by (simp add: sink_inv_def new_sink_def)
  then show "sink_inv (mount_sink p)" for p by (simp add: mount_sink_def sink_effect_inv)
qed (auto simp: update_sink_def sink_effect_inv mount_sink_def sink_effect_shows sink_released)

section \<open>The tiles\<close>

text \<open>A tile with the media version its effect has last run for; the property is the identity and the store.\<close>

definition new_tile :: tile where
  "new_tile = \<lparr>tl_attached = None, tl_active = False, tl_isScreen = False, tl_ops = []\<rparr>"

definition mount_tile :: "string \<times> voice \<Rightarrow> nat \<times> tile" where
  "mount_tile p = (case p of (i, v) \<Rightarrow> (mediaVersion v, tile_effect i v new_tile))"

definition update_tile :: "string \<times> voice \<Rightarrow> nat \<times> tile \<Rightarrow> nat \<times> tile" where
  "update_tile p c = (case (p, c) of ((i, v), (n, t)) \<Rightarrow>
     if n = mediaVersion v then (n, t) else (mediaVersion v, tile_effect i v t))"

definition unmount_tile :: "nat \<times> tile \<Rightarrow> nat \<times> tile" where
  "unmount_tile c = (case c of (n, t) \<Rightarrow> (n, tile_cleanup t))"

lemma tile_shows:
  "tl_attached (tile_effect i v t) = map_option fst (getDisplayTrack i v)"
  "tl_active (tile_effect i v t) = (getDisplayTrack i v \<noteq> None)"
  by (simp_all add: tile_effect_def Let_def tile_cleanup_attached split: option.split prod.split)

interpretation tiles: keyed_children mount_tile update_tile unmount_tile "\<lambda>(n, t). tile_inv t"
  "\<lambda>(i, v) (n, t). n \<noteq> mediaVersion v"
  "\<lambda>(i, v) (n, t). n = mediaVersion v \<and> tl_attached t = map_option fst (getDisplayTrack i v)"
  "\<lambda>(n, t). \<forall>x. holds x (tl_ops t) = 0"
proof
  have "tile_inv new_tile" by (simp add: tile_inv_def new_tile_def)
  then show "case mount_tile p of (n, t) \<Rightarrow> tile_inv t" for p
    by (cases p) (simp add: mount_tile_def tile_effect_inv)
qed (auto simp: mount_tile_def update_tile_def unmount_tile_def tile_effect_inv tile_shows tile_unmount_releases
    split: prod.splits if_splits)

section \<open>The stage and the store\<close>

text \<open>
  \<open>sg_noGuilds\<close> is what \<open>AppShell.jsx\<close> computes from the chat store: without guilds it shows a
  welcome instead. \<open>sg_gone\<close> and \<open>sg_silent\<close> are the unmounted children, with what was done to their
  elements.
\<close>

record stage =
  sg_voice :: voice
  sg_noGuilds :: bool
  sg_tiles :: "(string \<times> nat \<times> tile) list"
  sg_sinks :: "(string \<times> sink) list"
  sg_gone :: "(nat \<times> tile) list"
  sg_silent :: "sink list"

definition stage_on :: "stage \<Rightarrow> bool" where
  "stage_on st \<longleftrightarrow> \<not> sg_noGuilds st \<and> voiceView (sg_voice st)"

text \<open>The children the markup asks for.\<close>

definition wanted_ids :: "stage \<Rightarrow> string list" where
  "wanted_ids st = (if stage_on st then (case stage_shows (sg_voice st) of
       ConnectingNote \<Rightarrow> [] | Grid ps \<Rightarrow> map ds_identity ps) else [])"

definition wanted_tiles :: "stage \<Rightarrow> (string \<times> string \<times> voice) list" where
  "wanted_tiles st = map (\<lambda>i. (i, i, sg_voice st)) (wanted_ids st)"

definition wanted_sinks :: "stage \<Rightarrow> (string \<times> nat) list" where
  "wanted_sinks st = (if stage_on st then getRemoteAudioTracks (sg_voice st) else [])"

definition commit :: "stage \<Rightarrow> stage" where
  "commit st = st\<lparr>
     sg_tiles := reconcile mount_tile update_tile (wanted_tiles st) (sg_tiles st),
     sg_gone := sg_gone st @ map unmount_tile (dropped (wanted_tiles st) (sg_tiles st)),
     sg_sinks := reconcile mount_sink update_sink (wanted_sinks st) (sg_sinks st),
     sg_silent := sg_silent st @ map sink_cleanup (dropped (wanted_sinks st) (sg_sinks st))\<rparr>"

text \<open>
  What the components read of the store. They are rendered again when that changes, and when the list
  of participants is replaced by an equal one, as an event about speakers does.
\<close>

definition subscribed :: "voice \<Rightarrow> bool \<times> bool \<times> descriptor list \<times> string option \<times> string option \<times> nat" where
  "subscribed v = (voiceView v, vconnecting v, participants v, roomChannelId v, roomGuildId v, mediaVersion v)"

definition rerenders :: "voice_event \<Rightarrow> voice \<Rightarrow> voice \<Rightarrow> bool" where
  "rerenders e v w \<longleftrightarrow> subscribed w \<noteq> subscribed v
     \<or> (case e of RoomFires r SpeakingEvent \<Rightarrow> r \<in> set (listeners v) \<and> room v \<noteq> None | _ \<Rightarrow> False)"

datatype stage_event = Voice voice_event | NoGuilds bool

fun stage_step :: "(string \<Rightarrow> string option) \<Rightarrow> bool \<Rightarrow> stage_event \<Rightarrow> stage \<Rightarrow> stage" where
  "stage_step av sec (Voice e) st =
     (let w = voice_step av sec e (sg_voice st); st' = st\<lparr>sg_voice := w\<rparr>
      in if rerenders e (sg_voice st) w then commit st' else st')"
| "stage_step av sec (NoGuilds b) st = commit (st\<lparr>sg_noGuilds := b\<rparr>)"

definition start_stage :: stage where
  "start_stage = \<lparr>sg_voice = initial_voice, sg_noGuilds = False, sg_tiles = [], sg_sinks = [],
     sg_gone = [], sg_silent = []\<rparr>"

text \<open>No effect has run for a version still to come, and what is unmounted has been released.\<close>

definition stage_inv :: "stage \<Rightarrow> bool" where
  "stage_inv st \<longleftrightarrow> (\<forall>(i, n, t) \<in> set (sg_tiles st). tile_inv t \<and> n \<le> mediaVersion (sg_voice st))
     \<and> (\<forall>(k, s) \<in> set (sg_sinks st). sink_inv s)
     \<and> (\<forall>(n, t) \<in> set (sg_gone st). \<forall>x. holds x (tl_ops t) = 0)
     \<and> (\<forall>s \<in> set (sg_silent st). \<forall>x. holds x (sk_ops s) = 0)
     \<and> (\<not> stage_on st \<longrightarrow> sg_tiles st = [] \<and> sg_sinks st = [])"

lemma version_ops [simp]:
  "mediaVersion (vcall c t v) = mediaVersion v" "mediaVersion (notify m v) = mediaVersion v" "mediaVersion (RESET v) = mediaVersion v"
  by (simp_all add: vcall_def notify_def RESET_def)

lemma version_sync: "mediaVersion (syncFromRoom av b v) = (if b \<and> room v \<noteq> None then mediaVersion v + 1 else mediaVersion v)"
  by (simp add: syncFromRoom_def Let_def split: option.split)

lemma settle_version: "mediaVersion v \<le> mediaVersion (settle av sec t res v)"
  by (cases t) (auto simp: voice_ops version_sync split: settled.split option.split)

lemma version_grows: "mediaVersion v \<le> mediaVersion (voice_step av sec e v)"
proof (cases e)
  case (Settle i res)
  then show ?thesis using settle_version [of "v\<lparr>vtasks := take i (vtasks v) @ drop (Suc i) (vtasks v)\<rparr>"] by simp
next
  case (RoomFires r f)
  then show ?thesis by (cases f) (auto simp: voice_ops version_sync split: option.split)
next
  case (Toggle d)
  then show ?thesis by (auto simp: toggle_device_def split: option.split)
next
  case (Join c g)
  then show ?thesis by (auto simp: join_def voice_ops Let_def split: option.split)
next
  case Leave
  then show ?thesis by (auto simp: leave_def voice_ops split: option.split)
qed simp_all

lemma commit_simps [simp]:
  "sg_voice (commit st) = sg_voice st" "sg_noGuilds (commit st) = sg_noGuilds st" "stage_on (commit st) = stage_on st"
  by (simp_all add: commit_def stage_on_def)

lemma tile_version:
  "n = mediaVersion v \<or> (\<exists>t'. c = Some (n, t'))" if "(n, t) = (case c of None \<Rightarrow> mount_tile (i, v) | Some c \<Rightarrow> update_tile (i, v) c)"
  using that by (auto simp: mount_tile_def update_tile_def split: option.splits if_splits)

text \<open>A commit establishes the invariant, whatever the store has become.\<close>

definition children_inv :: "stage \<Rightarrow> bool" where
  "children_inv st \<longleftrightarrow> (\<forall>(i, n, t) \<in> set (sg_tiles st). tile_inv t \<and> n \<le> mediaVersion (sg_voice st))
     \<and> (\<forall>(k, s) \<in> set (sg_sinks st). sink_inv s)
     \<and> (\<forall>(n, t) \<in> set (sg_gone st). \<forall>x. holds x (tl_ops t) = 0)
     \<and> (\<forall>s \<in> set (sg_silent st). \<forall>x. holds x (sk_ops s) = 0)"

lemma stage_inv_alt: "stage_inv st \<longleftrightarrow> children_inv st \<and> (\<not> stage_on st \<longrightarrow> sg_tiles st = [] \<and> sg_sinks st = [])"
  by (simp add: stage_inv_def children_inv_def)

lemma paired: "(i, j, v) \<in> set (map (\<lambda>k. (k, k, c)) ks) \<Longrightarrow> v = c"
  by auto

lemma wanted_store: "(i, j, v) \<in> set (wanted_tiles st) \<Longrightarrow> v = sg_voice st"
  unfolding wanted_tiles_def by (rule paired)

lemma commit_inv:
  assumes c: "children_inv st"
  shows "stage_inv (commit st)"
proof -
  have t: "\<forall>(k, c) \<in> set (sg_tiles st). case c of (n, t) \<Rightarrow> tile_inv t" using c by (auto simp: children_inv_def)
  have s: "\<forall>(k, c) \<in> set (sg_sinks st). sink_inv c" using c by (simp add: children_inv_def)
  have "n \<le> mediaVersion (sg_voice st)" if "(i, n, u) \<in> set (sg_tiles (commit st))" for i n u
  proof -
    obtain j v where w: "(i, j, v) \<in> set (wanted_tiles st)"
      "(n, u) = (case map_of (sg_tiles st) i of None \<Rightarrow> mount_tile (j, v) | Some c \<Rightarrow> update_tile (j, v) c)"
      using \<open>(i, n, u) \<in> _\<close> by (auto simp: commit_def reconcile_def)
    have "n = mediaVersion v \<or> (\<exists>t'. map_of (sg_tiles st) i = Some (n, t'))" by (rule tile_version [OF w(2)])
    then show ?thesis using wanted_store [OF w(1)] c by (auto simp: children_inv_def dest!: map_of_SomeD)
  qed
  then have "children_inv (commit st)"
    using tiles.reconcile_inv [OF t, of "wanted_tiles st"] tiles.dropped_released [OF t, of "wanted_tiles st"]
      sinks.reconcile_inv [OF s, of "wanted_sinks st"] sinks.dropped_released [OF s, of "wanted_sinks st"] c
    unfolding children_inv_def by (fastforce simp: commit_def)
  moreover have "\<not> stage_on st \<Longrightarrow> sg_tiles (commit st) = [] \<and> sg_sinks (commit st) = []"
    by (simp add: commit_def wanted_tiles_def wanted_ids_def wanted_sinks_def)
  ultimately show ?thesis by (simp add: stage_inv_alt)
qed

lemma stage_inv_step:
  assumes i: "stage_inv st"
  shows "stage_inv (stage_step av sec e st)"
proof (cases e)
  case (Voice x)
  let ?w = "voice_step av sec x (sg_voice st)"
  have c: "children_inv (st\<lparr>sg_voice := ?w\<rparr>)"
    using i version_grows [of "sg_voice st" av sec x] by (fastforce simp: stage_inv_alt children_inv_def)
  show ?thesis
  proof (cases "rerenders x (sg_voice st) ?w")
    case True
    then show ?thesis using commit_inv [OF c] Voice by (simp add: Let_def)
  next
    case False
    then have "stage_on (st\<lparr>sg_voice := ?w\<rparr>) = stage_on st" by (simp add: rerenders_def subscribed_def stage_on_def)
    then show ?thesis using c i Voice False by (simp add: stage_inv_alt Let_def)
  qed
next
  case (NoGuilds b)
  have "children_inv (st\<lparr>sg_noGuilds := b\<rparr>)" using i by (simp add: stage_inv_alt children_inv_def)
  then show ?thesis using commit_inv NoGuilds by simp
qed

interpretation stage_runs: invariant_steps "stage_step av sec" stage_inv "\<lambda>_. True" for av sec
  by unfold_locales (rule stage_inv_step)

definition stage_run :: "(string \<Rightarrow> string option) \<Rightarrow> bool \<Rightarrow> stage_event list \<Rightarrow> stage" where
  "stage_run av sec es = fold (stage_step av sec) es start_stage"

lemma stage_run_inv: "stage_inv (stage_run av sec es)"
  unfolding stage_run_def by (rule stage_runs.run) (simp_all add: stage_inv_def start_stage_def list_all_iff)

section \<open>What the call on screen promises\<close>

text \<open>
  C25: no media leaks: in every run of the call with its stage, an element on screen holds exactly the
  track its component attached last, an element that was removed holds none, and while the stage is
  not shown nothing is attached.
\<close>
theorem media_released:
  assumes "st = stage_run av sec es"
  shows "(\<forall>(i, n, t) \<in> set (sg_tiles st). \<forall>x. holds x (tl_ops t) = (if tl_attached t = Some x then 1 else 0))
    \<and> (\<forall>(k, s) \<in> set (sg_sinks st). \<forall>x. holds x (sk_ops s) = (if sk_attached s = Some x then 1 else 0))
    \<and> (\<forall>(n, t) \<in> set (sg_gone st). \<forall>x. holds x (tl_ops t) = 0)
    \<and> (\<forall>s \<in> set (sg_silent st). \<forall>x. holds x (sk_ops s) = 0)
    \<and> (stage_on st \<or> sg_tiles st = [] \<and> sg_sinks st = [])"
  using stage_run_inv [of av sec es] unfolding assms
  by (auto simp: stage_inv_def tile_inv_def sink_inv_def)

text \<open>The stage shows the room: one tile per participant with its track, one sink per audio track.\<close>

definition in_step :: "stage \<Rightarrow> bool" where
  "in_step st \<longleftrightarrow>
     map (\<lambda>(i, n, t). (i, tl_attached t)) (sg_tiles st)
       = map (\<lambda>p. (ds_identity p, map_option fst (getDisplayTrack (ds_identity p) (sg_voice st)))) (participants (sg_voice st))
     \<and> map (\<lambda>(k, s). (k, sk_attached s)) (sg_sinks st) = map (\<lambda>(k, x). (k, Some x)) (getRemoteAudioTracks (sg_voice st))"

lemma commit_sinks:
  "map (\<lambda>(k, s). (k, sk_attached s)) (sg_sinks (commit st)) = map (\<lambda>(k, x). (k, Some x)) (wanted_sinks st)"
proof -
  have "sk_attached (case c of None \<Rightarrow> mount_sink x | Some s \<Rightarrow> update_sink x s) = Some x" for c x
    by (auto simp: mount_sink_def update_sink_def sink_effect_shows split: option.split)
  then show ?thesis by (simp add: commit_def reconcile_def case_prod_unfold)
qed

lemma commit_tiles:
  assumes "\<forall>(i, n, t) \<in> set (sg_tiles st). n < mediaVersion (sg_voice st)" and "stage_on st"
  shows "map (\<lambda>(i, n, t). (i, tl_attached t)) (sg_tiles (commit st))
    = map (\<lambda>p. (ds_identity p, map_option fst (getDisplayTrack (ds_identity p) (sg_voice st)))) (participants (sg_voice st))"
proof -
  let ?v = "sg_voice st"
  have one: "tl_attached (snd (case map_of (sg_tiles st) k of None \<Rightarrow> mount_tile (i, ?v) | Some c \<Rightarrow> update_tile (i, ?v) c))
      = map_option fst (getDisplayTrack i ?v)" for i k
    using assms(1) by (force simp: mount_tile_def update_tile_def tile_shows split: option.split dest: map_of_SomeD)
  show ?thesis
  proof (cases "vconnecting ?v \<and> participants ?v = []")
    case True
    then show ?thesis by (simp add: commit_def wanted_tiles_def wanted_ids_def stage_shows_def)
  next
    case False
    then have "stage_shows ?v = Grid (participants ?v)" by (simp add: stage_shows_def)
    then show ?thesis using one assms(2)
      by (simp add: commit_def wanted_tiles_def wanted_ids_def reconcile_def case_prod_unfold cong: option.case_cong)
  qed
qed

lemma speaking_keeps:
  assumes "mediaVersion (sg_voice st) = n" and "map_of (sg_tiles st) i = Some (n, t)" and "(i, m, u) \<in> set (sg_tiles (commit st))"
  shows "u = t"
proof -
  have "(m, u) = (n, t)"
    by (rule tiles.reconcile_keeps [OF assms(2), of "(m, u)" "wanted_tiles st"])
      (use assms(1,3) wanted_store in \<open>auto simp: commit_def\<close>)
  then show ?thesis by simp
qed

text \<open>
  C26: the stage follows the room without flicker: after a media event of the current call the stage
  shows one tile per participant, with the screen or camera of that participant attached, and plays
  each remote audio track, whatever happened before; an event about who is speaking repaints without
  attaching or detaching anything on a tile whose media are up to date.
\<close>
theorem stage_follows_room:
  assumes "st = stage_run av sec es" and "r \<in> set (listeners (sg_voice st))" and "room (sg_voice st) \<noteq> None" and "stage_on st"
  shows "in_step (stage_step av sec (Voice (RoomFires r MediaEvent)) st)
    \<and> (\<forall>i t u m. map_of (sg_tiles st) i = Some (mediaVersion (sg_voice st), t)
        \<and> (i, m, u) \<in> set (sg_tiles (stage_step av sec (Voice (RoomFires r SpeakingEvent)) st)) \<longrightarrow> tl_ops u = tl_ops t)"
proof
  let ?v = "sg_voice st"
  have inv: "stage_inv st" unfolding assms(1) by (rule stage_run_inv)
  have fields: "viewVoiceStage (syncFromRoom av b ?v) = viewVoiceStage ?v" "vconnected (syncFromRoom av b ?v) = vconnected ?v"
    "vconnecting (syncFromRoom av b ?v) = vconnecting ?v" for b
    by (simp_all add: syncFromRoom_def Let_def split: option.split)
  let ?m = "st\<lparr>sg_voice := syncFromRoom av True ?v\<rparr>"
  have ver: "mediaVersion (syncFromRoom av True ?v) = mediaVersion ?v + 1" using assms(3) by (simp add: version_sync)
  then have step: "stage_step av sec (Voice (RoomFires r MediaEvent)) st = commit ?m"
    using assms(2) by (simp add: rerenders_def subscribed_def Let_def)
  have on: "stage_on ?m" using assms(4) by (simp add: stage_on_def voiceView_def fields)
  have "\<forall>(i, n, t) \<in> set (sg_tiles ?m). n < mediaVersion (sg_voice ?m)"
    using inv ver by (fastforce simp: stage_inv_def)
  from commit_tiles [OF this on] show "in_step (stage_step av sec (Voice (RoomFires r MediaEvent)) st)"
    unfolding step in_step_def commit_sinks using on by (simp add: wanted_sinks_def)
  let ?s = "st\<lparr>sg_voice := syncFromRoom av False ?v\<rparr>"
  have quiet: "stage_step av sec (Voice (RoomFires r SpeakingEvent)) st = commit ?s"
    using assms(2,3) by (simp add: rerenders_def Let_def)
  show "\<forall>i t u m. map_of (sg_tiles st) i = Some (mediaVersion ?v, t)
      \<and> (i, m, u) \<in> set (sg_tiles (stage_step av sec (Voice (RoomFires r SpeakingEvent)) st)) \<longrightarrow> tl_ops u = tl_ops t"
    unfolding quiet
  proof (intro allI impI, elim conjE)
    fix i t u m
    assume "map_of (sg_tiles st) i = Some (mediaVersion ?v, t)" and "(i, m, u) \<in> set (sg_tiles (commit ?s))"
    then have "u = t" using speaking_keeps [of ?s "mediaVersion ?v" i t m u] by (simp add: version_sync)
    then show "tl_ops u = tl_ops t" by simp
  qed
qed

section \<open>A call\<close>

text \<open>Ann is joined by Bob, who speaks and turns his camera on; then Ann opens a text channel.\<close>

definition bob :: participant where
  "bob = \<lparr>pt_identity = ''bob'', pt_name = ''Bob'', pt_metadata = [], pt_speaking = False, pt_mic = True,
     pt_cam = True, pt_screen_on = False, pt_screen = None,
     pt_camera = Some \<lparr>pb_sid = ''v1'', pb_kind = ''video'', pb_track = Some 7, pb_muted = False\<rparr>,
     pt_publications = [\<lparr>pb_sid = ''a1'', pb_kind = ''audio'', pb_track = Some 8, pb_muted = False\<rparr>]\<rparr>"

definition call_run :: "stage_event list" where
  "call_run = map Voice [Join ''c'' ''g'', Settle 0 (Token ''t''), Settle 0 Settled, Settle 0 Settled,
     RoomChanges 0 \<lparr>lr_local = Some ann, lr_remote = [bob]\<rparr>]"

lemmas call_eval = call_run_def stage_run_def start_stage_def initial_voice_def voice_ops vcall_def RESET_def
  syncFromRoom_def rerenders_def subscribed_def voiceView_def empty_room_def buildParticipants_def

lemma call_facts:
  "0 \<in> set (listeners (sg_voice (stage_run no_avatar True call_run)))"
  "room (sg_voice (stage_run no_avatar True call_run)) = Some 0" "stage_on (stage_run no_avatar True call_run)"
  by (simp_all add: call_eval commit_def stage_on_def)

lemma stage_follows_room_witness:
  "let st = stage_step no_avatar True (Voice (RoomFires 0 MediaEvent)) (stage_run no_avatar True call_run)
   in in_step st \<and> map (\<lambda>(k, s). (k, sk_attached s)) (sg_sinks st) = [(''bob:a1'', Some 8)]
    \<and> map (\<lambda>(i, n, t). (i, tl_attached t)) (sg_tiles st) = [(''ann'', None), (''bob'', Some 7)]"
proof -
  let ?st = "stage_run no_avatar True call_run"
  let ?u = "stage_step no_avatar True (Voice (RoomFires 0 MediaEvent)) ?st"
  have s: "in_step ?u" using stage_follows_room [OF refl call_facts(1) _ call_facts(3)] call_facts(2) by simp
  have "sg_voice ?u = syncFromRoom no_avatar True (sg_voice ?st)"
    using call_facts(1) by (simp add: Let_def)
  moreover have "live (sg_voice ?st) 0 = \<lparr>lr_local = Some ann, lr_remote = [bob]\<rparr>" by (simp add: call_eval commit_def)
  ultimately have "participants (sg_voice ?u) = [describe no_avatar ann True, describe no_avatar bob False]"
    "getRemoteAudioTracks (sg_voice ?u) = [(''bob:a1'', 8)]"
    "getDisplayTrack ''ann'' (sg_voice ?u) = None" "getDisplayTrack ''bob'' (sg_voice ?u) = Some (7, False)"
    using call_facts(2)
    by (simp_all add: syncFromRoom_def buildParticipants_def getRemoteAudioTracks_def getDisplayTrack_def findParticipant_def
        ann_def bob_def shown_def List.map_filter_def)
  then show ?thesis using s by (simp add: in_step_def Let_def describe_def ann_def bob_def del: stage_step.simps)
qed

lemma media_released_witness:
  "let st = stage_run no_avatar True (call_run @ map Voice [RoomFires 0 MediaEvent, SetViewingText])
   in map (tl_ops \<circ> snd) (sg_gone st) = [[], [Attach 7, Detach 7]] \<and> (\<forall>c \<in> set (sg_gone st). holds 7 (tl_ops (snd c)) = 0)
     \<and> sg_tiles st = []"
proof -
  let ?st = "stage_run no_avatar True (call_run @ map Voice [RoomFires 0 MediaEvent, SetViewingText])"
  have "map (tl_ops \<circ> snd) (sg_gone ?st) = [[], [Attach 7, Detach 7]]" "\<not> stage_on ?st"
    by (simp_all add: call_eval commit_def stage_on_def wanted_tiles_def wanted_ids_def wanted_sinks_def stage_shows_def
        reconcile_def dropped_def mount_tile_def update_tile_def unmount_tile_def tile_effect_def tile_cleanup_def new_tile_def
        getDisplayTrack_def findParticipant_def ann_def bob_def shown_def describe_def)
  moreover note media_released [OF refl, of no_avatar True "call_run @ map Voice [RoomFires 0 MediaEvent, SetViewingText]"]
  ultimately show ?thesis by (simp add: Let_def case_prod_unfold)
qed

end
