(* ===== verification/Spec2Isabelle.thy ===== *)
theory Spec2Isabelle
  imports Chat_Findings Api_Properties Gateway_Properties Voice_Properties View_Properties
    Session_Boot Message_Html Chat_Html Form_Html Shell_Html Application
    Whole_Client Call_Stage
begin

text \<open>
  Discurd is a chat application: guilds with text and voice channels, messages with attachments and
  reactions, presence, typing notices and shared visual effects. This development models its web
  client, the JavaScript under \<open>src/web/src\<close>: the zustand stores (\<open>store/\<close>), the API and gateway
  clients and the effects engine (\<open>lib/\<close>), and what the React components (\<open>components/\<close>, \<open>pages/\<close>)
  decide and do. The server, written in Go, is the client's environment.

  \<^bold>\<open>How the parts interact.\<close> A user action is handled by a component, which calls operations of the
  stores. An operation of \<open>chatStore.js\<close> changes the store at once and may start a request through
  \<open>api.js\<close>, whose reply changes the store later. \<open>gateway.js\<close> keeps the WebSocket alive and hands its
  events to \<open>chatStore.js\<close>, which the components read. \<open>api.js\<close> and \<open>gateway.js\<close> share the session of
  \<open>authStore.js\<close>; \<open>voiceStore.js\<close> drives the LiveKit library; \<open>effectsStore.js\<close> passes effects, the
  user's own and those received by the gateway, to the overlay that animates them.

  \<^bold>\<open>How a program with promises is modelled.\<close> An \<open>async\<close> function is split at its awaits. The piece up
  to an await is a definition of the function's name; what follows an await is a definition with the
  suffix \<open>_ok\<close>, \<open>_err\<close>, or the name of the step. Between the pieces the suspended call is part of the
  state (a task of \<open>Chat_Async\<close>, a pending fetch of \<open>Api_Client\<close>, a count of open requests in the
  components), and the environment resumes suspended calls in any order and with any reply. JavaScript
  runs one piece to its end before another starts, so the interleavings of the pieces are all there
  are. A run is a fold of a step function over a list of events, and an invariant of all runs is an
  interpretation of the locale \<open>invariant_steps\<close> of theory \<open>Prelude\<close>. Nothing here needs fuel: every
  definition is structurally recursive or not recursive, and a loop of the program that may go on (the
  heartbeat, reconnecting, the animation) is a step that an event of the environment repeats.

  \<^bold>\<open>Theories.\<close>
  \<^item> \<open>Prelude\<close>: JavaScript objects as ordered dictionaries (locale \<open>js_object\<close>), array helpers,
    printing of numbers, the locales \<open>redeliverable\<close> (events the gateway may deliver twice) and
    \<open>invariant_steps\<close>. \<open>Wire_Types\<close>: the JSON objects and the record of the chat store. \<open>Js_Text\<close>:
    strings as UTF-16 code units where lengths matter (\<open>trim\<close>, \<open>slice\<close>) and their UTF-8 bytes.
  \<^item> \<open>chatStore.js\<close>: \<open>Conversation\<close> (messages; locale \<open>items_edit\<close>), \<open>Reactions\<close> (refinement of sets
    of users), \<open>Chat_Store\<close> (typing, presence, guilds, channels, members), \<open>Chat_Async\<close> (all async
    operations), \<open>Chat_Machine\<close> (the client with its environment, \<open>reachable\<close>), \<open>Chat_Invariant\<close> (the
    invariant of every run), \<open>Chat_Properties\<close>, \<open>Chat_Navigation\<close>, \<open>Request_Paths\<close>, \<open>Chat_Findings\<close>.
  \<^item> \<open>toastStore.js\<close>, \<open>effectsStore.js\<close>, \<open>gifStore.js\<close>, \<open>profileStore.js\<close>, \<open>uiStore.js\<close> (with the
    gestures and keys of \<open>pages/AppShell.jsx\<close>): \<open>Toast_Store\<close>, \<open>Effects_Store\<close>, \<open>Gif_Store\<close>,
    \<open>Profile_Store\<close>, \<open>Ui_Store\<close>. \<open>lib/format.js\<close>: \<open>Format\<close>.
  \<^item> \<open>authStore.js\<close> and the route guard of \<open>App.jsx\<close>: \<open>Auth_Store\<close>. \<open>lib/api.js\<close>: \<open>Api_Client\<close>,
    \<open>Api_Properties\<close>. \<open>lib/gateway.js\<close>: \<open>Gateway_Client\<close>, \<open>Gateway_Properties\<close>. \<open>voiceStore.js\<close>:
    \<open>Voice_Store\<close>, \<open>Voice_Properties\<close>.
  \<^item> Components: \<open>Composer\<close> (\<open>MessageInput.jsx\<close>), \<open>Gif_Picker\<close>, \<open>Message_View\<close> (\<open>MessageItem.jsx\<close>,
    \<open>MessagePane.jsx\<close>), \<open>Profile_Card\<close>, \<open>Edit_Profile\<close>, \<open>Settings\<close> (with signing out), \<open>Forms\<close>
    (channel, guild, login and register forms as instances of the locale \<open>form_flow\<close>, and the invite
    dialog), \<open>Guild_View\<close> (\<open>ChannelSidebar.jsx\<close>, \<open>MemberList.jsx\<close>, \<open>MobileTopBar.jsx\<close>,
    \<open>VoiceStage.jsx\<close>), and their properties in \<open>View_Properties\<close>. \<open>Session_Boot\<close>: the effect of
    \<open>App.jsx\<close> that restores a session after a reload.
  \<^item> Markup: \<open>Html\<close> (trees of elements with attributes and handlers, what a tree offers, links to and
    draws; \<open>Avatar.jsx\<close>), \<open>Message_Html\<close> (\<open>MessageItem.jsx\<close>), \<open>Chat_Html\<close> (\<open>MessagePane.jsx\<close>,
    \<open>MessageInput.jsx\<close>, \<open>GifPicker.jsx\<close>, \<open>TypingIndicator.jsx\<close>), \<open>Form_Html\<close> (\<open>Modal.jsx\<close>, the dialogs,
    the account pages, the settings, the profile card, the routes of \<open>App.jsx\<close>), \<open>Shell_Html\<close>
    (\<open>AppShell.jsx\<close>, \<open>GuildRail.jsx\<close>, \<open>ChannelSidebar.jsx\<close>, \<open>VoiceControlBar.jsx\<close>, \<open>UserPanel.jsx\<close>,
    \<open>MemberList.jsx\<close>, \<open>MobileTopBar.jsx\<close>, \<open>VoiceStage.jsx\<close>, \<open>LightningButton.jsx\<close>, \<open>Toasts.jsx\<close>). A
    component's markup is a function from the stores and the component's state to a tree; a handler in
    it is an action of the component's own datatype, and a step function says what each action does.
  \<^item> \<open>Call_Stage\<close>: the voice store with the stage on screen. React's children kept by their keys (locale
    \<open>keyed_children\<close>, interpreted for the tiles and for the audio sinks of \<open>VoiceStage.jsx\<close>), the media
    tracks attached to their elements, and when the stage is rendered again.
  \<^item> \<open>Application\<close>: the gateway client, the chat store and the session at work together while
    \<open>AppShell.jsx\<close> is mounted or not; its runs are runs of the chat machine. \<open>Whole_Client\<close> adds the API
    client, which carries out the store's requests, resumes what awaits them and fetches the gateway's
    tokens: its runs are runs of \<open>Application\<close>, and when the network has answered nothing is waiting.
  \<^item> \<open>lib/effects.js\<close> and \<open>EffectsOverlay.jsx\<close>: \<open>Canvas\<close> (canvas calls as commands, \<open>Math.random\<close> as a
    stream read through the state monad, and a calculus of postconditions \<open>returns\<close>),
    \<open>Effects_Engine\<close>, \<open>Effects_Facts\<close>, \<open>Effects_Frames\<close>, \<open>Effects_Overlay\<close>.

  \<^bold>\<open>What the lemmas show.\<close> Chat store: message ids stay unique, nothing stays loading or waiting
  without its request, the echo and the response of a send commute, a failed send is marked, live
  events and pages merge without loss, reactions refine sets, redelivered events change nothing. API
  client: every call is answered exactly once, one refresh serves all calls that met a 401, and
  network failures keep the session. Gateway: it is never stuck, keeps one connection in orderly use,
  and backs off up to 30 seconds. Voice: no call hangs in connecting, leaving is complete, the stage follows the room
  and no track stays attached to an element that is gone. Components:
  what they send is valid, what they show is current, they end what they start. Markup: what a page
  offers is computed from its tree, so that the theorems can say that the navigation is complete, that
  a row's requests are permitted, that a button is enabled exactly when it does something, that the
  rows and the loading notes of the pane agree with the store in every run. The theories also
  prove, as lemmas on concrete runs, the places where the code does not do what it means to
  (\<open>Chat_Findings\<close>, \<open>logout_undone_by_refresh\<close>, \<open>gateway_double_open\<close>,
  \<open>leave_while_fetching_is_undone\<close>, \<open>text_channel_silences_call\<close>, \<open>logout_keeps_call\<close>,
  \<open>encoded_dots_pass\<close>, \<open>live_message_takes_anchor\<close>, \<open>formatBytes_unit_edge\<close>,
  \<open>press_in_dialog_closes_it\<close>, \<open>save_after_logout_loops\<close>, \<open>guild_list_never_retried\<close>,
  \<open>late_page_shown_to_next_user\<close> and others).

  \<^bold>\<open>Parameters.\<close> Code outside \<open>src/\<close> is an argument of the definitions that use it: the payload of a
  JWT, LiveKit's rooms and promises, the URL parser, \<open>toLowerCase\<close>, \<open>localeCompare\<close>, the locale's date
  texts, the sizes of the DOM, clocks, \<open>Math.random\<close> (a stream of numbers in [0, 1)). Floating-point
  numbers are reals; the integers of the avatar hash are 32-bit words; times are integers. An opaque
  text is the list of its UTF-8 bytes.

  \<^bold>\<open>Not modelled.\<close> The Go server, which is the environment; the shapes of the icons (\<open>Icons.jsx\<close>: an
  icon is an element with its name), the style sheet, and the props handed to the emoji library
  (\<open>EmojiPickerInner.jsx\<close>); React's scheduling beyond the order of effects, and the router beyond the
  choice of a route and its redirects; \<open>main.jsx\<close> and the build configuration. Focus, caret placement
  and the growth of text areas have no effect on the modelled state. Of a form the browser itself
  checks (\<open>required\<close>, \<open>maxLength\<close>, \<open>type="email"\<close>) only the attributes appear in the tree.
\<close>

end
